theory Spec2Isabelle
  imports Main "HOL-Library.Multiset"
begin

section \<open>Document types (lib/firestore-types.ts)\<close>

text \<open>
  The string-literal unions of the source are datatypes; the interfaces are records.
  Record fields carry a prefix, since several interfaces share field names
  (\<open>id\<close>, \<open>player_id\<close>, \<open>created_at\<close>). An optional field \<open>f?: T\<close> is a \<open>T option\<close>.
\<close>

datatype AppRole = Admin | PlayerRole | User

datatype PlayerPosition = Goalkeeper | Defender | Midfielder | Forward

datatype LineupType = First_half | Second_half | Full_time

datatype EventType = Goal | Assist | Yellow_card | Red_card

text \<open>
  A JavaScript number as far as this program uses it: an integer value or \<open>NaN\<close>.
  \<open>Num n\<close> stands for the Number value of the integer \<open>n\<close>.
\<close>

datatype number = NaN | Num int

record Player =
  pl_id :: "string option"
  pl_full_name :: string
  pl_position :: PlayerPosition
  pl_jersey_number :: number
  pl_email :: "string option"
  pl_avatar_url :: "string option"
  pl_image_public_id :: "string option"
  pl_user_id :: "string option"
  pl_is_active :: bool
  pl_created_at :: string
  pl_updated_at :: string

record MatchLineup =
  lu_id :: "string option"
  lu_match_id :: string
  lu_player_id :: string
  lu_lineup_type :: LineupType
  lu_position_played :: PlayerPosition
  lu_created_at :: string

record MatchLineupWithPlayer = MatchLineup +
  lu_players :: "Player option"

section \<open>Array helpers of the language\<close>

text \<open>\<open>Array.prototype.indexOf\<close>: the first index of the element, \<open>-1\<close> when absent.\<close>

fun indexOf :: "'a list \<Rightarrow> 'a \<Rightarrow> int" where
  "indexOf [] x = - 1"
| "indexOf (y # ys) x =
     (if y = x then 0
      else (let i = indexOf ys x in if i = - 1 then - 1 else i + 1))"

text \<open>
  \<open>Array.prototype.sort\<close> with a comparator: a stable sort. An element is placed before
  the first element it does not compare greater than.
\<close>

fun insert_cmp :: "('a \<Rightarrow> 'a \<Rightarrow> int) \<Rightarrow> 'a \<Rightarrow> 'a list \<Rightarrow> 'a list" where
  "insert_cmp cmp x [] = [x]"
| "insert_cmp cmp x (y # ys) =
     (if cmp x y \<le> 0 then x # y # ys else y # insert_cmp cmp x ys)"

definition array_sort :: "('a \<Rightarrow> 'a \<Rightarrow> int) \<Rightarrow> 'a list \<Rightarrow> 'a list" where
  "array_sort cmp xs = foldr (insert_cmp cmp) xs []"

section \<open>Squad page: grouping by position\<close>

definition positionOrder :: "PlayerPosition list" where
  "positionOrder = [Goalkeeper, Defender, Midfielder, Forward]"

text \<open>
  \<open>positionOrder.reduce((acc, position) => { acc[position] = players.filter(...); return acc }, {})\<close>
\<close>

definition groupedPlayers :: "Player list \<Rightarrow> (PlayerPosition \<rightharpoonup> Player list)" where
  "groupedPlayers players =
     foldl (\<lambda>acc position. acc(position \<mapsto> filter (\<lambda>p. pl_position p = position) players))
       Map.empty positionOrder"

section \<open>Match details page: the three lineup sections\<close>

definition byPosition :: "MatchLineupWithPlayer \<Rightarrow> MatchLineupWithPlayer \<Rightarrow> int" where
  "byPosition a b =
     indexOf positionOrder (lu_position_played a) - indexOf positionOrder (lu_position_played b)"

definition firstHalfLineup :: "MatchLineupWithPlayer list \<Rightarrow> MatchLineupWithPlayer list" where
  "firstHalfLineup lineups =
     array_sort byPosition (filter (\<lambda>l. lu_lineup_type l = First_half) lineups)"

definition secondHalfLineup :: "MatchLineupWithPlayer list \<Rightarrow> MatchLineupWithPlayer list" where
  "secondHalfLineup lineups =
     array_sort byPosition (filter (\<lambda>l. lu_lineup_type l = Second_half) lineups)"

definition fullTimeLineup :: "MatchLineupWithPlayer list \<Rightarrow> MatchLineupWithPlayer list" where
  "fullTimeLineup lineups =
     array_sort byPosition (filter (\<lambda>l. lu_lineup_type l = Full_time) lineups)"

text \<open>The fixed order of the specification: goalkeeper, defender, midfielder, forward.\<close>

fun spec_position_rank :: "PlayerPosition \<Rightarrow> nat" where
  "spec_position_rank Goalkeeper = 0"
| "spec_position_rank Defender = 1"
| "spec_position_rank Midfielder = 2"
| "spec_position_rank Forward = 3"

definition spec_in_position_order :: "MatchLineupWithPlayer list \<Rightarrow> bool" where
  "spec_in_position_order ls = sorted (map (\<lambda>l. spec_position_rank (lu_position_played l)) ls)"

section \<open>The \<open>toDate\<close> helper\<close>

text \<open>
  The values a document field can hold, with \<open>undefined\<close> for a field that is absent:
  a Firestore \<open>Timestamp\<close> (seconds, nanoseconds), arrays and maps (plain objects, as
  property lists).
\<close>

datatype js_value =
    JUndefined
  | JNull
  | JBoolean bool
  | JNumber number
  | JString string
  | JTimestamp int int
  | JArray "js_value list"
  | JObject "(string \<times> js_value) list"

datatype js_error = TypeError string | RangeError string | Error string

text \<open>A \<open>Date\<close> is its time value in milliseconds; \<open>NaN\<close> is the Invalid Date.\<close>

datatype Date = Date number

text \<open>
  What the runtime and the SDK supply: the clock, \<open>Date.parse\<close> behind
  \<open>new Date(string)\<close>, \<open>Timestamp.toDate()\<close> of the Firestore SDK, and \<open>ToNumber\<close>
  on strings and objects.
\<close>

record runtime =
  rt_now :: int
  rt_date_parse :: "string \<Rightarrow> number"
  rt_timestamp_toDate :: "int \<Rightarrow> int \<Rightarrow> Date"
  rt_to_number :: "js_value \<Rightarrow> number"

fun js_typeof :: "js_value \<Rightarrow> string" where
  "js_typeof JUndefined = ''undefined''"
| "js_typeof JNull = ''object''"
| "js_typeof (JBoolean b) = ''boolean''"
| "js_typeof (JNumber n) = ''number''"
| "js_typeof (JString s) = ''string''"
| "js_typeof (JTimestamp s n) = ''object''"
| "js_typeof (JArray xs) = ''object''"
| "js_typeof (JObject ps) = ''object''"

fun truthy :: "js_value \<Rightarrow> bool" where
  "truthy JUndefined = False"
| "truthy JNull = False"
| "truthy (JBoolean b) = b"
| "truthy (JNumber NaN) = False"
| "truthy (JNumber (Num n)) = (n \<noteq> 0)"
| "truthy (JString s) = (s \<noteq> [])"
| "truthy (JTimestamp s n) = True"
| "truthy (JArray xs) = True"
| "truthy (JObject ps) = True"

fun instanceof_Timestamp :: "js_value \<Rightarrow> bool" where
  "instanceof_Timestamp (JTimestamp s n) = True"
| "instanceof_Timestamp _ = False"

text \<open>
  \<open>'seconds' in value\<close>: a \<open>TypeError\<close> when the right operand is not an object.
  No prototype of these objects has a property \<open>seconds\<close>, so own properties decide.
\<close>

fun seconds_in :: "js_value \<Rightarrow> js_error + bool" where
  "seconds_in (JObject ps) = Inr (''seconds'' \<in> set (map fst ps))"
| "seconds_in (JArray xs) = Inr False"
| "seconds_in (JTimestamp s n) = Inr True"
| "seconds_in _ = Inl (TypeError ''Cannot use 'in' operator to search for 'seconds' '')"

text \<open>The property read \<open>value.seconds\<close> on an object.\<close>

fun get_seconds :: "js_value \<Rightarrow> js_value" where
  "get_seconds (JObject ps) = (case map_of ps ''seconds'' of Some v \<Rightarrow> v | None \<Rightarrow> JUndefined)"
| "get_seconds (JTimestamp s n) = JNumber (Num s)"
| "get_seconds _ = JUndefined"

fun ToNumber :: "runtime \<Rightarrow> js_value \<Rightarrow> number" where
  "ToNumber rt JUndefined = NaN"
| "ToNumber rt JNull = Num 0"
| "ToNumber rt (JBoolean b) = Num (if b then 1 else 0)"
| "ToNumber rt (JNumber n) = n"
| "ToNumber rt v = rt_to_number rt v"

fun js_times :: "number \<Rightarrow> int \<Rightarrow> number" where
  "js_times NaN k = NaN"
| "js_times (Num n) k = Num (n * k)"

text \<open>\<open>new Date(number)\<close>: a time value beyond 8.64e15 ms in magnitude is invalid.\<close>

fun new_Date_number :: "number \<Rightarrow> Date" where
  "new_Date_number NaN = Date NaN"
| "new_Date_number (Num t) = (if \<bar>t\<bar> > 8640000000000000 then Date NaN else Date (Num t))"

definition new_Date_string :: "runtime \<Rightarrow> string \<Rightarrow> Date" where
  "new_Date_string rt s = new_Date_number (rt_date_parse rt s)"

text \<open>\<open>new Date()\<close>: the current date and time.\<close>

definition new_Date_now :: "runtime \<Rightarrow> Date" where
  "new_Date_now rt = Date (Num (rt_now rt))"

text \<open>
  \<open>value && typeof value === 'object' && 'seconds' in value\<close>: the right operand of
  \<open>&&\<close> is evaluated only when the left one holds.
\<close>

definition has_seconds_guard :: "js_value \<Rightarrow> js_error + bool" where
  "has_seconds_guard v =
     (if \<not> truthy v then Inr False
      else if js_typeof v \<noteq> ''object'' then Inr False
      else seconds_in v)"

definition toDate :: "runtime \<Rightarrow> js_value \<Rightarrow> js_error + Date" where
  "toDate rt v =
     (if instanceof_Timestamp v then
        (case v of JTimestamp s n \<Rightarrow> Inr (rt_timestamp_toDate rt s n) | _ \<Rightarrow> Inr (new_Date_now rt))
      else if js_typeof v = ''string'' then
        (case v of JString s \<Rightarrow> Inr (new_Date_string rt s) | _ \<Rightarrow> Inr (new_Date_now rt))
      else
        (case has_seconds_guard v of
           Inl e \<Rightarrow> Inl e
         | Inr True \<Rightarrow> Inr (new_Date_number (js_times (ToNumber rt (get_seconds v)) 1000))
         | Inr False \<Rightarrow> Inr (new_Date_now rt)))"

section \<open>Matches\<close>

datatype MatchStatus = Upcoming | Completed

text \<open>
  The interface declares \<open>match_date: string\<close>; every reader passes the field through
  \<open>toDate\<close>, which takes any value, so the field is a \<open>js_value\<close> here.
\<close>

record Match =
  m_id :: "string option"
  m_opponent :: string
  m_match_date :: js_value
  m_stadium :: "string option"
  m_status :: MatchStatus
  m_goals_scored :: "int option"
  m_goals_conceded :: "int option"
  m_points_earned :: "int option"
  m_competition_id :: "string option"
  m_kit_color :: "string option"
  m_is_visible :: "bool option"
  m_created_at :: string
  m_updated_at :: string

section \<open>The bootstrap-admin server function\<close>

record user_role_row =
  ur_user_id :: string
  ur_role :: AppRole

record profile_row =
  pr_user_id :: string
  pr_full_name :: string
  pr_email :: string

record auth_user =
  au_id :: string
  au_email :: string
  au_password :: string
  au_email_confirm :: bool

record database =
  db_user_roles :: "user_role_row list"
  db_profiles :: "profile_row list"
  db_auth_users :: "auth_user list"

text \<open>The JSON body: a field that is absent is \<open>None\<close>.\<close>

record BootstrapRequest =
  br_email :: "string option"
  br_password :: "string option"
  br_full_name :: "string option"

text \<open>A request: its method and its body, \<open>None\<close> when \<open>req.json()\<close> rejects.\<close>

record request =
  req_method :: string
  req_json :: "BootstrapRequest option"

text \<open>
  What the platform answers: the two environment variables, and for each call to the
  service whether it fails (with which message) and, for \<open>createUser\<close>, the id and
  the email of the new user. The body of the success response is
  \<open>SuccessJson success message id email full_name\<close>.
\<close>

record platform =
  supabaseUrl :: "string option"
  supabaseServiceKey :: "string option"
  checkError :: "string option"
  createUser_result :: "string + string \<times> string"
  profileError :: "string option"
  roleError :: "string option"

datatype response_body =
    NoBody
  | ErrorJson string
  | SuccessJson bool string string string string

record response =
  status :: nat
  body :: response_body

record handled =
  h_response :: response
  h_database :: database
  h_console :: "string list"

definition falsy :: "string option \<Rightarrow> bool" where
  "falsy s = (case s of None \<Rightarrow> True | Some v \<Rightarrow> v = [])"

definition json_response :: "nat \<Rightarrow> response_body \<Rightarrow> response" where
  "json_response st b = \<lparr>status = st, body = b\<rparr>"

text \<open>\<open>.from("user_roles").select("id").eq("role", "admin").limit(1)\<close>\<close>

definition existingAdmins :: "database \<Rightarrow> user_role_row list" where
  "existingAdmins db = take 1 (filter (\<lambda>r. ur_role r = Admin) (db_user_roles db))"

definition serve :: "platform \<Rightarrow> database \<Rightarrow> request \<Rightarrow> handled" where
  "serve pf db req =
   (if req_method req = ''OPTIONS'' then
      \<lparr>h_response = \<lparr>status = 200, body = NoBody\<rparr>, h_database = db, h_console = []\<rparr>
    else if falsy (supabaseUrl pf) \<or> falsy (supabaseServiceKey pf) then
      \<lparr>h_response = json_response 500 (ErrorJson ''Internal server error''), h_database = db,
        h_console = [''Error in bootstrap-admin function:'']\<rparr>
    else
      (case checkError pf of
         Some e \<Rightarrow>
           \<lparr>h_response = json_response 500 (ErrorJson ''Failed to check existing admins''),
             h_database = db, h_console = [''Error checking for existing admins:'']\<rparr>
       | None \<Rightarrow>
           if length (existingAdmins db) > 0 then
             \<lparr>h_response = json_response 403
                 (ErrorJson ''An admin already exists. Use the create-user function instead.''),
               h_database = db, h_console = []\<rparr>
           else
             (case req_json req of
                None \<Rightarrow>
                  \<lparr>h_response = json_response 500 (ErrorJson ''Internal server error''),
                    h_database = db, h_console = [''Error in bootstrap-admin function:'']\<rparr>
              | Some b \<Rightarrow>
                  if falsy (br_email b) \<or> falsy (br_password b) \<or> falsy (br_full_name b) then
                    \<lparr>h_response = json_response 400
                        (ErrorJson ''Missing required fields: email, password, full_name''),
                      h_database = db, h_console = []\<rparr>
                  else
                    (let email = the (br_email b);
                         password = the (br_password b);
                         full_name = the (br_full_name b)
                     in case createUser_result pf of
                          Inl msg \<Rightarrow>
                            \<lparr>h_response = json_response 400 (ErrorJson msg), h_database = db,
                              h_console = [''Error creating user:'']\<rparr>
                        | Inr (uid, uemail) \<Rightarrow>
                            (let db1 = db\<lparr>db_auth_users := db_auth_users db @
                                   [\<lparr>au_id = uid, au_email = email, au_password = password,
                                     au_email_confirm = True\<rparr>]\<rparr>;
                                 db2 = (case profileError pf of
                                          Some e \<Rightarrow> db1
                                        | None \<Rightarrow> db1\<lparr>db_profiles := db_profiles db1 @
                                            [\<lparr>pr_user_id = uid, pr_full_name = full_name,
                                              pr_email = email\<rparr>]\<rparr>);
                                 log1 = (case profileError pf of
                                           Some e \<Rightarrow> [''Error creating profile:'']
                                         | None \<Rightarrow> []);
                                 db3 = (case roleError pf of
                                          Some e \<Rightarrow> db2
                                        | None \<Rightarrow> db2\<lparr>db_user_roles := db_user_roles db2 @
                                            [\<lparr>ur_user_id = uid, ur_role = Admin\<rparr>]\<rparr>);
                                 log2 = (case roleError pf of
                                           Some e \<Rightarrow> [''Error assigning role:'']
                                         | None \<Rightarrow> [])
                             in \<lparr>h_response = json_response 200
                                    (SuccessJson True ''Admin account created successfully!'' uid
                                       uemail full_name),
                                  h_database = db3, h_console = log1 @ log2\<rparr>)))))"






section \<open>The document store and the calls made to it\<close>

record MatchEvent =
  ev_id :: "string option"
  ev_match_id :: string
  ev_player_id :: string
  ev_event_type :: EventType
  ev_minute :: "int option"
  ev_notes :: "string option"
  ev_created_at :: string

text \<open>
  A collection is the list of its documents, each an id with its data. The subcollections
  \<open>matches/m/lineups\<close> and \<open>matches/m/events\<close> are addressed by the id \<open>m\<close>; they
  exist independently of the document \<open>matches/m\<close>.
\<close>

record firestore =
  fs_players :: "(string \<times> Player) list"
  fs_matches :: "(string \<times> Match) list"
  fs_lineups :: "string \<Rightarrow> (string \<times> MatchLineup) list"
  fs_events :: "string \<Rightarrow> (string \<times> MatchEvent) list"

datatype collection_ref = Players | Matches | Competitions | Lineups string | Events string

datatype document_ref =
    PlayerDoc string
  | MatchDoc string
  | LineupDoc string string
  | EventDoc string string

datatype backend_call =
    GetDocs collection_ref
  | AddDoc collection_ref
  | UpdateDoc document_ref
  | DeleteDoc document_ref
  | UploadToCloudinary string

record toast =
  t_title :: string
  t_description :: string
  t_destructive :: bool

text \<open>
  What a handler can observe and change: the store, the backend calls issued so far (in
  the order of issue), the toasts shown and the lines written to the console.
\<close>

record world =
  w_store :: firestore
  w_calls :: "backend_call list"
  w_toasts :: "toast list"
  w_console :: "string list"

text \<open>
  What the surroundings decide: for each backend call whether it rejects and with which
  error message, the answer to \<open>window.confirm\<close>, the id that \<open>addDoc\<close> generates,
  \<open>new Date().toISOString()\<close>, \<open>toISOString\<close> of a valid time value, the result of an
  upload, and the translation function \<open>t\<close>.
\<close>

record client_env =
  ce_fails :: "backend_call \<Rightarrow> string option"
  ce_confirm :: bool
  ce_auto_id :: string
  ce_now_iso :: string
  ce_iso :: "int \<Rightarrow> string"
  ce_upload_result :: "string \<times> string"
  ce_t :: "string \<Rightarrow> string"
  ce_runtime :: runtime

text \<open>How an async handler ends: its promise resolves, or rejects with an error.\<close>

datatype outcome = Returned | Rejected js_error

fun error_message :: "js_error \<Rightarrow> string" where
  "error_message (TypeError m) = m"
| "error_message (RangeError m) = m"
| "error_message (Error m) = m"

definition issue :: "backend_call list \<Rightarrow> world \<Rightarrow> world" where
  "issue cs w = w\<lparr>w_calls := w_calls w @ cs\<rparr>"

definition show_toast :: "toast \<Rightarrow> world \<Rightarrow> world" where
  "show_toast t w = w\<lparr>w_toasts := w_toasts w @ [t]\<rparr>"

text \<open>
  The \<open>catch\<close> block of the admin pages:
  \<open>toast({ title, description: error.message || fallback, variant: 'destructive' })\<close>
\<close>

definition toast_error :: "string \<Rightarrow> string \<Rightarrow> string \<Rightarrow> world \<Rightarrow> world" where
  "toast_error title fallback msg w =
     show_toast \<lparr>t_title = title, t_description = (if msg = [] then fallback else msg),
                  t_destructive = True\<rparr> w"

definition without :: "string \<Rightarrow> (string \<times> 'a) list \<Rightarrow> (string \<times> 'a) list" where
  "without i docs = filter (\<lambda>d. fst d \<noteq> i) docs"

fun delete_document :: "document_ref \<Rightarrow> firestore \<Rightarrow> firestore" where
  "delete_document (PlayerDoc i) fs = fs\<lparr>fs_players := without i (fs_players fs)\<rparr>"
| "delete_document (MatchDoc i) fs = fs\<lparr>fs_matches := without i (fs_matches fs)\<rparr>"
| "delete_document (LineupDoc m i) fs =
     fs\<lparr>fs_lineups := (fs_lineups fs)(m := without i (fs_lineups fs m))\<rparr>"
| "delete_document (EventDoc m i) fs =
     fs\<lparr>fs_events := (fs_events fs)(m := without i (fs_events fs m))\<rparr>"

text \<open>
  \<open>deleteDoc(ref)\<close>: the call is issued; unless it rejects, the document is gone.
  The result is the error message of a rejection.
\<close>

definition deleteDoc :: "client_env \<Rightarrow> document_ref \<Rightarrow> world \<Rightarrow> string option \<times> world" where
  "deleteDoc env r w =
     (let w1 = issue [DeleteDoc r] w
      in case ce_fails env (DeleteDoc r) of
           Some e \<Rightarrow> (Some e, w1)
         | None \<Rightarrow> (None, w1\<lparr>w_store := delete_document r (w_store w1)\<rparr>))"

text \<open>
  \<open>refs.map(r => deleteDoc(r))\<close>, awaited together by \<open>Promise.all\<close>: every call is
  issued, each takes effect unless it rejects, and the whole rejects when one of them
  does (here with the error of the first in the list).
\<close>

fun deleteAll :: "client_env \<Rightarrow> document_ref list \<Rightarrow> world \<Rightarrow> string option \<times> world" where
  "deleteAll env [] w = (None, w)"
| "deleteAll env (r # rs) w =
     (case deleteDoc env r w of
        (e, w1) \<Rightarrow>
          (case deleteAll env rs w1 of
             (es, w2) \<Rightarrow> ((case e of Some x \<Rightarrow> Some x | None \<Rightarrow> es), w2)))"

text \<open>The error of the first call of the list that rejects.\<close>

fun first_error :: "client_env \<Rightarrow> backend_call list \<Rightarrow> string option" where
  "first_error env [] = None"
| "first_error env (c # cs) =
     (case ce_fails env c of Some e \<Rightarrow> Some e | None \<Rightarrow> first_error env cs)"

section \<open>Admin page: matches\<close>

text \<open>
  \<open>fetchData\<close> reads the matches and the competitions with \<open>Promise.all\<close>; a failure is
  written to the console. (The lists it stores in the component are not modelled.)
\<close>

definition fetchData :: "client_env \<Rightarrow> world \<Rightarrow> world" where
  "fetchData env w =
     (let w1 = issue [GetDocs Matches, GetDocs Competitions] w
      in case first_error env [GetDocs Matches, GetDocs Competitions] of
           Some e \<Rightarrow> w1\<lparr>w_console := w_console w1 @ [''Error fetching data:'']\<rparr>
         | None \<Rightarrow> w1)"

text \<open>\<open>format\<close> of date-fns throws a \<open>RangeError\<close> on the Invalid Date.\<close>

fun format_date :: "js_error + Date \<Rightarrow> js_error + unit" where
  "format_date (Inl e) = Inl e"
| "format_date (Inr (Date NaN)) = Inl (RangeError ''Invalid time value'')"
| "format_date (Inr (Date (Num t))) = Inr ()"

text \<open>
  The body of the \<open>try\<close> block of \<open>deleteMatch\<close>; the result is the message of the
  error thrown, if any.
\<close>

definition deleteMatch_try :: "client_env \<Rightarrow> Match \<Rightarrow> string \<Rightarrow> world \<Rightarrow> string option \<times> world" where
  "deleteMatch_try env match mid w =
     (let w1 = issue [GetDocs (Lineups mid), GetDocs (Events mid)] w
      in case first_error env [GetDocs (Lineups mid), GetDocs (Events mid)] of
           Some e \<Rightarrow> (Some e, w1)
         | None \<Rightarrow>
            (let lineupDeletions = map (\<lambda>d. LineupDoc mid (fst d)) (fs_lineups (w_store w1) mid);
                 eventDeletions = map (\<lambda>d. EventDoc mid (fst d)) (fs_events (w_store w1) mid)
             in case deleteAll env (lineupDeletions @ eventDeletions) w1 of
                  (Some e, w2) \<Rightarrow> (Some e, w2)
                | (None, w2) \<Rightarrow>
                    (case deleteDoc env (MatchDoc mid) w2 of
                       (Some e, w3) \<Rightarrow> (Some e, w3)
                     | (None, w3) \<Rightarrow>
                         (None,
                          fetchData env
                            (show_toast
                               \<lparr>t_title = ''Match Deleted'',
                                 t_description = ''Match against '' @ m_opponent match @
                                   '' and all associated data have been deleted successfully.'',
                                 t_destructive = False\<rparr> w3)))))"

definition deleteMatch :: "client_env \<Rightarrow> Match \<Rightarrow> world \<Rightarrow> outcome \<times> world" where
  "deleteMatch env match w =
   (case m_id match of
      None \<Rightarrow> (Returned, w)
    | Some mid \<Rightarrow>
       if mid = [] then (Returned, w)
       else
        (case format_date (toDate (ce_runtime env) (m_match_date match)) of
           Inl e \<Rightarrow> (Rejected e, w)
         | Inr u \<Rightarrow>
            if \<not> ce_confirm env then (Returned, w)
            else
             (case deleteMatch_try env match mid w of
                (Some e, w1) \<Rightarrow> (Returned, toast_error ''Error'' ''Failed to delete match.'' e w1)
              | (None, w1) \<Rightarrow> (Returned, w1))))"

text \<open>
  \<open>updateDoc(ref, fields)\<close> on a match: issued; it rejects when the surroundings say so
  or when the document does not exist; otherwise the fields are written.
\<close>

definition updateDoc_match ::
  "client_env \<Rightarrow> string \<Rightarrow> (Match \<Rightarrow> Match) \<Rightarrow> world \<Rightarrow> string option \<times> world" where
  "updateDoc_match env i f w =
     (let w1 = issue [UpdateDoc (MatchDoc i)] w
      in case ce_fails env (UpdateDoc (MatchDoc i)) of
           Some e \<Rightarrow> (Some e, w1)
         | None \<Rightarrow>
             if i \<notin> set (map fst (fs_matches (w_store w1))) then (Some ''No document to update'', w1)
             else (None, w1\<lparr>w_store := (w_store w1)\<lparr>fs_matches :=
                     map (\<lambda>d. if fst d = i then (fst d, f (snd d)) else d) (fs_matches (w_store w1))\<rparr>\<rparr>))"

definition toggleVisibility_try ::
  "client_env \<Rightarrow> Match \<Rightarrow> string \<Rightarrow> world \<Rightarrow> string option \<times> world" where
  "toggleVisibility_try env match mid w =
     (let newVisibility = \<not> (m_is_visible match \<noteq> Some False)
      in case updateDoc_match env mid (\<lambda>m. m\<lparr>m_is_visible := Some newVisibility\<rparr>) w of
           (Some e, w1) \<Rightarrow> (Some e, w1)
         | (None, w1) \<Rightarrow>
             (None,
              fetchData env
                (show_toast
                   \<lparr>t_title = (if newVisibility then ''Match Visible'' else ''Match Hidden''),
                     t_description = ''Match vs '' @ m_opponent match @ '' is now '' @
                       (if newVisibility then ''visible'' else ''hidden'') @ '' to users.'',
                     t_destructive = False\<rparr> w1)))"

definition toggleVisibility :: "client_env \<Rightarrow> Match \<Rightarrow> world \<Rightarrow> outcome \<times> world" where
  "toggleVisibility env match w =
   (case m_id match of
      None \<Rightarrow> (Returned, w)
    | Some mid \<Rightarrow>
       if mid = [] then (Returned, w)
       else
        (case toggleVisibility_try env match mid w of
           (Some e, w1) \<Rightarrow> (Returned, toast_error ''Error'' ''Failed to update visibility.'' e w1)
         | (None, w1) \<Rightarrow> (Returned, w1)))"

text \<open>\<open>String.prototype.trim\<close> and \<open>s || null\<close>.\<close>

definition is_white :: "char \<Rightarrow> bool" where
  "is_white c = (c \<in> set [CHR '' '', CHR 0x09, CHR 0x0A, CHR 0x0B, CHR 0x0C, CHR 0x0D])"

definition trim :: "string \<Rightarrow> string" where
  "trim s = rev (dropWhile is_white (rev (dropWhile is_white s)))"

definition or_null :: "string \<Rightarrow> string option" where
  "or_null s = (if s = [] then None else Some s)"

fun toISOString :: "client_env \<Rightarrow> Date \<Rightarrow> js_error + string" where
  "toISOString env (Date NaN) = Inl (RangeError ''Invalid time value'')"
| "toISOString env (Date (Num t)) = Inr (ce_iso env t)"

record match_form =
  mf_opponent :: string
  mf_matchDate :: string
  mf_matchTime :: string
  mf_stadium :: string
  mf_competitionId :: string
  mf_kitColor :: string

text \<open>\<open>addDoc(collection(db, 'matches'), data)\<close>\<close>

definition addDoc_match :: "client_env \<Rightarrow> Match \<Rightarrow> world \<Rightarrow> string option \<times> world" where
  "addDoc_match env data w =
     (let w1 = issue [AddDoc Matches] w
      in case ce_fails env (AddDoc Matches) of
           Some e \<Rightarrow> (Some e, w1)
         | None \<Rightarrow> (None, w1\<lparr>w_store := (w_store w1)\<lparr>fs_matches :=
                     fs_matches (w_store w1) @ [(ce_auto_id env, data)]\<rparr>\<rparr>))"

definition handleSubmit_match_try ::
  "client_env \<Rightarrow> match_form \<Rightarrow> world \<Rightarrow> string option \<times> world" where
  "handleSubmit_match_try env form w =
   (let dateTime = new_Date_string (ce_runtime env) (mf_matchDate form @ ''T'' @ mf_matchTime form)
    in case toISOString env dateTime of
         Inl e \<Rightarrow> (Some (error_message e), w)
       | Inr isoString \<Rightarrow>
          (case addDoc_match env
                  \<lparr>m_id = None, m_opponent = trim (mf_opponent form), m_match_date = JString isoString,
                    m_stadium = or_null (trim (mf_stadium form)), m_status = Upcoming,
                    m_goals_scored = None, m_goals_conceded = None, m_points_earned = None,
                    m_competition_id = or_null (mf_competitionId form),
                    m_kit_color = or_null (trim (mf_kitColor form)),
                    m_is_visible = Some True, m_created_at = ce_now_iso env,
                    m_updated_at = ce_now_iso env\<rparr> w of
             (Some e, w1) \<Rightarrow> (Some e, w1)
           | (None, w1) \<Rightarrow>
               (None,
                fetchData env
                  (show_toast
                     \<lparr>t_title = ''Match Scheduled'',
                       t_description = ''Match against '' @ mf_opponent form @ '' has been scheduled.'',
                       t_destructive = False\<rparr> w1))))"

definition handleSubmit_match :: "client_env \<Rightarrow> match_form \<Rightarrow> world \<Rightarrow> outcome \<times> world" where
  "handleSubmit_match env form w =
     (case handleSubmit_match_try env form w of
        (Some e, w1) \<Rightarrow> (Returned, toast_error ''Error'' ''Failed to schedule match.'' e w1)
      | (None, w1) \<Rightarrow> (Returned, w1))"

text \<open>
  The store after a list of deletions has been issued: those that do not reject have
  taken effect.
\<close>

definition succeeded :: "client_env \<Rightarrow> document_ref list \<Rightarrow> document_ref list" where
  "succeeded env rs = filter (\<lambda>r. ce_fails env (DeleteDoc r) = None) rs"

definition apply_deletes :: "client_env \<Rightarrow> document_ref list \<Rightarrow> firestore \<Rightarrow> firestore" where
  "apply_deletes env rs fs = foldl (\<lambda>s r. delete_document r s) fs (succeeded env rs)"

text \<open>The documents of the two subcollections of a match, lineups first.\<close>

definition sub_refs :: "firestore \<Rightarrow> string \<Rightarrow> document_ref list" where
  "sub_refs fs mid =
     map (\<lambda>d. LineupDoc mid (fst d)) (fs_lineups fs mid) @
     map (\<lambda>d. EventDoc mid (fst d)) (fs_events fs mid)"

section \<open>Example data\<close>

definition ex_runtime :: runtime where
  "ex_runtime =
     \<lparr>rt_now = 1700000000000,
       rt_date_parse = (\<lambda>s. if s = ''2024-05-01T18:00'' then Num 1714586400000 else NaN),
       rt_timestamp_toDate = (\<lambda>s n. Date (Num (s * 1000))),
       rt_to_number = (\<lambda>v. NaN)\<rparr>"

definition ex_env :: client_env where
  "ex_env =
     \<lparr>ce_fails = (\<lambda>c. None), ce_confirm = True, ce_auto_id = ''new1'',
       ce_now_iso = ''2024-04-01T09:00:00.000Z'', ce_iso = (\<lambda>t. ''2024-05-01T18:00:00.000Z''),
       ce_upload_result = (''https://img/1'', ''img1''), ce_t = (\<lambda>k. k),
       ce_runtime = ex_runtime\<rparr>"

definition ex_lineup :: "string \<Rightarrow> MatchLineup" where
  "ex_lineup p =
     \<lparr>lu_id = None, lu_match_id = ''m1'', lu_player_id = p, lu_lineup_type = First_half,
       lu_position_played = Forward, lu_created_at = ''t''\<rparr>"

definition ex_event :: "string \<Rightarrow> MatchEvent" where
  "ex_event p =
     \<lparr>ev_id = None, ev_match_id = ''m1'', ev_player_id = p, ev_event_type = Goal,
       ev_minute = None, ev_notes = None, ev_created_at = ''t''\<rparr>"

definition ex_match :: Match where
  "ex_match =
     \<lparr>m_id = Some ''m1'', m_opponent = ''Rivals'', m_match_date = JString ''2024-05-01T18:00'',
       m_stadium = None, m_status = Upcoming, m_goals_scored = None, m_goals_conceded = None,
       m_points_earned = None, m_competition_id = None, m_kit_color = None,
       m_is_visible = Some True, m_created_at = ''t'', m_updated_at = ''t''\<rparr>"

definition ex_player :: "string \<Rightarrow> Player" where
  "ex_player n =
     \<lparr>pl_id = None, pl_full_name = n, pl_position = Forward, pl_jersey_number = Num 9,
       pl_email = None, pl_avatar_url = None, pl_image_public_id = None,
       pl_user_id = None, pl_is_active = True,
       pl_created_at = ''t'', pl_updated_at = ''t''\<rparr>"

text \<open>
  Two players, two matches; player \<open>p1\<close> has a lineup entry in both matches and an
  event in the first, player \<open>p2\<close> a lineup entry and an event in the first.
\<close>

definition ex_store :: firestore where
  "ex_store =
     \<lparr>fs_players = [(''p1'', ex_player ''Abebe''), (''p2'', ex_player ''Bekele'')],
       fs_matches = [(''m1'', ex_match\<lparr>m_id := None\<rparr>), (''m2'', ex_match\<lparr>m_id := None\<rparr>)],
       fs_lineups = (\<lambda>m. if m = ''m1'' then [(''l1'', ex_lineup ''p1''), (''l2'', ex_lineup ''p2'')]
                         else if m = ''m2'' then [(''l3'', ex_lineup ''p1'')] else []),
       fs_events = (\<lambda>m. if m = ''m1'' then [(''e1'', ex_event ''p1''), (''e2'', ex_event ''p2'')]
                        else [])\<rparr>"

definition ex_world :: world where
  "ex_world = \<lparr>w_store = ex_store, w_calls = [], w_toasts = [], w_console = []\<rparr>"

text \<open>The surroundings in which reading the events of match \<open>m1\<close> rejects.\<close>

definition ex_env_events_unavailable :: client_env where
  "ex_env_events_unavailable =
     ex_env\<lparr>ce_fails := (\<lambda>c. if c = GetDocs (Events ''m1'') then Some ''unavailable'' else None)\<rparr>"

text \<open>The backend calls issued between two worlds of one run.\<close>

definition calls_since :: "world \<Rightarrow> world \<Rightarrow> backend_call list" where
  "calls_since w w' = drop (length (w_calls w)) (w_calls w')"

text \<open>The toast of a \<open>catch\<close> block, as a value.\<close>

definition destructive_toast :: "string \<Rightarrow> string \<Rightarrow> toast" where
  "destructive_toast fallback msg =
     \<lparr>t_title = ''Error'', t_description = (if msg = [] then fallback else msg),
       t_destructive = True\<rparr>"

definition ex_form :: match_form where
  "ex_form =
     \<lparr>mf_opponent = ''Rivals'', mf_matchDate = ''2024-05-01'', mf_matchTime = ''18:00'',
       mf_stadium = ''Home Ground'', mf_competitionId = ''league'', mf_kitColor = ''Green''\<rparr>"

text \<open>Surroundings in which one write of each admin operation is refused.\<close>

definition ex_env_denied :: client_env where
  "ex_env_denied =
     ex_env\<lparr>ce_fails := (\<lambda>c. if c = AddDoc Matches \<or> c = UpdateDoc (MatchDoc ''m1'')
                                   \<or> c = DeleteDoc (LineupDoc ''m1'' ''l1'')
                                then Some ''permission-denied'' else None)\<rparr>"

section \<open>Admin page: players\<close>

definition fetchPlayers :: "client_env \<Rightarrow> world \<Rightarrow> world" where
  "fetchPlayers env w =
     (let w1 = issue [GetDocs Players] w
      in case ce_fails env (GetDocs Players) of
           Some e \<Rightarrow> w1\<lparr>w_console := w_console w1 @ [''Error fetching players:'']\<rparr>
         | None \<Rightarrow> w1)"

text \<open>
  The loop \<open>for (const matchDoc of matchesSnapshot.docs)\<close> of \<open>deletePlayer\<close>. Each
  \<open>getDocs\<close> is awaited and throws when it rejects; each \<open>deleteDoc\<close> is issued when
  its promise is pushed to \<open>cleanupPromises\<close>. The result is the message of the error
  thrown in the loop, the message of the first rejected cleanup promise, and the world.
\<close>

fun cleanupReferences ::
  "client_env \<Rightarrow> string \<Rightarrow> string list \<Rightarrow> world \<Rightarrow> string option \<times> string option \<times> world" where
  "cleanupReferences env pid [] w = (None, None, w)"
| "cleanupReferences env pid (matchId # rest) w =
     (let w1 = issue [GetDocs (Lineups matchId)] w
      in case ce_fails env (GetDocs (Lineups matchId)) of
           Some e \<Rightarrow> (Some e, None, w1)
         | None \<Rightarrow>
            (let lineupRefs = map (\<lambda>d. LineupDoc matchId (fst d))
                   (filter (\<lambda>d. lu_player_id (snd d) = pid) (fs_lineups (w_store w1) matchId));
                 r1 = deleteAll env lineupRefs w1;
                 w2 = issue [GetDocs (Events matchId)] (snd r1)
             in case ce_fails env (GetDocs (Events matchId)) of
                  Some e \<Rightarrow> (Some e, fst r1, w2)
                | None \<Rightarrow>
                   (let eventRefs = map (\<lambda>d. EventDoc matchId (fst d))
                          (filter (\<lambda>d. ev_player_id (snd d) = pid) (fs_events (w_store w2) matchId));
                        r2 = deleteAll env eventRefs w2;
                        r3 = cleanupReferences env pid rest (snd r2)
                    in (fst r3,
                        (case fst r1 of Some x \<Rightarrow> Some x
                         | None \<Rightarrow> (case fst r2 of Some x \<Rightarrow> Some x | None \<Rightarrow> fst (snd r3))),
                        snd (snd r3)))))"

definition deletePlayer_try ::
  "client_env \<Rightarrow> Player \<Rightarrow> string \<Rightarrow> world \<Rightarrow> string option \<times> world" where
  "deletePlayer_try env player pid w =
     (let w1 = issue [GetDocs Matches] w
      in case ce_fails env (GetDocs Matches) of
           Some e \<Rightarrow> (Some e, w1)
         | None \<Rightarrow>
            (let r = cleanupReferences env pid (map fst (fs_matches (w_store w1))) w1;
                 w2 = snd (snd r)
             in case fst r of
                  Some e \<Rightarrow> (Some e, w2)
                | None \<Rightarrow>
                   (case fst (snd r) of
                      Some e \<Rightarrow> (Some e, w2)
                    | None \<Rightarrow>
                       (case deleteDoc env (PlayerDoc pid) w2 of
                          (Some e, w3) \<Rightarrow> (Some e, w3)
                        | (None, w3) \<Rightarrow>
                            (None,
                             fetchPlayers env
                               (show_toast
                                  \<lparr>t_title = ce_t env ''players.playerDeleted'',
                                    t_description = ce_t env ''players.playerDeletedDesc'',
                                    t_destructive = False\<rparr> w3))))))"

definition deletePlayer :: "client_env \<Rightarrow> Player \<Rightarrow> world \<Rightarrow> outcome \<times> world" where
  "deletePlayer env player w =
   (case pl_id player of
      None \<Rightarrow> (Returned, w)
    | Some pid \<Rightarrow>
       if pid = [] then (Returned, w)
       else if \<not> ce_confirm env then (Returned, w)
       else
        (case deletePlayer_try env player pid w of
           (Some e, w1) \<Rightarrow>
             (Returned,
              show_toast \<lparr>t_title = ce_t env ''common.error'',
                           t_description = (if e = [] then ce_t env ''players.failedToDelete'' else e),
                           t_destructive = True\<rparr> w1)
         | (None, w1) \<Rightarrow> (Returned, w1)))"

text \<open>No document id occurs twice in a subcollection of the given matches.\<close>

definition distinct_ids :: "firestore \<Rightarrow> string list \<Rightarrow> bool" where
  "distinct_ids fs ms =
     (\<forall>m \<in> set ms. distinct (map fst (fs_lineups fs m)) \<and> distinct (map fst (fs_events fs m)))"

text \<open>
  One iteration of the loop of \<open>deletePlayer\<close> in which both reads succeed: the world
  after the deletions for the match have been issued.
\<close>

definition cleanup_match :: "client_env \<Rightarrow> string \<Rightarrow> string \<Rightarrow> world \<Rightarrow> world" where
  "cleanup_match env pid matchId w =
     (let w1 = issue [GetDocs (Lineups matchId)] w;
          lineupRefs = map (\<lambda>d. LineupDoc matchId (fst d))
            (filter (\<lambda>d. lu_player_id (snd d) = pid) (fs_lineups (w_store w1) matchId));
          w2 = issue [GetDocs (Events matchId)] (snd (deleteAll env lineupRefs w1));
          eventRefs = map (\<lambda>d. EventDoc matchId (fst d))
            (filter (\<lambda>d. ev_player_id (snd d) = pid) (fs_events (w_store w2) matchId))
      in snd (deleteAll env eventRefs w2))"

section \<open>\<open>parseInt\<close> and the player form\<close>

text \<open>
  \<open>parseInt(string)\<close> without a radix: leading white space is skipped, a sign is read,
  a prefix \<open>0x\<close> or \<open>0X\<close> selects radix 16, and the longest prefix of digits of the
  radix is the value; without any digit the result is \<open>NaN\<close>.
\<close>

definition digit_value :: "char \<Rightarrow> nat option" where
  "digit_value c =
     (let n = (of_char c :: nat)
      in if 48 \<le> n \<and> n \<le> 57 then Some (n - 48)
         else if 97 \<le> n \<and> n \<le> 122 then Some (n - 87)
         else if 65 \<le> n \<and> n \<le> 90 then Some (n - 55)
         else None)"

definition radix_digit :: "nat \<Rightarrow> char \<Rightarrow> nat option" where
  "radix_digit R c =
     (case digit_value c of Some d \<Rightarrow> if d < R then Some d else None | None \<Rightarrow> None)"

definition parseInt :: "string \<Rightarrow> number" where
  "parseInt inputString =
     (let S = dropWhile is_white inputString;
          sign = (if S \<noteq> [] \<and> hd S = CHR ''-'' then - 1 else (1 :: int));
          S1 = (if S \<noteq> [] \<and> (hd S = CHR ''+'' \<or> hd S = CHR ''-'') then tl S else S);
          hex = (take 2 S1 = ''0x'' \<or> take 2 S1 = ''0X'');
          R = (if hex then 16 else 10);
          S2 = (if hex then drop 2 S1 else S1);
          Z = takeWhile (\<lambda>c. radix_digit R c \<noteq> None) S2
      in if Z = [] then NaN
         else Num (sign * int (foldl (\<lambda>acc c. acc * R + the (radix_digit R c)) 0 Z)))"

record player_form =
  pf_fullName :: string
  pf_position :: PlayerPosition
  pf_jerseyNumber :: string
  pf_email :: string
  pf_avatarFile :: "string option"
  pf_editingPlayer :: "Player option"

text \<open>\<open>value || null\<close> on an optional string.\<close>

definition opt_or_null :: "string option \<Rightarrow> string option" where
  "opt_or_null v = (case v of None \<Rightarrow> None | Some s \<Rightarrow> or_null s)"

text \<open>\<open>uploadToCloudinary(file)\<close>: the secure url and the public id, or an error.\<close>

definition uploadToCloudinary ::
  "client_env \<Rightarrow> string \<Rightarrow> world \<Rightarrow> (string + string \<times> string) \<times> world" where
  "uploadToCloudinary env file w =
     (let w1 = issue [UploadToCloudinary file] w
      in case ce_fails env (UploadToCloudinary file) of
           Some e \<Rightarrow> (Inl e, w1)
         | None \<Rightarrow> (Inr (ce_upload_result env), w1))"

definition updateDoc_player ::
  "client_env \<Rightarrow> string \<Rightarrow> (Player \<Rightarrow> Player) \<Rightarrow> world \<Rightarrow> string option \<times> world" where
  "updateDoc_player env i f w =
     (let w1 = issue [UpdateDoc (PlayerDoc i)] w
      in case ce_fails env (UpdateDoc (PlayerDoc i)) of
           Some e \<Rightarrow> (Some e, w1)
         | None \<Rightarrow>
             if i \<notin> set (map fst (fs_players (w_store w1))) then (Some ''No document to update'', w1)
             else (None, w1\<lparr>w_store := (w_store w1)\<lparr>fs_players :=
                     map (\<lambda>d. if fst d = i then (fst d, f (snd d)) else d) (fs_players (w_store w1))\<rparr>\<rparr>))"

definition addDoc_player :: "client_env \<Rightarrow> Player \<Rightarrow> world \<Rightarrow> string option \<times> world" where
  "addDoc_player env data w =
     (let w1 = issue [AddDoc Players] w
      in case ce_fails env (AddDoc Players) of
           Some e \<Rightarrow> (Some e, w1)
         | None \<Rightarrow> (None, w1\<lparr>w_store := (w_store w1)\<lparr>fs_players :=
                     fs_players (w_store w1) @ [(ce_auto_id env, data)]\<rparr>\<rparr>))"

text \<open>
  The body of the \<open>try\<close> block of the player form's \<open>handleSubmit\<close>. \<open>playerData\<close> is
  written over an existing document by \<open>updateDoc\<close>, or completed with \<open>is_active\<close> and
  \<open>created_at\<close> and added by \<open>addDoc\<close>.
\<close>

definition handleSubmit_player_try ::
  "client_env \<Rightarrow> player_form \<Rightarrow> world \<Rightarrow> string option \<times> world" where
  "handleSubmit_player_try env form w =
   (let avatarUrl0 = (case pf_editingPlayer form of None \<Rightarrow> None
                      | Some p \<Rightarrow> opt_or_null (pl_avatar_url p));
        imagePublicId0 = (case pf_editingPlayer form of None \<Rightarrow> None
                          | Some p \<Rightarrow> opt_or_null (pl_image_public_id p));
        uploaded = (case pf_avatarFile form of
                      None \<Rightarrow> (Inr (avatarUrl0, imagePublicId0), w)
                    | Some file \<Rightarrow>
                        (case uploadToCloudinary env file w of
                           (Inl e, w1) \<Rightarrow> (Inl e, w1)
                         | (Inr (url, pid), w1) \<Rightarrow> (Inr (Some url, Some pid), w1)))
    in case uploaded of
         (Inl e, w1) \<Rightarrow> (Some e, w1)
       | (Inr (avatarUrl, imagePublicId), w1) \<Rightarrow>
          (let playerData = (\<lambda>p. p\<lparr>pl_full_name := trim (pf_fullName form),
                                   pl_position := pf_position form,
                                   pl_jersey_number := parseInt (pf_jerseyNumber form),
                                   pl_email := or_null (trim (pf_email form)),
                                   pl_avatar_url := avatarUrl,
                                   pl_image_public_id := imagePublicId,
                                   pl_updated_at := ce_now_iso env\<rparr>);
               editId = (case pf_editingPlayer form of None \<Rightarrow> None
                         | Some p \<Rightarrow> opt_or_null (pl_id p))
           in case editId of
                Some i \<Rightarrow>
                  (case updateDoc_player env i playerData w1 of
                     (Some e, w2) \<Rightarrow> (Some e, w2)
                   | (None, w2) \<Rightarrow>
                       (None,
                        fetchPlayers env
                          (show_toast
                             \<lparr>t_title = ce_t env ''players.playerUpdated'',
                               t_description = ce_t env ''players.playerUpdatedDesc'',
                               t_destructive = False\<rparr> w2)))
              | None \<Rightarrow>
                  (case addDoc_player env
                          (playerData
                             \<lparr>pl_id = None, pl_full_name = [], pl_position = pf_position form,
                               pl_jersey_number = NaN, pl_email = None, pl_avatar_url = None,
                               pl_image_public_id = None, pl_user_id = None, pl_is_active = True,
                               pl_created_at = ce_now_iso env, pl_updated_at = []\<rparr>) w1 of
                     (Some e, w2) \<Rightarrow> (Some e, w2)
                   | (None, w2) \<Rightarrow>
                       (None,
                        fetchPlayers env
                          (show_toast
                             \<lparr>t_title = ce_t env ''players.playerAdded'',
                               t_description = ce_t env ''players.playerAddedDesc'',
                               t_destructive = False\<rparr> w2)))))"

definition handleSubmit_player :: "client_env \<Rightarrow> player_form \<Rightarrow> world \<Rightarrow> outcome \<times> world" where
  "handleSubmit_player env form w =
     (case handleSubmit_player_try env form w of
        (Some e, w1) \<Rightarrow>
          (Returned,
           show_toast \<lparr>t_title = ce_t env ''common.error'',
                        t_description = (if e = [] then ce_t env ''players.failedToSave'' else e),
                        t_destructive = True\<rparr> w1)
      | (None, w1) \<Rightarrow> (Returned, w1))"

definition ex_player_form :: "string \<Rightarrow> player_form" where
  "ex_player_form jersey =
     \<lparr>pf_fullName = ''Chala Kebede'', pf_position = Midfielder, pf_jerseyNumber = jersey,
       pf_email = ''chala@club.org'', pf_avatarFile = None, pf_editingPlayer = None\<rparr>"

section \<open>Create User page\<close>

text \<open>The state of the component: the form fields and the password dialog.\<close>

record createUser_page =
  cu_email :: string
  cu_password :: string
  cu_fullName :: string
  cu_role :: AppRole
  cu_currentPassword :: string
  cu_isPasswordDialogOpen :: bool
  cu_isSubmitting :: bool
  cu_isVerifyingPassword :: bool
  cu_createdUser :: "(string \<times> string \<times> string) option"

text \<open>The body of the create-user request.\<close>

record create_user_body =
  cb_email :: string
  cb_password :: string
  cb_full_name :: string
  cb_role :: AppRole
  cb_idToken :: string

text \<open>
  What the page does to the outside, in order: a re-authentication with a credential
  (email, password) and whether it succeeded, the request for the id token, the POST to
  the create-user function, a toast, a console line.
\<close>

datatype effect =
    ReauthenticateWithCredential string string bool
  | GetIdToken
  | CreateUserRequest create_user_body
  | ShowToast toast
  | Console string

text \<open>How the \<open>fetch\<close> of the create-user function ends.\<close>

datatype fetch_result =
    NetworkError string
  | BadJson
  | NotOk "string option"
  | Ok "(string \<times> string \<times> string) option"

text \<open>
  What the surroundings decide: the signed-in user of the auth context (its email) and of
  the auth SDK, whether a credential is accepted, the id token (\<open>None\<close> when
  \<open>getIdToken\<close> rejects), and the answer to a request.
\<close>

record auth_env =
  ae_currentUser :: "string option"
  ae_auth_currentUser :: bool
  ae_credential_ok :: "string \<Rightarrow> string \<Rightarrow> bool"
  ae_idToken :: "string option"
  ae_fetch :: "create_user_body \<Rightarrow> fetch_result"
  ae_t :: "string \<Rightarrow> string"

definition error_toast_of :: "auth_env \<Rightarrow> string \<Rightarrow> effect" where
  "error_toast_of env msg =
     ShowToast \<lparr>t_title = ae_t env ''common.error'',
                 t_description = (if msg = [] then ae_t env ''common.operationFailed'' else msg),
                 t_destructive = True\<rparr>"

text \<open>
  \<open>proceedWithUserCreation\<close>: the \<open>try\<close> block throws when there is no id token, when
  the request fails or when the response is not ok; the \<open>catch\<close> block shows the toast;
  \<open>finally\<close> clears \<open>isSubmitting\<close>.
\<close>

definition proceedWithUserCreation ::
  "auth_env \<Rightarrow> createUser_page \<Rightarrow> createUser_page \<times> effect list" where
  "proceedWithUserCreation env st =
   (let st1 = st\<lparr>cu_isSubmitting := True, cu_createdUser := None\<rparr>;
        failed = (\<lambda>effects msg.
           (st1\<lparr>cu_isSubmitting := False\<rparr>,
            effects @ [Console ''Error creating user:'', error_toast_of env msg]))
    in if \<not> ae_auth_currentUser env then failed [] ''Not authenticated''
       else
        (case ae_idToken env of
           None \<Rightarrow> failed [GetIdToken] ''getIdToken rejected''
         | Some idToken \<Rightarrow>
            if idToken = [] then failed [GetIdToken] ''Not authenticated''
            else
             (let body = \<lparr>cb_email = cu_email st, cb_password = cu_password st,
                          cb_full_name = cu_fullName st, cb_role = cu_role st,
                          cb_idToken = idToken\<rparr>;
                  sent = [GetIdToken, CreateUserRequest body]
              in case ae_fetch env body of
                   NetworkError msg \<Rightarrow> failed sent msg
                 | BadJson \<Rightarrow> failed sent ''Unexpected token''
                 | NotOk err \<Rightarrow>
                     failed sent (case err of None \<Rightarrow> ae_t env ''users.failedToCreateUser''
                                  | Some m \<Rightarrow> if m = [] then ae_t env ''users.failedToCreateUser'' else m)
                 | Ok None \<Rightarrow> failed sent ''Cannot read properties of undefined''
                 | Ok (Some created) \<Rightarrow>
                     (st1\<lparr>cu_createdUser := Some created, cu_email := [], cu_password := [],
                          cu_fullName := [], cu_role := User, cu_currentPassword := [],
                          cu_isSubmitting := False\<rparr>,
                      sent @ [ShowToast \<lparr>t_title = ae_t env ''users.userCreatedSuccessfully'',
                                         t_description = ae_t env ''users.userAddedAsRole'',
                                         t_destructive = False\<rparr>]))))"

definition verifyCurrentPassword ::
  "auth_env \<Rightarrow> createUser_page \<Rightarrow> createUser_page \<times> effect list" where
  "verifyCurrentPassword env st =
   (case ae_currentUser env of
      None \<Rightarrow>
        (st, [ShowToast \<lparr>t_title = ae_t env ''common.error'',
                          t_description = ae_t env ''security.passwordRequired'',
                          t_destructive = True\<rparr>])
    | Some userEmail \<Rightarrow>
       if trim (cu_currentPassword st) = [] then
         (st, [ShowToast \<lparr>t_title = ae_t env ''common.error'',
                           t_description = ae_t env ''security.passwordRequired'',
                           t_destructive = True\<rparr>])
       else
        (let incorrect = [Console ''Password verification failed:'',
                          ShowToast \<lparr>t_title = ae_t env ''security.incorrectPassword'',
                                      t_description = ae_t env ''security.incorrectPasswordMessage'',
                                      t_destructive = True\<rparr>]
         in if \<not> ae_auth_currentUser env then
              (st\<lparr>cu_isVerifyingPassword := False\<rparr>, incorrect)
            else if \<not> ae_credential_ok env userEmail (cu_currentPassword st) then
              (st\<lparr>cu_isVerifyingPassword := False\<rparr>,
               ReauthenticateWithCredential userEmail (cu_currentPassword st) False # incorrect)
            else
              (case proceedWithUserCreation env (st\<lparr>cu_isPasswordDialogOpen := False\<rparr>) of
                 (st2, effects) \<Rightarrow>
                   (st2\<lparr>cu_isVerifyingPassword := False\<rparr>,
                    [ReauthenticateWithCredential userEmail (cu_currentPassword st) True,
                     Console ''Password verification successful for creating admin user'',
                     ShowToast \<lparr>t_title = ae_t env ''security.passwordVerified'',
                                 t_description = ae_t env ''security.canNowActionAdmin'',
                                 t_destructive = False\<rparr>] @ effects))))"

definition handleSubmit_createUser ::
  "auth_env \<Rightarrow> createUser_page \<Rightarrow> createUser_page \<times> effect list" where
  "handleSubmit_createUser env st =
     (if cu_role st = Admin then
        (st\<lparr>cu_isPasswordDialogOpen := True\<rparr>,
         [Console ''Creating admin user, requiring password verification''])
      else proceedWithUserCreation env st)"

text \<open>
  What the administrator can do on the page. The controls of the password dialog exist
  only while the dialog is open.
\<close>

datatype ui_event =
    SetEmail string
  | SetPassword string
  | SetFullName string
  | SetRole AppRole
  | SetCurrentPassword string
  | Submit
  | Verify
  | DialogOpenChange bool
  | Cancel

fun ui_step :: "auth_env \<Rightarrow> createUser_page \<Rightarrow> ui_event \<Rightarrow> createUser_page \<times> effect list" where
  "ui_step env st (SetEmail v) = (st\<lparr>cu_email := v\<rparr>, [])"
| "ui_step env st (SetPassword v) = (st\<lparr>cu_password := v\<rparr>, [])"
| "ui_step env st (SetFullName v) = (st\<lparr>cu_fullName := v\<rparr>, [])"
| "ui_step env st (SetRole r) = (st\<lparr>cu_role := r\<rparr>, [])"
| "ui_step env st (SetCurrentPassword v) =
     (if cu_isPasswordDialogOpen st then (st\<lparr>cu_currentPassword := v\<rparr>, []) else (st, []))"
| "ui_step env st Submit = handleSubmit_createUser env st"
| "ui_step env st Verify =
     (if cu_isPasswordDialogOpen st then verifyCurrentPassword env st else (st, []))"
| "ui_step env st (DialogOpenChange opened) =
     (if opened then (st\<lparr>cu_isPasswordDialogOpen := True\<rparr>, [])
      else (st\<lparr>cu_isPasswordDialogOpen := False, cu_currentPassword := []\<rparr>, []))"
| "ui_step env st Cancel =
     (if cu_isPasswordDialogOpen st
      then (st\<lparr>cu_isPasswordDialogOpen := False, cu_currentPassword := []\<rparr>, [])
      else (st, []))"

fun ui_run :: "auth_env \<Rightarrow> createUser_page \<Rightarrow> ui_event list \<Rightarrow> createUser_page \<times> effect list" where
  "ui_run env st [] = (st, [])"
| "ui_run env st (e # es) =
     (case ui_step env st e of
        (st1, t1) \<Rightarrow> (case ui_run env st1 es of (st2, t2) \<Rightarrow> (st2, t1 @ t2)))"

text \<open>
  The gate as a property of a list of effects, read from the left with the effects
  already seen (latest first): a create-user request for the role admin comes directly
  after a successful re-authentication, its console line, its toast and the request for
  the id token.
\<close>

fun just_verified :: "effect list \<Rightarrow> bool" where
  "just_verified (GetIdToken # ShowToast s # Console c # ReauthenticateWithCredential e p True # seen) = True"
| "just_verified _ = False"

fun is_admin_request :: "effect \<Rightarrow> bool" where
  "is_admin_request (CreateUserRequest b) = (cb_role b = Admin)"
| "is_admin_request _ = False"

fun admin_gated :: "effect list \<Rightarrow> effect list \<Rightarrow> bool" where
  "admin_gated seen [] = True"
| "admin_gated seen (x # xs) =
     ((if is_admin_request x then just_verified seen else True) \<and> admin_gated (x # seen) xs)"

fun is_reauthentication :: "effect \<Rightarrow> bool" where
  "is_reauthentication (ReauthenticateWithCredential e p ok) = True"
| "is_reauthentication _ = False"

fun is_create_request :: "effect \<Rightarrow> bool" where
  "is_create_request (CreateUserRequest b) = True"
| "is_create_request _ = False"

definition ex_auth_env :: auth_env where
  "ex_auth_env =
     \<lparr>ae_currentUser = Some ''admin@club.org'', ae_auth_currentUser = True,
       ae_credential_ok = (\<lambda>e p. e = ''admin@club.org'' \<and> p = ''s3cret''),
       ae_idToken = Some ''token'',
       ae_fetch = (\<lambda>b. Ok (Some (cb_email b, cb_full_name b, ''role''))),
       ae_t = (\<lambda>k. k)\<rparr>"

definition ex_page :: createUser_page where
  "ex_page =
     \<lparr>cu_email = [], cu_password = [], cu_fullName = [], cu_role = User,
       cu_currentPassword = [], cu_isPasswordDialogOpen = False, cu_isSubmitting = False,
       cu_isVerifyingPassword = False, cu_createdUser = None\<rparr>"

text \<open>A session: an admin account is requested, the wrong password, then the right one.\<close>

definition ex_session :: "ui_event list" where
  "ex_session =
     [SetEmail ''n@club.org'', SetPassword ''pw1234'', SetFullName ''New'', SetRole Admin,
      Submit, SetCurrentPassword ''wrong'', Verify, SetCurrentPassword ''s3cret'', Verify]"

section \<open>Lemmas\<close>

lemma indexOf_positionOrder:
  "indexOf positionOrder p = int (spec_position_rank p)"
  by (cases p) (simp_all add: positionOrder_def)

lemma mset_insert_cmp: "mset (insert_cmp cmp x ys) = add_mset x (mset ys)"
  by (induction ys) simp_all

lemma mset_array_sort: "mset (array_sort cmp xs) = mset xs"
  by (induction xs) (simp_all add: array_sort_def mset_insert_cmp)

lemma set_insert_cmp: "set (insert_cmp cmp x ys) = insert x (set ys)"
  by (induction ys) auto

lemma sorted_insert_rank:
  fixes r :: "'a \<Rightarrow> nat"
  assumes cmp: "\<And>a b. cmp a b \<le> 0 \<longleftrightarrow> r a \<le> r b"
    and srt: "sorted (map r ys)"
  shows "sorted (map r (insert_cmp cmp x ys))"
  using srt
proof (induction ys)
  case Nil
  then show ?case by simp
next
  case (Cons y ys)
  show ?case
  proof (cases "cmp x y \<le> 0")
    case True
    then have "r x \<le> r y" using cmp by simp
    with Cons.prems show ?thesis using True by auto
  next
    case False
    then have "r y \<le> r x" using cmp by (meson nat_le_linear)
    with Cons show ?thesis using False by (auto simp: set_insert_cmp)
  qed
qed

lemma sorted_array_sort_rank:
  fixes r :: "'a \<Rightarrow> nat"
  assumes cmp: "\<And>a b. cmp a b \<le> 0 \<longleftrightarrow> r a \<le> r b"
  shows "sorted (map r (array_sort cmp xs))"
proof (induction xs)
  case Nil
  then show ?case by (simp add: array_sort_def)
next
  case (Cons x xs)
  then have "sorted (map r (insert_cmp cmp x (array_sort cmp xs)))"
    using cmp by (rule sorted_insert_rank[rotated])
  then show ?case by (simp add: array_sort_def)
qed

lemma byPosition_rank:
  "byPosition a b \<le> 0 \<longleftrightarrow>
     spec_position_rank (lu_position_played a) \<le> spec_position_rank (lu_position_played b)"
  by (simp add: byPosition_def indexOf_positionOrder)

lemma section_in_position_order: "spec_in_position_order (array_sort byPosition xs)"
  unfolding spec_in_position_order_def
  by (rule sorted_array_sort_rank) (rule byPosition_rank)

lemma groupedPlayers_apply:
  "groupedPlayers players pos = Some (filter (\<lambda>p. pl_position p = pos) players)"
  by (cases pos) (simp_all add: groupedPlayers_def positionOrder_def)

lemma mset_by_position:
  "mset (filter (\<lambda>p. pl_position p = Goalkeeper) ps) + mset (filter (\<lambda>p. pl_position p = Defender) ps)
   + mset (filter (\<lambda>p. pl_position p = Midfielder) ps) + mset (filter (\<lambda>p. pl_position p = Forward) ps)
   = mset ps"
proof (induction ps)
  case Nil
  then show ?case by simp
next
  case (Cons p ps)
  then show ?case by (cases "pl_position p") simp_all
qed


lemma existingAdmins_nonempty_iff:
  "length (existingAdmins db) > 0 \<longleftrightarrow> (\<exists>r \<in> set (db_user_roles db). ur_role r = Admin)"
proof -
  have "existingAdmins db \<noteq> [] \<longleftrightarrow> filter (\<lambda>r. ur_role r = Admin) (db_user_roles db) \<noteq> []"
    by (simp add: existingAdmins_def)
  then show ?thesis by (auto simp: filter_empty_conv)
qed






lemma serve_created:
  assumes "req_method req \<noteq> ''OPTIONS''"
    and "\<not> falsy (supabaseUrl pf)" and "\<not> falsy (supabaseServiceKey pf)"
    and "checkError pf = None"
    and "\<not> (\<exists>r \<in> set (db_user_roles db). ur_role r = Admin)"
    and "req_json req = Some b"
    and "br_email b = Some email" and "email \<noteq> []"
    and "br_password b = Some password" and "password \<noteq> []"
    and "br_full_name b = Some full_name" and "full_name \<noteq> []"
    and "createUser_result pf = Inr (uid, uemail)"
  shows "h_response (serve pf db req) =
           \<lparr>status = 200,
             body = SuccessJson True ''Admin account created successfully!'' uid uemail full_name\<rparr>"
    and "db_auth_users (h_database (serve pf db req)) = db_auth_users db @
           [\<lparr>au_id = uid, au_email = email, au_password = password, au_email_confirm = True\<rparr>]"
    and "db_profiles (h_database (serve pf db req)) =
           (case profileError pf of Some e \<Rightarrow> db_profiles db
            | None \<Rightarrow> db_profiles db @
                [\<lparr>pr_user_id = uid, pr_full_name = full_name, pr_email = email\<rparr>])"
    and "db_user_roles (h_database (serve pf db req)) =
           (case roleError pf of Some e \<Rightarrow> db_user_roles db
            | None \<Rightarrow> db_user_roles db @ [\<lparr>ur_user_id = uid, ur_role = Admin\<rparr>])"
    and "h_console (serve pf db req) =
           (case profileError pf of Some e \<Rightarrow> [''Error creating profile:''] | None \<Rightarrow> [])
           @ (case roleError pf of Some e \<Rightarrow> [''Error assigning role:''] | None \<Rightarrow> [])"
proof -
  have na: "\<not> length (existingAdmins db) > 0"
    using assms(5) existingAdmins_nonempty_iff by blast
  have f: "\<not> falsy (br_email b)" "\<not> falsy (br_password b)" "\<not> falsy (br_full_name b)"
    using assms(7-12) by (simp_all add: falsy_def)
  have eq: "serve pf db req =
    (let db1 = db\<lparr>db_auth_users := db_auth_users db @
                 [\<lparr>au_id = uid, au_email = email, au_password = password,
                   au_email_confirm = True\<rparr>]\<rparr>;
         db2 = (case profileError pf of
                  Some e \<Rightarrow> db1
                | None \<Rightarrow> db1\<lparr>db_profiles := db_profiles db1 @
                    [\<lparr>pr_user_id = uid, pr_full_name = full_name, pr_email = email\<rparr>]\<rparr>);
         log1 = (case profileError pf of
                   Some e \<Rightarrow> [''Error creating profile:'']
                 | None \<Rightarrow> []);
         db3 = (case roleError pf of
                  Some e \<Rightarrow> db2
                | None \<Rightarrow> db2\<lparr>db_user_roles := db_user_roles db2 @
                    [\<lparr>ur_user_id = uid, ur_role = Admin\<rparr>]\<rparr>);
         log2 = (case roleError pf of
                   Some e \<Rightarrow> [''Error assigning role:'']
                 | None \<Rightarrow> [])
     in \<lparr>h_response = json_response 200
            (SuccessJson True ''Admin account created successfully!'' uid uemail full_name),
          h_database = db3, h_console = log1 @ log2\<rparr>)"
    using na f assms(1-4,6,7,9,11,13) by (simp add: serve_def)
  show "h_response (serve pf db req) =
           \<lparr>status = 200,
             body = SuccessJson True ''Admin account created successfully!'' uid uemail full_name\<rparr>"
    by (simp add: eq Let_def json_response_def)
  show "db_auth_users (h_database (serve pf db req)) = db_auth_users db @
           [\<lparr>au_id = uid, au_email = email, au_password = password, au_email_confirm = True\<rparr>]"
    by (cases "profileError pf"; cases "roleError pf") (simp_all add: eq Let_def)
  show "db_profiles (h_database (serve pf db req)) =
           (case profileError pf of Some e \<Rightarrow> db_profiles db
            | None \<Rightarrow> db_profiles db @
                [\<lparr>pr_user_id = uid, pr_full_name = full_name, pr_email = email\<rparr>])"
    by (cases "profileError pf"; cases "roleError pf") (simp_all add: eq Let_def)
  show "db_user_roles (h_database (serve pf db req)) =
           (case roleError pf of Some e \<Rightarrow> db_user_roles db
            | None \<Rightarrow> db_user_roles db @ [\<lparr>ur_user_id = uid, ur_role = Admin\<rparr>])"
    by (cases "profileError pf"; cases "roleError pf") (simp_all add: eq Let_def)
  show "h_console (serve pf db req) =
           (case profileError pf of Some e \<Rightarrow> [''Error creating profile:''] | None \<Rightarrow> [])
           @ (case roleError pf of Some e \<Rightarrow> [''Error assigning role:''] | None \<Rightarrow> [])"
    by (simp add: eq Let_def)
qed



lemma issue_simps [simp]:
  "w_calls (issue cs w) = w_calls w @ cs"
  "w_store (issue cs w) = w_store w"
  "w_toasts (issue cs w) = w_toasts w"
  "w_console (issue cs w) = w_console w"
  by (simp_all add: issue_def)

lemma show_toast_simps [simp]:
  "w_calls (show_toast t w) = w_calls w"
  "w_store (show_toast t w) = w_store w"
  "w_toasts (show_toast t w) = w_toasts w @ [t]"
  "w_console (show_toast t w) = w_console w"
  by (simp_all add: show_toast_def)

lemma toast_error_simps [simp]:
  "w_calls (toast_error a b e w) = w_calls w"
  "w_store (toast_error a b e w) = w_store w"
  "w_toasts (toast_error a b e w) =
     w_toasts w @ [\<lparr>t_title = a, t_description = (if e = [] then b else e), t_destructive = True\<rparr>]"
  "w_console (toast_error a b e w) = w_console w"
  by (simp_all add: toast_error_def)

lemma fetchData_simps [simp]:
  "w_calls (fetchData env w) = w_calls w @ [GetDocs Matches, GetDocs Competitions]"
  "w_store (fetchData env w) = w_store w"
  "w_toasts (fetchData env w) = w_toasts w"
  by (simp_all add: fetchData_def Let_def split: option.splits)

lemma deleteDoc_simps [simp]:
  "fst (deleteDoc env r w) = ce_fails env (DeleteDoc r)"
  "w_calls (snd (deleteDoc env r w)) = w_calls w @ [DeleteDoc r]"
  "w_toasts (snd (deleteDoc env r w)) = w_toasts w"
  "w_console (snd (deleteDoc env r w)) = w_console w"
  "w_store (snd (deleteDoc env r w)) = apply_deletes env [r] (w_store w)"
  by (simp_all add: deleteDoc_def Let_def apply_deletes_def succeeded_def split: option.splits)

lemma apply_deletes_Nil [simp]: "apply_deletes env [] fs = fs"
  by (simp add: apply_deletes_def succeeded_def)

lemma apply_deletes_Cons:
  "apply_deletes env (r # rs) fs = apply_deletes env rs (apply_deletes env [r] fs)"
  by (simp add: apply_deletes_def succeeded_def)

lemma apply_deletes_append:
  "apply_deletes env (rs @ qs) fs = apply_deletes env qs (apply_deletes env rs fs)"
  by (simp add: apply_deletes_def succeeded_def)

lemma deleteAll_fst: "fst (deleteAll env rs w) = first_error env (map DeleteDoc rs)"
  by (induction rs arbitrary: w) (simp_all add: split_beta split: option.splits)

lemma deleteAll_calls: "w_calls (snd (deleteAll env rs w)) = w_calls w @ map DeleteDoc rs"
  by (induction rs arbitrary: w) (simp_all add: split_beta)

lemma deleteAll_toasts: "w_toasts (snd (deleteAll env rs w)) = w_toasts w"
  by (induction rs arbitrary: w) (simp_all add: split_beta)

lemma deleteAll_console: "w_console (snd (deleteAll env rs w)) = w_console w"
  by (induction rs arbitrary: w) (simp_all add: split_beta)

lemma deleteAll_store: "w_store (snd (deleteAll env rs w)) = apply_deletes env rs (w_store w)"
proof (induction rs arbitrary: w)
  case Nil
  then show ?case by simp
next
  case (Cons r rs)
  have "w_store (snd (deleteAll env (r # rs) w)) = w_store (snd (deleteAll env rs (snd (deleteDoc env r w))))"
    by (simp add: split_beta)
  also have "\<dots> = apply_deletes env rs (apply_deletes env [r] (w_store w))"
    by (simp add: Cons.IH)
  finally show ?case by (simp add: apply_deletes_Cons[of env r rs])
qed

lemma first_error_None_iff: "first_error env cs = None \<longleftrightarrow> (\<forall>c \<in> set cs. ce_fails env c = None)"
  by (induction cs) (auto split: option.splits)

lemma first_error_Some:
  "first_error env cs = Some e \<Longrightarrow> \<exists>c \<in> set cs. ce_fails env c = Some e"
  by (induction cs) (auto split: option.splits)

lemma first_error_append:
  "first_error env (cs @ ds) = (case first_error env cs of Some e \<Rightarrow> Some e | None \<Rightarrow> first_error env ds)"
  by (induction cs) (auto split: option.splits)

lemma fold_delete_lineups:
  "fs_lineups (foldl (\<lambda>s r. delete_document r s) fs rs) m =
     filter (\<lambda>d. LineupDoc m (fst d) \<notin> set rs) (fs_lineups fs m)"
proof (induction rs arbitrary: fs)
  case Nil
  then show ?case by simp
next
  case (Cons r rs)
  have step: "fs_lineups (delete_document r fs) m = filter (\<lambda>d. LineupDoc m (fst d) \<noteq> r) (fs_lineups fs m)"
    by (cases r) (auto simp: without_def intro: filter_cong)
  show ?case
    by (simp add: Cons.IH step)
qed


lemma fold_delete_events:
  "fs_events (foldl (\<lambda>s r. delete_document r s) fs rs) m =
     filter (\<lambda>d. EventDoc m (fst d) \<notin> set rs) (fs_events fs m)"
proof (induction rs arbitrary: fs)
  case Nil
  then show ?case by simp
next
  case (Cons r rs)
  have step: "fs_events (delete_document r fs) m = filter (\<lambda>d. EventDoc m (fst d) \<noteq> r) (fs_events fs m)"
    by (cases r) (auto simp: without_def intro: filter_cong)
  show ?case
    by (simp add: Cons.IH step)
qed

lemma fold_delete_matches:
  "fs_matches (foldl (\<lambda>s r. delete_document r s) fs rs) =
     filter (\<lambda>d. MatchDoc (fst d) \<notin> set rs) (fs_matches fs)"
proof (induction rs arbitrary: fs)
  case Nil
  then show ?case by simp
next
  case (Cons r rs)
  have step: "fs_matches (delete_document r fs) = filter (\<lambda>d. MatchDoc (fst d) \<noteq> r) (fs_matches fs)"
    by (cases r) (auto simp: without_def intro: filter_cong)
  show ?case
    by (simp add: Cons.IH step)
qed

lemma fold_delete_players:
  "fs_players (foldl (\<lambda>s r. delete_document r s) fs rs) =
     filter (\<lambda>d. PlayerDoc (fst d) \<notin> set rs) (fs_players fs)"
proof (induction rs arbitrary: fs)
  case Nil
  then show ?case by simp
next
  case (Cons r rs)
  have step: "fs_players (delete_document r fs) = filter (\<lambda>d. PlayerDoc (fst d) \<noteq> r) (fs_players fs)"
    by (cases r) (auto simp: without_def intro: filter_cong)
  show ?case
    by (simp add: Cons.IH step)
qed

lemma apply_deletes_fields:
  "fs_lineups (apply_deletes env rs fs) m =
     filter (\<lambda>d. LineupDoc m (fst d) \<notin> set (succeeded env rs)) (fs_lineups fs m)"
  "fs_events (apply_deletes env rs fs) m =
     filter (\<lambda>d. EventDoc m (fst d) \<notin> set (succeeded env rs)) (fs_events fs m)"
  "fs_matches (apply_deletes env rs fs) =
     filter (\<lambda>d. MatchDoc (fst d) \<notin> set (succeeded env rs)) (fs_matches fs)"
  "fs_players (apply_deletes env rs fs) =
     filter (\<lambda>d. PlayerDoc (fst d) \<notin> set (succeeded env rs)) (fs_players fs)"
  by (simp_all add: apply_deletes_def fold_delete_lineups fold_delete_events
      fold_delete_matches fold_delete_players)

lemma succeeded_all:
  "\<forall>r \<in> set rs. ce_fails env (DeleteDoc r) = None \<Longrightarrow> succeeded env rs = rs"
  by (simp add: succeeded_def)

text \<open>The try block of deleteMatch, step by step.\<close>

lemma deleteMatch_try_reads_fail:
  assumes "first_error env [GetDocs (Lineups mid), GetDocs (Events mid)] = Some e"
  shows "deleteMatch_try env match mid w =
           (Some e, issue [GetDocs (Lineups mid), GetDocs (Events mid)] w)"
  using assms by (simp add: deleteMatch_try_def Let_def del: first_error.simps)

lemma deleteMatch_try_subs_fail:
  assumes "first_error env [GetDocs (Lineups mid), GetDocs (Events mid)] = None"
    and "first_error env (map DeleteDoc (sub_refs (w_store w) mid)) = Some e"
  shows "deleteMatch_try env match mid w =
           (Some e, snd (deleteAll env (sub_refs (w_store w) mid)
                      (issue [GetDocs (Lineups mid), GetDocs (Events mid)] w)))"
proof -
  let ?w1 = "issue [GetDocs (Lineups mid), GetDocs (Events mid)] w"
  have "fst (deleteAll env (sub_refs (w_store w) mid) ?w1) = Some e"
    using assms(2) by (simp add: deleteAll_fst)
  then obtain w2 where d: "deleteAll env (sub_refs (w_store w) mid) ?w1 = (Some e, w2)"
    by (cases "deleteAll env (sub_refs (w_store w) mid) ?w1") simp
  show ?thesis
    using assms(1) d
    by (simp add: deleteMatch_try_def Let_def sub_refs_def del: first_error.simps)
qed

lemma deleteMatch_try_subs_ok:
  assumes "first_error env [GetDocs (Lineups mid), GetDocs (Events mid)] = None"
    and "first_error env (map DeleteDoc (sub_refs (w_store w) mid)) = None"
  shows "deleteMatch_try env match mid w =
           (let w2 = snd (deleteAll env (sub_refs (w_store w) mid)
                      (issue [GetDocs (Lineups mid), GetDocs (Events mid)] w));
                w3 = snd (deleteDoc env (MatchDoc mid) w2)
            in case ce_fails env (DeleteDoc (MatchDoc mid)) of
                 Some e \<Rightarrow> (Some e, w3)
               | None \<Rightarrow> (None, fetchData env
                            (show_toast
                               \<lparr>t_title = ''Match Deleted'',
                                 t_description = ''Match against '' @ m_opponent match @
                                   '' and all associated data have been deleted successfully.'',
                                 t_destructive = False\<rparr> w3)))"
proof -
  let ?w1 = "issue [GetDocs (Lineups mid), GetDocs (Events mid)] w"
  have "fst (deleteAll env (sub_refs (w_store w) mid) ?w1) = None"
    using assms(2) by (simp add: deleteAll_fst)
  then obtain w2 where d: "deleteAll env (sub_refs (w_store w) mid) ?w1 = (None, w2)"
    by (cases "deleteAll env (sub_refs (w_store w) mid) ?w1") simp
  show ?thesis
    using assms(1) d
    by (cases "ce_fails env (DeleteDoc (MatchDoc mid))")
       (simp_all add: deleteMatch_try_def Let_def sub_refs_def split_beta del: first_error.simps)
qed


lemma deleteMatch_confirmed:
  assumes "m_id match = Some mid" and "mid \<noteq> []"
    and "format_date (toDate (ce_runtime env) (m_match_date match)) = Inr ()"
    and "ce_confirm env"
  shows "deleteMatch env match w =
     (case deleteMatch_try env match mid w of
        (Some e, w1) \<Rightarrow> (Returned, toast_error ''Error'' ''Failed to delete match.'' e w1)
      | (None, w1) \<Rightarrow> (Returned, w1))"
  using assms by (simp add: deleteMatch_def)

lemma calls_since_append [simp]: "w_calls w' = w_calls w @ cs \<Longrightarrow> calls_since w w' = cs"
  by (simp add: calls_since_def)

lemma addDoc_match_simps:
  "fst (addDoc_match env data w) = ce_fails env (AddDoc Matches)"
  "w_calls (snd (addDoc_match env data w)) = w_calls w @ [AddDoc Matches]"
  "w_toasts (snd (addDoc_match env data w)) = w_toasts w"
  "ce_fails env (AddDoc Matches) \<noteq> None \<Longrightarrow> w_store (snd (addDoc_match env data w)) = w_store w"
  by (auto simp: addDoc_match_def Let_def split: option.splits)

lemma updateDoc_match_simps:
  "w_calls (snd (updateDoc_match env i f w)) = w_calls w @ [UpdateDoc (MatchDoc i)]"
  "w_toasts (snd (updateDoc_match env i f w)) = w_toasts w"
  "ce_fails env (UpdateDoc (MatchDoc i)) = Some e \<Longrightarrow> fst (updateDoc_match env i f w) = Some e"
  "fst (updateDoc_match env i f w) \<noteq> None \<Longrightarrow> w_store (snd (updateDoc_match env i f w)) = w_store w"
  by (auto simp: updateDoc_match_def Let_def split: option.splits if_splits)

lemma handleSubmit_match_effects:
  "fst (handleSubmit_match env form w) = Returned"
  "toISOString env (new_Date_string (ce_runtime env) (mf_matchDate form @ ''T'' @ mf_matchTime form)) = Inl err
     \<Longrightarrow> w_calls (snd (handleSubmit_match env form w)) = w_calls w"
  "toISOString env (new_Date_string (ce_runtime env) (mf_matchDate form @ ''T'' @ mf_matchTime form)) = Inr s
     \<Longrightarrow> ce_fails env (AddDoc Matches) = Some e
     \<Longrightarrow> w_calls (snd (handleSubmit_match env form w)) = w_calls w @ [AddDoc Matches]
        \<and> w_toasts (snd (handleSubmit_match env form w)) = w_toasts w @
             [\<lparr>t_title = ''Error'',
               t_description = (if e = [] then ''Failed to schedule match.'' else e),
               t_destructive = True\<rparr>]
        \<and> w_store (snd (handleSubmit_match env form w)) = w_store w"
  "toISOString env (new_Date_string (ce_runtime env) (mf_matchDate form @ ''T'' @ mf_matchTime form)) = Inr s
     \<Longrightarrow> ce_fails env (AddDoc Matches) = None
     \<Longrightarrow> w_calls (snd (handleSubmit_match env form w)) =
           w_calls w @ [AddDoc Matches, GetDocs Matches, GetDocs Competitions]"
  by (auto simp: handleSubmit_match_def handleSubmit_match_try_def Let_def split_beta
      addDoc_match_simps split: sum.splits option.splits)


lemma toggleVisibility_effects:
  assumes "m_id match = Some mid" and "mid \<noteq> []"
  shows "fst (toggleVisibility env match w) = Returned"
    and "ce_fails env (UpdateDoc (MatchDoc mid)) = Some e
     \<Longrightarrow> w_calls (snd (toggleVisibility env match w)) = w_calls w @ [UpdateDoc (MatchDoc mid)]
        \<and> w_toasts (snd (toggleVisibility env match w)) = w_toasts w @
             [\<lparr>t_title = ''Error'',
               t_description = (if e = [] then ''Failed to update visibility.'' else e),
               t_destructive = True\<rparr>]
        \<and> w_store (snd (toggleVisibility env match w)) = w_store w"
    and "distinct (calls_since w (snd (toggleVisibility env match w)))"
proof -
  let ?f = "\<lambda>m. m\<lparr>m_is_visible := Some (\<not> (m_is_visible match \<noteq> Some False))\<rparr>"
  let ?u = "updateDoc_match env mid ?f w"
  have tv: "toggleVisibility env match w =
     (case toggleVisibility_try env match mid w of
        (Some e, w1) \<Rightarrow> (Returned, toast_error ''Error'' ''Failed to update visibility.'' e w1)
      | (None, w1) \<Rightarrow> (Returned, w1))"
    using assms by (simp add: toggleVisibility_def)
  show "fst (toggleVisibility env match w) = Returned"
    by (simp add: tv split: prod.splits option.splits)
  show "w_calls (snd (toggleVisibility env match w)) = w_calls w @ [UpdateDoc (MatchDoc mid)]
        \<and> w_toasts (snd (toggleVisibility env match w)) = w_toasts w @
             [\<lparr>t_title = ''Error'',
               t_description = (if e = [] then ''Failed to update visibility.'' else e),
               t_destructive = True\<rparr>]
        \<and> w_store (snd (toggleVisibility env match w)) = w_store w"
    if f: "ce_fails env (UpdateDoc (MatchDoc mid)) = Some e"
  proof -
    have u: "fst ?u = Some e"
      using f by (rule updateDoc_match_simps(3))
    then have "toggleVisibility env match w =
        (Returned, toast_error ''Error'' ''Failed to update visibility.'' e (snd ?u))"
      by (simp add: tv toggleVisibility_try_def Let_def split_beta)
    then show ?thesis
      using u by (simp add: updateDoc_match_simps)
  qed
  show "distinct (calls_since w (snd (toggleVisibility env match w)))"
  proof (cases "fst ?u")
    case None
    then have "w_calls (snd (toggleVisibility env match w)) =
        w_calls w @ [UpdateDoc (MatchDoc mid), GetDocs Matches, GetDocs Competitions]"
      by (simp add: tv toggleVisibility_try_def Let_def split_beta updateDoc_match_simps)
    then show ?thesis by simp
  next
    case (Some x)
    then have "w_calls (snd (toggleVisibility env match w)) = w_calls w @ [UpdateDoc (MatchDoc mid)]"
      by (simp add: tv toggleVisibility_try_def Let_def split_beta updateDoc_match_simps)
    then show ?thesis by simp
  qed
qed

lemma distinct_sub_refs:
  assumes "distinct (map fst (fs_lineups fs mid))" and "distinct (map fst (fs_events fs mid))"
  shows "distinct (sub_refs fs mid)"
proof -
  have l: "distinct (map (\<lambda>d. LineupDoc mid (fst d)) (fs_lineups fs mid))"
    using assms(1) by (simp add: distinct_map inj_on_def)
  have e: "distinct (map (\<lambda>d. EventDoc mid (fst d)) (fs_events fs mid))"
    using assms(2) by (simp add: distinct_map inj_on_def)
  show ?thesis
    using l e by (auto simp: sub_refs_def)
qed

lemma deleteMatch_effects:
  assumes "m_id match = Some mid" and "mid \<noteq> []"
    and "format_date (toDate (ce_runtime env) (m_match_date match)) = Inr ()"
    and "ce_confirm env"
  shows "fst (deleteMatch env match w) = Returned"
    and "first_error env ([GetDocs (Lineups mid), GetDocs (Events mid)]
            @ map DeleteDoc (sub_refs (w_store w) mid) @ [DeleteDoc (MatchDoc mid)]) = Some e
      \<Longrightarrow> w_toasts (snd (deleteMatch env match w)) = w_toasts w @
             [\<lparr>t_title = ''Error'',
               t_description = (if e = [] then ''Failed to delete match.'' else e),
               t_destructive = True\<rparr>]"
    and "\<exists>cs. w_calls (snd (deleteMatch env match w)) = w_calls w @ cs
           \<and> (distinct (sub_refs (w_store w) mid) \<longrightarrow> distinct cs)"
proof -
  let ?reads = "[GetDocs (Lineups mid), GetDocs (Events mid)]"
  let ?subs = "sub_refs (w_store w) mid"
  let ?w1 = "issue ?reads w"
  let ?w2 = "snd (deleteAll env ?subs ?w1)"
  let ?w3 = "snd (deleteDoc env (MatchDoc mid) ?w2)"
  let ?res = "deleteMatch env match w"
  let ?err = "\<lambda>e. \<lparr>t_title = ''Error'',
               t_description = (if e = [] then ''Failed to delete match.'' else e),
               t_destructive = True\<rparr>"
  let ?D = "\<lambda>cs. distinct ?subs \<longrightarrow> distinct cs"
  note dm = deleteMatch_confirmed [OF assms, of w]
  have dsub: "distinct (map DeleteDoc ?subs)" if "distinct ?subs"
    using that by (simp add: distinct_map inj_on_def)
  have sep: "DeleteDoc (MatchDoc mid) \<notin> set (map DeleteDoc ?subs)"
    by (auto simp: sub_refs_def)
  have all: "fst ?res = Returned
     \<and> (\<forall>e. first_error env (?reads @ map DeleteDoc ?subs @ [DeleteDoc (MatchDoc mid)]) = Some e
           \<longrightarrow> w_toasts (snd ?res) = w_toasts w @ [?err e])
     \<and> (\<exists>cs. w_calls (snd ?res) = w_calls w @ cs \<and> ?D cs)"
  proof (cases "first_error env ?reads")
    case (Some x)
    have res: "?res = (Returned, toast_error ''Error'' ''Failed to delete match.'' x ?w1)"
      by (simp add: dm deleteMatch_try_reads_fail [OF Some] del: first_error.simps)
    have fe: "first_error env (?reads @ map DeleteDoc ?subs @ [DeleteDoc (MatchDoc mid)]) = Some x"
      by (simp only: first_error_append Some option.case)
    have c: "w_calls (snd ?res) = w_calls w @ ?reads \<and> ?D ?reads"
      by (simp add: res)
    have t: "w_toasts (snd ?res) = w_toasts w @ [?err x]"
      by (simp add: res)
    have f: "fst ?res = Returned" by (simp add: res)
    show ?thesis
      using c t f fe by (metis option.inject)
  next
    case None
    note reads_ok = None
    show ?thesis
    proof (cases "first_error env (map DeleteDoc ?subs)")
      case (Some x)
      have res: "?res = (Returned, toast_error ''Error'' ''Failed to delete match.'' x ?w2)"
        by (simp add: dm deleteMatch_try_subs_fail [OF reads_ok Some] del: first_error.simps)
      have fe: "first_error env (?reads @ map DeleteDoc ?subs @ [DeleteDoc (MatchDoc mid)]) = Some x"
        by (simp only: first_error_append reads_ok Some option.case)
      have c: "w_calls (snd ?res) = w_calls w @ (?reads @ map DeleteDoc ?subs)
           \<and> ?D (?reads @ map DeleteDoc ?subs)"
        using dsub by (auto simp: res deleteAll_calls)
      have t: "w_toasts (snd ?res) = w_toasts w @ [?err x]"
        by (simp add: res deleteAll_toasts)
      have f: "fst ?res = Returned" by (simp add: res)
      show ?thesis
        using c t f fe by (metis option.inject)
    next
      case None
      note subs_ok = None
      note try_eq = deleteMatch_try_subs_ok [OF reads_ok subs_ok, of match]
      have calls3: "w_calls ?w3 = w_calls w @ ?reads @ map DeleteDoc ?subs @ [DeleteDoc (MatchDoc mid)]"
        by (simp add: deleteAll_calls)
      show ?thesis
      proof (cases "ce_fails env (DeleteDoc (MatchDoc mid))")
        case (Some x)
        have res: "?res = (Returned, toast_error ''Error'' ''Failed to delete match.'' x ?w3)"
          by (simp add: dm try_eq Some Let_def)
        have mf: "first_error env [DeleteDoc (MatchDoc mid)] = Some x"
          using Some by simp
        have fe: "first_error env (?reads @ map DeleteDoc ?subs @ [DeleteDoc (MatchDoc mid)]) = Some x"
          by (simp only: first_error_append reads_ok subs_ok mf option.case)
        have c: "w_calls (snd ?res) = w_calls w @ (?reads @ map DeleteDoc ?subs @ [DeleteDoc (MatchDoc mid)])
           \<and> ?D (?reads @ map DeleteDoc ?subs @ [DeleteDoc (MatchDoc mid)])"
          using dsub sep calls3 by (auto simp: res)
        have t: "w_toasts (snd ?res) = w_toasts w @ [?err x]"
          by (simp add: res deleteAll_toasts)
        have f: "fst ?res = Returned" by (simp add: res)
        show ?thesis
          using c t f fe by (metis option.inject)
      next
        case None
        let ?t = "\<lparr>t_title = ''Match Deleted'',
                   t_description = ''Match against '' @ m_opponent match @
                     '' and all associated data have been deleted successfully.'',
                   t_destructive = False\<rparr>"
        have res: "?res = (Returned, fetchData env (show_toast ?t ?w3))"
          by (simp add: dm try_eq None Let_def)
        have mf: "first_error env [DeleteDoc (MatchDoc mid)] = None"
          using None by simp
        have fe: "first_error env (?reads @ map DeleteDoc ?subs @ [DeleteDoc (MatchDoc mid)]) = None"
          by (simp only: first_error_append reads_ok subs_ok mf option.case)
        have c: "w_calls (snd ?res) = w_calls w @ (?reads @ map DeleteDoc ?subs @ [DeleteDoc (MatchDoc mid)]
               @ [GetDocs Matches, GetDocs Competitions])
           \<and> ?D (?reads @ map DeleteDoc ?subs @ [DeleteDoc (MatchDoc mid)]
               @ [GetDocs Matches, GetDocs Competitions])"
          using dsub sep calls3 by (auto simp: res)
        have f: "fst ?res = Returned" by (simp add: res)
        show ?thesis
          using c f fe by (metis option.distinct(1))
      qed
    qed
  qed
  show "fst ?res = Returned" using all by blast
  show "w_toasts (snd ?res) = w_toasts w @ [?err e]"
    if "first_error env (?reads @ map DeleteDoc ?subs @ [DeleteDoc (MatchDoc mid)]) = Some e"
    using all that by blast
  show "\<exists>cs. w_calls (snd ?res) = w_calls w @ cs \<and> ?D cs"
    using all by blast
qed

lemma same_id_same_doc:
  assumes "distinct (map fst docs)" and "d \<in> set docs" and "d' \<in> set docs" and "fst d = fst d'"
  shows "d = d'"
  using assms by (meson distinct_map inj_onD)

lemma remove_matching:
  assumes "distinct (map fst docs)" and "inj f"
  shows "filter (\<lambda>d. f (fst d) \<notin> set (map (\<lambda>d. f (fst d)) (filter P docs))) docs
         = filter (\<lambda>d. \<not> P d) docs"
proof (rule filter_cong [OF refl])
  fix d assume d: "d \<in> set docs"
  have "f (fst d) \<in> set (map (\<lambda>d. f (fst d)) (filter P docs)) \<longleftrightarrow> P d"
  proof
    assume "f (fst d) \<in> set (map (\<lambda>d. f (fst d)) (filter P docs))"
    then obtain d' where d': "d' \<in> set docs" "P d'" "f (fst d') = f (fst d)"
      by auto
    then have "fst d' = fst d"
      using assms(2) by (simp add: inj_eq)
    then have "d' = d"
      using same_id_same_doc [OF assms(1) d' (1) d] by simp
    then show "P d" using d'(2) by simp
  next
    assume "P d"
    then show "f (fst d) \<in> set (map (\<lambda>d. f (fst d)) (filter P docs))"
      using d by auto
  qed
  then show "(f (fst d) \<notin> set (map (\<lambda>d. f (fst d)) (filter P docs))) = (\<not> P d)"
    by simp
qed

lemma sub_lineups_after_lineup_deletes:
  "fs_events (apply_deletes env (map (\<lambda>d. LineupDoc mid (fst d)) xs) fs) m = fs_events fs m"
  "fs_players (apply_deletes env (map (\<lambda>d. LineupDoc mid (fst d)) xs) fs) = fs_players fs"
  "fs_matches (apply_deletes env (map (\<lambda>d. LineupDoc mid (fst d)) xs) fs) = fs_matches fs"
  "m \<noteq> mid \<Longrightarrow> fs_lineups (apply_deletes env (map (\<lambda>d. LineupDoc mid (fst d)) xs) fs) m = fs_lineups fs m"
  by (auto simp: apply_deletes_fields succeeded_def filter_id_conv)

lemma sub_events_after_event_deletes:
  "fs_lineups (apply_deletes env (map (\<lambda>d. EventDoc mid (fst d)) xs) fs) m = fs_lineups fs m"
  "fs_players (apply_deletes env (map (\<lambda>d. EventDoc mid (fst d)) xs) fs) = fs_players fs"
  "fs_matches (apply_deletes env (map (\<lambda>d. EventDoc mid (fst d)) xs) fs) = fs_matches fs"
  "m \<noteq> mid \<Longrightarrow> fs_events (apply_deletes env (map (\<lambda>d. EventDoc mid (fst d)) xs) fs) m = fs_events fs m"
  by (auto simp: apply_deletes_fields succeeded_def filter_id_conv)

lemma keeps_unmatched:
  assumes "distinct (map fst docs)" and "inj f"
    and "set rs \<subseteq> set (map (\<lambda>d. f (fst d)) (filter P docs))"
  shows "filter (\<lambda>d. \<not> P d) (filter (\<lambda>d. f (fst d) \<notin> set rs) docs) = filter (\<lambda>d. \<not> P d) docs"
proof -
  have "f (fst d) \<notin> set rs" if d: "d \<in> set docs" and np: "\<not> P d" for d
  proof
    assume "f (fst d) \<in> set rs"
    then have "f (fst d) \<in> set (map (\<lambda>d. f (fst d)) (filter P docs))"
      using assms(3) by blast
    then obtain d' where d': "d' \<in> set docs" "P d'" "f (fst d') = f (fst d)"
      by auto
    then have "fst d' = fst d"
      using assms(2) by (simp add: inj_eq)
    then have "d' = d"
      using same_id_same_doc [OF assms(1) d'(1) d] by simp
    then show False using d'(2) np by simp
  qed
  then show ?thesis
    by (auto simp: filter_filter intro: filter_cong)
qed

lemma succeeded_subset: "set (succeeded env rs) \<subseteq> set rs"
  by (simp add: succeeded_def)

lemma delete_lineup_refs_any:
  fixes P :: "string \<times> MatchLineup \<Rightarrow> bool"
  assumes d: "distinct (map fst (fs_lineups fs mid))"
  shows "filter (\<lambda>d. \<not> P d)
           (fs_lineups (apply_deletes env (map (\<lambda>d. LineupDoc mid (fst d)) (filter P (fs_lineups fs mid))) fs) m)
         = filter (\<lambda>d. \<not> P d) (fs_lineups fs m)"
    and "set (fs_lineups (apply_deletes env rs fs) m) \<subseteq> set (fs_lineups fs m)"
    and "distinct (map fst (fs_lineups fs m)) \<Longrightarrow>
           distinct (map fst (fs_lineups (apply_deletes env rs fs) m))"
    and "first_error env (map DeleteDoc (map (\<lambda>d. LineupDoc mid (fst d)) (filter P (fs_lineups fs mid)))) = None \<Longrightarrow>
          fs_lineups (apply_deletes env (map (\<lambda>d. LineupDoc mid (fst d)) (filter P (fs_lineups fs mid))) fs) mid
          = filter (\<lambda>d. \<not> P d) (fs_lineups fs mid)"
proof -
  let ?refs = "map (\<lambda>d. LineupDoc mid (fst d)) (filter P (fs_lineups fs mid))"
  have inj: "inj (LineupDoc mid)" by (simp add: inj_on_def)
  show "filter (\<lambda>d. \<not> P d) (fs_lineups (apply_deletes env ?refs fs) m) = filter (\<lambda>d. \<not> P d) (fs_lineups fs m)"
  proof (cases "m = mid")
    case True
    show ?thesis
      unfolding True apply_deletes_fields
      by (rule keeps_unmatched [OF d inj succeeded_subset])
  next
    case False
    then show ?thesis by (simp add: sub_lineups_after_lineup_deletes)
  qed
  show "set (fs_lineups (apply_deletes env rs fs) m) \<subseteq> set (fs_lineups fs m)"
    by (auto simp: apply_deletes_fields)
  show "distinct (map fst (fs_lineups fs m)) \<Longrightarrow>
           distinct (map fst (fs_lineups (apply_deletes env rs fs) m))"
    by (simp add: apply_deletes_fields distinct_map_filter)
  assume "first_error env (map DeleteDoc ?refs) = None"
  then have "succeeded env ?refs = ?refs"
    by (intro succeeded_all) (simp add: first_error_None_iff)
  then show "fs_lineups (apply_deletes env ?refs fs) mid = filter (\<lambda>d. \<not> P d) (fs_lineups fs mid)"
    using remove_matching [OF d inj, of P] by (simp add: apply_deletes_fields)
qed

lemma delete_event_refs_any:
  fixes P :: "string \<times> MatchEvent \<Rightarrow> bool"
  assumes d: "distinct (map fst (fs_events fs mid))"
  shows "filter (\<lambda>d. \<not> P d)
           (fs_events (apply_deletes env (map (\<lambda>d. EventDoc mid (fst d)) (filter P (fs_events fs mid))) fs) m)
         = filter (\<lambda>d. \<not> P d) (fs_events fs m)"
    and "set (fs_events (apply_deletes env rs fs) m) \<subseteq> set (fs_events fs m)"
    and "distinct (map fst (fs_events fs m)) \<Longrightarrow>
           distinct (map fst (fs_events (apply_deletes env rs fs) m))"
    and "first_error env (map DeleteDoc (map (\<lambda>d. EventDoc mid (fst d)) (filter P (fs_events fs mid)))) = None \<Longrightarrow>
          fs_events (apply_deletes env (map (\<lambda>d. EventDoc mid (fst d)) (filter P (fs_events fs mid))) fs) mid
          = filter (\<lambda>d. \<not> P d) (fs_events fs mid)"
proof -
  let ?refs = "map (\<lambda>d. EventDoc mid (fst d)) (filter P (fs_events fs mid))"
  have inj: "inj (EventDoc mid)" by (simp add: inj_on_def)
  show "filter (\<lambda>d. \<not> P d) (fs_events (apply_deletes env ?refs fs) m) = filter (\<lambda>d. \<not> P d) (fs_events fs m)"
  proof (cases "m = mid")
    case True
    show ?thesis
      unfolding True apply_deletes_fields
      by (rule keeps_unmatched [OF d inj succeeded_subset])
  next
    case False
    then show ?thesis by (simp add: sub_events_after_event_deletes)
  qed
  show "set (fs_events (apply_deletes env rs fs) m) \<subseteq> set (fs_events fs m)"
    by (auto simp: apply_deletes_fields)
  show "distinct (map fst (fs_events fs m)) \<Longrightarrow>
           distinct (map fst (fs_events (apply_deletes env rs fs) m))"
    by (simp add: apply_deletes_fields distinct_map_filter)
  assume "first_error env (map DeleteDoc ?refs) = None"
  then have "succeeded env ?refs = ?refs"
    by (intro succeeded_all) (simp add: first_error_None_iff)
  then show "fs_events (apply_deletes env ?refs fs) mid = filter (\<lambda>d. \<not> P d) (fs_events fs mid)"
    using remove_matching [OF d inj, of P] by (simp add: apply_deletes_fields)
qed

lemma cleanupReferences_Cons_lineups_fail:
  assumes "ce_fails env (GetDocs (Lineups m0)) = Some e"
  shows "cleanupReferences env pid (m0 # rest) w = (Some e, None, issue [GetDocs (Lineups m0)] w)"
  using assms by (simp add: Let_def)

lemma cleanupReferences_Cons_events_fail:
  assumes "ce_fails env (GetDocs (Lineups m0)) = None" and "ce_fails env (GetDocs (Events m0)) = Some e"
  shows "fst (cleanupReferences env pid (m0 # rest) w) = Some e"
    and "w_store (snd (snd (cleanupReferences env pid (m0 # rest) w))) =
           apply_deletes env
             (map (\<lambda>d. LineupDoc m0 (fst d))
                (filter (\<lambda>d. lu_player_id (snd d) = pid) (fs_lineups (w_store w) m0)))
             (w_store w)"
    and "w_calls (snd (snd (cleanupReferences env pid (m0 # rest) w))) =
           w_calls w @ GetDocs (Lineups m0) #
             map DeleteDoc (map (\<lambda>d. LineupDoc m0 (fst d))
                (filter (\<lambda>d. lu_player_id (snd d) = pid) (fs_lineups (w_store w) m0)))
             @ [GetDocs (Events m0)]"
  using assms by (simp_all add: Let_def deleteAll_store deleteAll_calls)

lemma cleanupReferences_Cons_reads_ok:
  assumes "ce_fails env (GetDocs (Lineups m0)) = None" and "ce_fails env (GetDocs (Events m0)) = None"
  shows "fst (cleanupReferences env pid (m0 # rest) w) =
           fst (cleanupReferences env pid rest (cleanup_match env pid m0 w))"
    and "snd (snd (cleanupReferences env pid (m0 # rest) w)) =
           snd (snd (cleanupReferences env pid rest (cleanup_match env pid m0 w)))"
    and "fst (snd (cleanupReferences env pid (m0 # rest) w)) = None \<longleftrightarrow>
           first_error env (map DeleteDoc (map (\<lambda>d. LineupDoc m0 (fst d))
                (filter (\<lambda>d. lu_player_id (snd d) = pid) (fs_lineups (w_store w) m0)))) = None
           \<and> first_error env (map DeleteDoc (map (\<lambda>d. EventDoc m0 (fst d))
                (filter (\<lambda>d. ev_player_id (snd d) = pid) (fs_events (w_store w) m0)))) = None
           \<and> fst (snd (cleanupReferences env pid rest (cleanup_match env pid m0 w))) = None"
  using assms
  by (simp_all add: cleanup_match_def Let_def deleteAll_fst deleteAll_store
      sub_lineups_after_lineup_deletes split: option.splits)

lemma cleanup_match_store_eq:
  "w_store (cleanup_match env pid m0 w) =
     apply_deletes env
       (map (\<lambda>d. EventDoc m0 (fst d))
          (filter (\<lambda>d. ev_player_id (snd d) = pid) (fs_events (w_store w) m0)))
       (apply_deletes env
          (map (\<lambda>d. LineupDoc m0 (fst d))
             (filter (\<lambda>d. lu_player_id (snd d) = pid) (fs_lineups (w_store w) m0)))
          (w_store w))"
  by (simp add: cleanup_match_def Let_def deleteAll_store sub_lineups_after_lineup_deletes)

lemma cleanup_match_calls_eq:
  "w_calls (cleanup_match env pid m0 w) =
     w_calls w @ GetDocs (Lineups m0) #
       map DeleteDoc (map (\<lambda>d. LineupDoc m0 (fst d))
          (filter (\<lambda>d. lu_player_id (snd d) = pid) (fs_lineups (w_store w) m0)))
       @ GetDocs (Events m0) #
       map DeleteDoc (map (\<lambda>d. EventDoc m0 (fst d))
          (filter (\<lambda>d. ev_player_id (snd d) = pid) (fs_events (w_store w) m0)))"
  by (simp add: cleanup_match_def Let_def deleteAll_store deleteAll_calls
      sub_lineups_after_lineup_deletes)

lemma apply_deletes_shrinks:
  "set (fs_lineups (apply_deletes env rs fs) m) \<subseteq> set (fs_lineups fs m)"
  "set (fs_events (apply_deletes env rs fs) m) \<subseteq> set (fs_events fs m)"
  "distinct (map fst (fs_lineups fs m)) \<Longrightarrow> distinct (map fst (fs_lineups (apply_deletes env rs fs) m))"
  "distinct (map fst (fs_events fs m)) \<Longrightarrow> distinct (map fst (fs_events (apply_deletes env rs fs) m))"
  by (auto simp: apply_deletes_fields distinct_map_filter)

lemma cleanup_match_shrinks:
  "set (fs_lineups (w_store (cleanup_match env pid m0 w)) m) \<subseteq> set (fs_lineups (w_store w) m)"
  "set (fs_events (w_store (cleanup_match env pid m0 w)) m) \<subseteq> set (fs_events (w_store w) m)"
  "m \<noteq> m0 \<Longrightarrow> fs_lineups (w_store (cleanup_match env pid m0 w)) m = fs_lineups (w_store w) m"
  "m \<noteq> m0 \<Longrightarrow> fs_events (w_store (cleanup_match env pid m0 w)) m = fs_events (w_store w) m"
  "fs_players (w_store (cleanup_match env pid m0 w)) = fs_players (w_store w)"
  "fs_matches (w_store (cleanup_match env pid m0 w)) = fs_matches (w_store w)"
proof -
  show "set (fs_lineups (w_store (cleanup_match env pid m0 w)) m) \<subseteq> set (fs_lineups (w_store w) m)"
    unfolding cleanup_match_store_eq
    using apply_deletes_shrinks(1) by (rule subset_trans) (rule apply_deletes_shrinks(1))
  show "set (fs_events (w_store (cleanup_match env pid m0 w)) m) \<subseteq> set (fs_events (w_store w) m)"
    unfolding cleanup_match_store_eq
    using apply_deletes_shrinks(2) by (rule subset_trans) (rule apply_deletes_shrinks(2))
  show "m \<noteq> m0 \<Longrightarrow> fs_lineups (w_store (cleanup_match env pid m0 w)) m = fs_lineups (w_store w) m"
    by (simp add: cleanup_match_store_eq sub_lineups_after_lineup_deletes sub_events_after_event_deletes)
  show "m \<noteq> m0 \<Longrightarrow> fs_events (w_store (cleanup_match env pid m0 w)) m = fs_events (w_store w) m"
    by (simp add: cleanup_match_store_eq sub_lineups_after_lineup_deletes sub_events_after_event_deletes)
  show "fs_players (w_store (cleanup_match env pid m0 w)) = fs_players (w_store w)"
    by (simp add: cleanup_match_store_eq sub_lineups_after_lineup_deletes sub_events_after_event_deletes)
  show "fs_matches (w_store (cleanup_match env pid m0 w)) = fs_matches (w_store w)"
    by (simp add: cleanup_match_store_eq sub_lineups_after_lineup_deletes sub_events_after_event_deletes)
qed

lemma cleanup_match_distinct_any:
  assumes "distinct_ids (w_store w) ms"
  shows "distinct_ids (w_store (cleanup_match env pid m0 w)) ms"
  using assms
  by (simp add: distinct_ids_def cleanup_match_store_eq apply_deletes_shrinks)

lemma cleanup_match_others:
  assumes "distinct (map fst (fs_lineups (w_store w) m0))"
    and "distinct (map fst (fs_events (w_store w) m0))"
  shows "filter (\<lambda>d. lu_player_id (snd d) \<noteq> pid) (fs_lineups (w_store (cleanup_match env pid m0 w)) m)
         = filter (\<lambda>d. lu_player_id (snd d) \<noteq> pid) (fs_lineups (w_store w) m)"
    and "filter (\<lambda>d. ev_player_id (snd d) \<noteq> pid) (fs_events (w_store (cleanup_match env pid m0 w)) m)
         = filter (\<lambda>d. ev_player_id (snd d) \<noteq> pid) (fs_events (w_store w) m)"
proof -
  let ?fs = "w_store w"
  let ?lrefs = "map (\<lambda>d. LineupDoc m0 (fst d))
             (filter (\<lambda>d. lu_player_id (snd d) = pid) (fs_lineups ?fs m0))"
  let ?fs1 = "apply_deletes env ?lrefs ?fs"
  show "filter (\<lambda>d. lu_player_id (snd d) \<noteq> pid) (fs_lineups (w_store (cleanup_match env pid m0 w)) m)
         = filter (\<lambda>d. lu_player_id (snd d) \<noteq> pid) (fs_lineups (w_store w) m)"
    using delete_lineup_refs_any(1) [OF assms(1), of "\<lambda>d. lu_player_id (snd d) = pid" env m]
    by (simp add: cleanup_match_store_eq sub_events_after_event_deletes)
  have ev: "fs_events ?fs1 = fs_events ?fs"
    by (rule ext) (simp add: sub_lineups_after_lineup_deletes)
  have d1: "distinct (map fst (fs_events ?fs1 m0))"
    using assms(2) by (simp add: ev)
  show "filter (\<lambda>d. ev_player_id (snd d) \<noteq> pid) (fs_events (w_store (cleanup_match env pid m0 w)) m)
         = filter (\<lambda>d. ev_player_id (snd d) \<noteq> pid) (fs_events (w_store w) m)"
    using delete_event_refs_any(1) [OF d1, of "\<lambda>d. ev_player_id (snd d) = pid" env m]
    by (simp add: cleanup_match_store_eq ev)
qed

lemma cleanup_match_complete:
  assumes "distinct (map fst (fs_lineups (w_store w) m0))"
    and "distinct (map fst (fs_events (w_store w) m0))"
  shows "first_error env (map DeleteDoc (map (\<lambda>d. LineupDoc m0 (fst d))
                (filter (\<lambda>d. lu_player_id (snd d) = pid) (fs_lineups (w_store w) m0)))) = None \<Longrightarrow>
         fs_lineups (w_store (cleanup_match env pid m0 w)) m0
         = filter (\<lambda>d. lu_player_id (snd d) \<noteq> pid) (fs_lineups (w_store w) m0)"
    and "first_error env (map DeleteDoc (map (\<lambda>d. EventDoc m0 (fst d))
                (filter (\<lambda>d. ev_player_id (snd d) = pid) (fs_events (w_store w) m0)))) = None \<Longrightarrow>
         fs_events (w_store (cleanup_match env pid m0 w)) m0
         = filter (\<lambda>d. ev_player_id (snd d) \<noteq> pid) (fs_events (w_store w) m0)"
proof -
  let ?fs = "w_store w"
  let ?lrefs = "map (\<lambda>d. LineupDoc m0 (fst d))
             (filter (\<lambda>d. lu_player_id (snd d) = pid) (fs_lineups ?fs m0))"
  let ?fs1 = "apply_deletes env ?lrefs ?fs"
  have ev: "fs_events ?fs1 = fs_events ?fs"
    by (rule ext) (simp add: sub_lineups_after_lineup_deletes)
  have d1: "distinct (map fst (fs_events ?fs1 m0))"
    using assms(2) by (simp add: ev)
  show "first_error env (map DeleteDoc ?lrefs) = None \<Longrightarrow>
         fs_lineups (w_store (cleanup_match env pid m0 w)) m0
         = filter (\<lambda>d. lu_player_id (snd d) \<noteq> pid) (fs_lineups (w_store w) m0)"
    using delete_lineup_refs_any(4) [OF assms(1), of env "\<lambda>d. lu_player_id (snd d) = pid"]
    by (simp add: cleanup_match_store_eq sub_events_after_event_deletes)
  show "first_error env (map DeleteDoc (map (\<lambda>d. EventDoc m0 (fst d))
                (filter (\<lambda>d. ev_player_id (snd d) = pid) (fs_events (w_store w) m0)))) = None \<Longrightarrow>
         fs_events (w_store (cleanup_match env pid m0 w)) m0
         = filter (\<lambda>d. ev_player_id (snd d) \<noteq> pid) (fs_events (w_store w) m0)"
    using delete_event_refs_any(4) [OF d1, of env "\<lambda>d. ev_player_id (snd d) = pid"]
    by (simp add: cleanup_match_store_eq ev)
qed

lemma cleanupReferences_shrinks:
  "set (fs_lineups (w_store (snd (snd (cleanupReferences env pid ms w)))) m) \<subseteq> set (fs_lineups (w_store w) m)
   \<and> set (fs_events (w_store (snd (snd (cleanupReferences env pid ms w)))) m) \<subseteq> set (fs_events (w_store w) m)
   \<and> (m \<notin> set ms \<longrightarrow>
        fs_lineups (w_store (snd (snd (cleanupReferences env pid ms w)))) m = fs_lineups (w_store w) m
        \<and> fs_events (w_store (snd (snd (cleanupReferences env pid ms w)))) m = fs_events (w_store w) m)
   \<and> fs_players (w_store (snd (snd (cleanupReferences env pid ms w)))) = fs_players (w_store w)
   \<and> fs_matches (w_store (snd (snd (cleanupReferences env pid ms w)))) = fs_matches (w_store w)"
proof (induction ms arbitrary: w)
  case Nil
  then show ?case by simp
next
  case (Cons m0 rest)
  show ?case
  proof (cases "ce_fails env (GetDocs (Lineups m0))")
    case (Some e)
    show ?thesis
      unfolding cleanupReferences_Cons_lineups_fail [OF Some] by simp
  next
    case None
    note l = None
    show ?thesis
    proof (cases "ce_fails env (GetDocs (Events m0))")
      case (Some e)
      show ?thesis
        unfolding cleanupReferences_Cons_events_fail(2) [OF l Some]
        by (simp add: apply_deletes_shrinks sub_lineups_after_lineup_deletes)
    next
      case None
      let ?cm = "cleanup_match env pid m0 w"
      note IH = Cons.IH [of ?cm]
      note cm = cleanup_match_shrinks(1-4) [where env = env and pid = pid and ?m0.0 = m0 and w = w and m = m]
        cleanup_match_shrinks(5-6) [where env = env and pid = pid and ?m0.0 = m0 and w = w]
      show ?thesis
        unfolding cleanupReferences_Cons_reads_ok(2) [OF l None]
        using IH cm by auto
    qed
  qed
qed

lemma cleanupReferences_others:
  "distinct_ids (w_store w) ms \<Longrightarrow>
   filter (\<lambda>d. lu_player_id (snd d) \<noteq> pid) (fs_lineups (w_store (snd (snd (cleanupReferences env pid ms w)))) m)
     = filter (\<lambda>d. lu_player_id (snd d) \<noteq> pid) (fs_lineups (w_store w) m)
   \<and> filter (\<lambda>d. ev_player_id (snd d) \<noteq> pid) (fs_events (w_store (snd (snd (cleanupReferences env pid ms w)))) m)
     = filter (\<lambda>d. ev_player_id (snd d) \<noteq> pid) (fs_events (w_store w) m)"
proof (induction ms arbitrary: w)
  case Nil
  then show ?case by simp
next
  case (Cons m0 rest)
  have d0: "distinct (map fst (fs_lineups (w_store w) m0))" "distinct (map fst (fs_events (w_store w) m0))"
    using Cons.prems by (simp_all add: distinct_ids_def)
  show ?case
  proof (cases "ce_fails env (GetDocs (Lineups m0))")
    case (Some e)
    show ?thesis
      unfolding cleanupReferences_Cons_lineups_fail [OF Some] by simp
  next
    case None
    note l = None
    show ?thesis
    proof (cases "ce_fails env (GetDocs (Events m0))")
      case (Some e)
      show ?thesis
        unfolding cleanupReferences_Cons_events_fail(2) [OF l Some]
        using delete_lineup_refs_any(1) [OF d0(1), where P = "\<lambda>d. lu_player_id (snd d) = pid" and env = env and m = m]
        by (simp add: sub_lineups_after_lineup_deletes)
    next
      case None
      let ?cm = "cleanup_match env pid m0 w"
      have "distinct_ids (w_store ?cm) rest"
        using Cons.prems cleanup_match_distinct_any [where w = w and ms = "m0 # rest" and env = env and pid = pid and ?m0.0 = m0]
        by (simp add: distinct_ids_def)
      note IH = Cons.IH [OF this]
      show ?thesis
        unfolding cleanupReferences_Cons_reads_ok(2) [OF l None]
        using IH by (simp add: cleanup_match_others [OF d0] del: cleanupReferences.simps)
    qed
  qed
qed

lemma cleanupReferences_complete:
  "distinct_ids (w_store w) ms \<Longrightarrow>
   fst (cleanupReferences env pid ms w) = None \<Longrightarrow>
   fst (snd (cleanupReferences env pid ms w)) = None \<Longrightarrow> m \<in> set ms \<Longrightarrow>
   (\<forall>d \<in> set (fs_lineups (w_store (snd (snd (cleanupReferences env pid ms w)))) m). lu_player_id (snd d) \<noteq> pid)
   \<and> (\<forall>d \<in> set (fs_events (w_store (snd (snd (cleanupReferences env pid ms w)))) m). ev_player_id (snd d) \<noteq> pid)"
proof (induction ms arbitrary: w)
  case Nil
  then show ?case by simp
next
  case (Cons m0 rest)
  have d0: "distinct (map fst (fs_lineups (w_store w) m0))" "distinct (map fst (fs_events (w_store w) m0))"
    using Cons.prems(1) by (simp_all add: distinct_ids_def)
  obtain l: "ce_fails env (GetDocs (Lineups m0)) = None"
    using Cons.prems(2) by (cases "ce_fails env (GetDocs (Lineups m0))") (simp_all add: Let_def)
  obtain e: "ce_fails env (GetDocs (Events m0)) = None"
    using Cons.prems(2) cleanupReferences_Cons_events_fail(1) [OF l]
    by (cases "ce_fails env (GetDocs (Events m0))") simp_all
  let ?cm = "cleanup_match env pid m0 w"
  let ?r3 = "cleanupReferences env pid rest ?cm"
  note unf = cleanupReferences_Cons_reads_ok [OF l e, where pid = pid and rest = rest and w = w]
  have s1: "fst ?r3 = None"
    using Cons.prems(2) by (simp only: unf(1))
  have s2: "first_error env (map DeleteDoc (map (\<lambda>d. LineupDoc m0 (fst d))
                (filter (\<lambda>d. lu_player_id (snd d) = pid) (fs_lineups (w_store w) m0)))) = None"
      "first_error env (map DeleteDoc (map (\<lambda>d. EventDoc m0 (fst d))
                (filter (\<lambda>d. ev_player_id (snd d) = pid) (fs_events (w_store w) m0)))) = None"
      "fst (snd ?r3) = None"
    using Cons.prems(3) unf(3) by blast+
  have d1: "distinct_ids (w_store ?cm) rest"
    using Cons.prems(1) cleanup_match_distinct_any [where w = w and ms = "m0 # rest" and env = env and pid = pid and ?m0.0 = m0]
    by (simp add: distinct_ids_def)
  show ?case
  proof (cases "m \<in> set rest")
    case True
    show ?thesis
      unfolding unf(2) by (rule Cons.IH [OF d1 s1 s2(3) True])
  next
    case False
    then have m: "m = m0" using Cons.prems(4) by simp
    note sh = cleanupReferences_shrinks [where env = env and pid = pid and ms = rest and w = ?cm and m = m0]
    note c = cleanup_match_complete [OF d0, where env = env and pid = pid]
    have "set (fs_lineups (w_store (snd (snd ?r3))) m0)
            \<subseteq> set (filter (\<lambda>d. lu_player_id (snd d) \<noteq> pid) (fs_lineups (w_store w) m0))"
      using sh c(1) [OF s2(1)] by simp
    moreover have "set (fs_events (w_store (snd (snd ?r3))) m0)
            \<subseteq> set (filter (\<lambda>d. ev_player_id (snd d) \<noteq> pid) (fs_events (w_store w) m0))"
      using sh c(2) [OF s2(2)] by simp
    ultimately show ?thesis
      unfolding unf(2) m by auto
  qed
qed

lemma cleanupReferences_calls_any:
  "\<exists>cs. w_calls (snd (snd (cleanupReferences env pid ms w))) = w_calls w @ cs
      \<and> DeleteDoc (PlayerDoc pid) \<notin> set cs
      \<and> ((fst (cleanupReferences env pid ms w) = None
           \<and> fst (snd (cleanupReferences env pid ms w)) = None)
          \<longleftrightarrow> (\<forall>c \<in> set cs. ce_fails env c = None))"
proof (induction ms arbitrary: w)
  case Nil
  then show ?case by simp
next
  case (Cons m0 rest)
  show ?case
  proof (cases "ce_fails env (GetDocs (Lineups m0))")
    case (Some e)
    show ?thesis
      using Some
      by (intro exI [of _ "[GetDocs (Lineups m0)]"])
         (simp add: cleanupReferences_Cons_lineups_fail [OF Some] del: cleanupReferences.simps)
  next
    case None
    note l = None
    let ?lrefs = "map (\<lambda>d. LineupDoc m0 (fst d))
                (filter (\<lambda>d. lu_player_id (snd d) = pid) (fs_lineups (w_store w) m0))"
    let ?erefs = "map (\<lambda>d. EventDoc m0 (fst d))
                (filter (\<lambda>d. ev_player_id (snd d) = pid) (fs_events (w_store w) m0))"
    show ?thesis
    proof (cases "ce_fails env (GetDocs (Events m0))")
      case (Some e)
      note f = cleanupReferences_Cons_events_fail [OF l Some, where pid = pid and rest = rest and w = w]
      show ?thesis
        using Some
        by (intro exI [of _ "GetDocs (Lineups m0) # map DeleteDoc ?lrefs @ [GetDocs (Events m0)]"])
           (auto simp: f simp del: cleanupReferences.simps)
    next
      case None
      let ?cm = "cleanup_match env pid m0 w"
      let ?r3 = "cleanupReferences env pid rest ?cm"
      let ?cs1 = "GetDocs (Lineups m0) # map DeleteDoc ?lrefs @ GetDocs (Events m0) # map DeleteDoc ?erefs"
      note unf = cleanupReferences_Cons_reads_ok [OF l None, where pid = pid and rest = rest and w = w]
      obtain cs2 where cs2: "w_calls (snd (snd ?r3)) = w_calls ?cm @ cs2"
          "DeleteDoc (PlayerDoc pid) \<notin> set cs2"
          "(fst ?r3 = None \<and> fst (snd ?r3) = None) \<longleftrightarrow> (\<forall>c \<in> set cs2. ce_fails env c = None)"
        using Cons.IH [of ?cm] by blast
      have a: "w_calls (snd (snd (cleanupReferences env pid (m0 # rest) w))) = w_calls w @ (?cs1 @ cs2)"
        by (simp only: unf(2) cs2(1) cleanup_match_calls_eq append_assoc)
      have b: "DeleteDoc (PlayerDoc pid) \<notin> set (?cs1 @ cs2)"
        using cs2(2) by auto
      have c1: "(\<forall>c \<in> set ?cs1. ce_fails env c = None) \<longleftrightarrow>
          first_error env (map DeleteDoc ?lrefs) = None \<and> first_error env (map DeleteDoc ?erefs) = None"
        unfolding first_error_None_iff using l None by (simp add: ball_Un)
      have c: "(fst (cleanupReferences env pid (m0 # rest) w) = None
           \<and> fst (snd (cleanupReferences env pid (m0 # rest) w)) = None)
          \<longleftrightarrow> (\<forall>c \<in> set (?cs1 @ cs2). ce_fails env c = None)"
        unfolding unf(1) unf(3) set_append ball_Un
        using c1 cs2(3) by blast
      show ?thesis
        using a b c by blast
    qed
  qed
qed

lemma fetchPlayers_simps:
  "w_calls (fetchPlayers env w) = w_calls w @ [GetDocs Players]"
  "w_store (fetchPlayers env w) = w_store w"
  "w_toasts (fetchPlayers env w) = w_toasts w"
  by (simp_all add: fetchPlayers_def Let_def split: option.splits)

lemma deletePlayer_returns: "fst (deletePlayer env player w) = Returned"
  by (simp add: deletePlayer_def split_beta split: option.splits)

lemma deletePlayer_matches_fail:
  assumes "pl_id player = Some pid" and "pid \<noteq> []" and "ce_confirm env"
    and "ce_fails env (GetDocs Matches) = Some e"
  shows "w_store (snd (deletePlayer env player w)) = w_store w"
    and "w_calls (snd (deletePlayer env player w)) = w_calls w @ [GetDocs Matches]"
  using assms by (simp_all add: deletePlayer_def deletePlayer_try_def Let_def)

lemma deletePlayer_cleanup_fail:
  assumes "pl_id player = Some pid" and "pid \<noteq> []" and "ce_confirm env"
    and "ce_fails env (GetDocs Matches) = None"
    and "\<not> (fst (cleanupReferences env pid (map fst (fs_matches (w_store w))) (issue [GetDocs Matches] w)) = None
           \<and> fst (snd (cleanupReferences env pid (map fst (fs_matches (w_store w))) (issue [GetDocs Matches] w))) = None)"
  shows "w_store (snd (deletePlayer env player w)) =
           w_store (snd (snd (cleanupReferences env pid (map fst (fs_matches (w_store w))) (issue [GetDocs Matches] w))))"
    and "w_calls (snd (deletePlayer env player w)) =
           w_calls (snd (snd (cleanupReferences env pid (map fst (fs_matches (w_store w))) (issue [GetDocs Matches] w))))"
  using assms
  by (auto simp: deletePlayer_def deletePlayer_try_def Let_def simp del: cleanupReferences.simps
      split: option.splits)

lemma deletePlayer_cleanup_ok:
  assumes "pl_id player = Some pid" and "pid \<noteq> []" and "ce_confirm env"
    and "ce_fails env (GetDocs Matches) = None"
    and "fst (cleanupReferences env pid (map fst (fs_matches (w_store w))) (issue [GetDocs Matches] w)) = None"
    and "fst (snd (cleanupReferences env pid (map fst (fs_matches (w_store w))) (issue [GetDocs Matches] w))) = None"
  shows "w_store (snd (deletePlayer env player w)) =
           apply_deletes env [PlayerDoc pid]
             (w_store (snd (snd (cleanupReferences env pid (map fst (fs_matches (w_store w))) (issue [GetDocs Matches] w)))))"
    and "w_calls (snd (deletePlayer env player w)) =
           w_calls (snd (snd (cleanupReferences env pid (map fst (fs_matches (w_store w))) (issue [GetDocs Matches] w))))
           @ DeleteDoc (PlayerDoc pid) #
             (if ce_fails env (DeleteDoc (PlayerDoc pid)) = None then [GetDocs Players] else [])"
proof -
  let ?w2 = "snd (snd (cleanupReferences env pid (map fst (fs_matches (w_store w))) (issue [GetDocs Matches] w)))"
  have run: "deletePlayer env player w =
      (case ce_fails env (DeleteDoc (PlayerDoc pid)) of
         Some e \<Rightarrow>
           (Returned,
            show_toast \<lparr>t_title = ce_t env ''common.error'',
                         t_description = (if e = [] then ce_t env ''players.failedToDelete'' else e),
                         t_destructive = True\<rparr>
              (snd (deleteDoc env (PlayerDoc pid) ?w2)))
       | None \<Rightarrow>
           (Returned,
            fetchPlayers env
              (show_toast
                 \<lparr>t_title = ce_t env ''players.playerDeleted'',
                   t_description = ce_t env ''players.playerDeletedDesc'',
                   t_destructive = False\<rparr>
                 (snd (deleteDoc env (PlayerDoc pid) ?w2)))))"
    using assms
    by (cases "ce_fails env (DeleteDoc (PlayerDoc pid))")
       (simp_all add: deletePlayer_def deletePlayer_try_def Let_def split_beta
          del: cleanupReferences.simps)
  show "w_store (snd (deletePlayer env player w)) = apply_deletes env [PlayerDoc pid] (w_store ?w2)"
    by (cases "ce_fails env (DeleteDoc (PlayerDoc pid))")
       (simp_all add: run fetchPlayers_simps apply_deletes_def succeeded_def
          del: cleanupReferences.simps)
  show "w_calls (snd (deletePlayer env player w)) =
           w_calls ?w2 @ DeleteDoc (PlayerDoc pid) #
             (if ce_fails env (DeleteDoc (PlayerDoc pid)) = None then [GetDocs Players] else [])"
    by (cases "ce_fails env (DeleteDoc (PlayerDoc pid))")
       (simp_all add: run fetchPlayers_simps del: cleanupReferences.simps)
qed

lemma player_delete_fields:
  "fs_lineups (apply_deletes env [PlayerDoc pid] fs) = fs_lineups fs"
  "fs_events (apply_deletes env [PlayerDoc pid] fs) = fs_events fs"
  "fs_matches (apply_deletes env [PlayerDoc pid] fs) = fs_matches fs"
  "fs_players (apply_deletes env [PlayerDoc pid] fs) =
     (if ce_fails env (DeleteDoc (PlayerDoc pid)) = None then without pid (fs_players fs)
      else fs_players fs)"
  by (simp_all add: apply_deletes_def succeeded_def)

lemma handleSubmit_player_create:
  assumes ok: "\<forall>c. ce_fails env c = None"
    and new: "pf_editingPlayer form = None"
  shows "fst (handleSubmit_player env form w) = Returned"
    and "\<exists>p. fs_players (w_store (snd (handleSubmit_player env form w))) =
               fs_players (w_store w) @ [(ce_auto_id env, p)]
             \<and> pl_jersey_number p = parseInt (pf_jerseyNumber form)"
proof -
  have up: "ce_fails env (UploadToCloudinary f) = None" for f
    using ok by simp
  have ad: "ce_fails env (AddDoc Players) = None"
    using ok by simp
  show "fst (handleSubmit_player env form w) = Returned"
    by (simp add: handleSubmit_player_def split: prod.splits option.splits)
  show "\<exists>p. fs_players (w_store (snd (handleSubmit_player env form w))) =
               fs_players (w_store w) @ [(ce_auto_id env, p)]
             \<and> pl_jersey_number p = parseInt (pf_jerseyNumber form)"
  proof (cases "pf_avatarFile form")
    case None
    then show ?thesis
      using new ad
      by (simp add: handleSubmit_player_def handleSubmit_player_try_def Let_def addDoc_player_def
          fetchPlayers_simps)
  next
    case (Some fname)
    then show ?thesis
      using new ad up [of fname]
      by (simp add: handleSubmit_player_def handleSubmit_player_try_def Let_def addDoc_player_def
          uploadToCloudinary_def fetchPlayers_simps split_beta)
  qed
qed

lemma handleSubmit_player_update:
  assumes ok: "\<forall>c. ce_fails env c = None"
    and ed: "pf_editingPlayer form = Some ep" and id: "pl_id ep = Some i" and ne: "i \<noteq> []"
    and ex: "i \<in> set (map fst (fs_players (w_store w)))"
  shows "fst (handleSubmit_player env form w) = Returned"
    and "map fst (fs_players (w_store (snd (handleSubmit_player env form w)))) =
           map fst (fs_players (w_store w))"
    and "\<forall>d \<in> set (fs_players (w_store (snd (handleSubmit_player env form w)))).
           fst d = i \<longrightarrow> pl_jersey_number (snd d) = parseInt (pf_jerseyNumber form)"
proof -
  have up: "ce_fails env (UploadToCloudinary f) = None" for f
    using ok by simp
  have ud: "ce_fails env (UpdateDoc (PlayerDoc i)) = None"
    using ok by simp
  have eid: "opt_or_null (pl_id ep) = Some i"
    using id ne by (simp add: opt_or_null_def or_null_def)
  show "fst (handleSubmit_player env form w) = Returned"
    by (simp add: handleSubmit_player_def split: prod.splits option.splits)
  have both: "map fst (fs_players (w_store (snd (handleSubmit_player env form w)))) =
           map fst (fs_players (w_store w))
      \<and> (\<forall>d \<in> set (fs_players (w_store (snd (handleSubmit_player env form w)))).
           fst d = i \<longrightarrow> pl_jersey_number (snd d) = parseInt (pf_jerseyNumber form))"
  proof (cases "pf_avatarFile form")
    case None
    then show ?thesis
      using ed eid ud ex
      by (auto simp: handleSubmit_player_def handleSubmit_player_try_def Let_def
          updateDoc_player_def fetchPlayers_simps)
  next
    case (Some fname)
    then show ?thesis
      using ed eid ud ex up [of fname]
      by (auto simp: handleSubmit_player_def handleSubmit_player_try_def Let_def
          updateDoc_player_def uploadToCloudinary_def fetchPlayers_simps split_beta)
  qed
  show "map fst (fs_players (w_store (snd (handleSubmit_player env form w)))) =
           map fst (fs_players (w_store w))"
    using both by blast
  show "\<forall>d \<in> set (fs_players (w_store (snd (handleSubmit_player env form w)))).
           fst d = i \<longrightarrow> pl_jersey_number (snd d) = parseInt (pf_jerseyNumber form)"
    using both by blast
qed

lemma admin_gated_append:
  "admin_gated seen (t1 @ t2) \<longleftrightarrow> admin_gated seen t1 \<and> admin_gated (rev t1 @ seen) t2"
  by (induction t1 arbitrary: seen) auto

lemma admin_gated_no_admin_request:
  "\<forall>x \<in> set t. \<not> is_admin_request x \<Longrightarrow> admin_gated seen t"
  by (induction t arbitrary: seen) auto

lemma just_verified_shape:
  "just_verified xs \<Longrightarrow>
     \<exists>s c e p seen. xs = GetIdToken # ShowToast s # Console c # ReauthenticateWithCredential e p True # seen"
  by (induction xs rule: just_verified.induct) simp_all

lemma admin_gated_split:
  "admin_gated seen t \<Longrightarrow> t = pre @ x # post \<Longrightarrow> is_admin_request x \<Longrightarrow> just_verified (rev pre @ seen)"
proof (induction pre arbitrary: seen t)
  case Nil
  then show ?case by simp
next
  case (Cons a pre)
  then have "admin_gated (a # seen) (pre @ x # post)" by simp
  from Cons.IH [OF this refl Cons.prems(3)] show ?case by simp
qed

lemma proceed_no_reauth:
  "\<forall>x \<in> set (snd (proceedWithUserCreation env st)). \<not> is_reauthentication x"
  by (auto simp: proceedWithUserCreation_def Let_def error_toast_of_def
      split: option.splits fetch_result.splits if_splits)

lemma proceed_shape:
  "(\<forall>x \<in> set (snd (proceedWithUserCreation env st)). \<not> is_create_request x)
   \<or> (\<exists>tok rest. ae_idToken env = Some tok \<and>
         snd (proceedWithUserCreation env st) =
           GetIdToken # CreateUserRequest \<lparr>cb_email = cu_email st, cb_password = cu_password st,
                          cb_full_name = cu_fullName st, cb_role = cu_role st,
                          cb_idToken = tok\<rparr> # rest
         \<and> (\<forall>x \<in> set rest. \<not> is_create_request x))"
  by (auto simp: proceedWithUserCreation_def Let_def error_toast_of_def
      split: option.splits fetch_result.splits if_splits)


lemma admin_request_is_create_request: "is_admin_request x \<Longrightarrow> is_create_request x"
  by (cases x) simp_all

lemma proceed_gated_after_verification:
  "admin_gated (ShowToast s # Console c # ReauthenticateWithCredential e p True # seen)
     (snd (proceedWithUserCreation env st))"
proof -
  from proceed_shape [of env st] show ?thesis
  proof
    assume "\<forall>x \<in> set (snd (proceedWithUserCreation env st)). \<not> is_create_request x"
    then have "\<forall>x \<in> set (snd (proceedWithUserCreation env st)). \<not> is_admin_request x"
      using admin_request_is_create_request by blast
    then show ?thesis by (rule admin_gated_no_admin_request)
  next
    assume "\<exists>tok rest. ae_idToken env = Some tok \<and>
         snd (proceedWithUserCreation env st) =
           GetIdToken # CreateUserRequest \<lparr>cb_email = cu_email st, cb_password = cu_password st,
                          cb_full_name = cu_fullName st, cb_role = cu_role st,
                          cb_idToken = tok\<rparr> # rest
         \<and> (\<forall>x \<in> set rest. \<not> is_create_request x)"
    then obtain tok rest where sh: "snd (proceedWithUserCreation env st) =
           GetIdToken # CreateUserRequest \<lparr>cb_email = cu_email st, cb_password = cu_password st,
                          cb_full_name = cu_fullName st, cb_role = cu_role st,
                          cb_idToken = tok\<rparr> # rest"
      and rest: "\<forall>x \<in> set rest. \<not> is_create_request x"
      by blast
    have "\<forall>x \<in> set rest. \<not> is_admin_request x"
      using rest admin_request_is_create_request by blast
    then have "admin_gated sn rest" for sn
      by (rule admin_gated_no_admin_request)
    then show ?thesis by (simp add: sh)
  qed
qed

lemma proceed_gated_not_admin:
  assumes "cu_role st \<noteq> Admin"
  shows "admin_gated seen (snd (proceedWithUserCreation env st))"
proof -
  have "\<forall>x \<in> set (snd (proceedWithUserCreation env st)). \<not> is_admin_request x"
    using proceed_shape [of env st] assms admin_request_is_create_request by fastforce
  then show ?thesis by (rule admin_gated_no_admin_request)
qed

lemma handleSubmit_createUser_gated:
  "admin_gated seen (snd (handleSubmit_createUser env st))"
  by (simp add: handleSubmit_createUser_def proceed_gated_not_admin)

lemma verifyCurrentPassword_gated:
  "admin_gated seen (snd (verifyCurrentPassword env st))"
proof (cases "ae_currentUser env")
  case None
  then show ?thesis by (simp add: verifyCurrentPassword_def)
next
  case (Some userEmail)
  show ?thesis
  proof (cases "trim (cu_currentPassword st) = [] \<or> \<not> ae_auth_currentUser env
                \<or> \<not> ae_credential_ok env userEmail (cu_currentPassword st)")
    case True
    then show ?thesis
      using Some by (auto simp: verifyCurrentPassword_def Let_def)
  next
    case False
    then have "snd (verifyCurrentPassword env st) =
        [ReauthenticateWithCredential userEmail (cu_currentPassword st) True,
         Console ''Password verification successful for creating admin user'',
         ShowToast \<lparr>t_title = ae_t env ''security.passwordVerified'',
                     t_description = ae_t env ''security.canNowActionAdmin'',
                     t_destructive = False\<rparr>]
        @ snd (proceedWithUserCreation env (st\<lparr>cu_isPasswordDialogOpen := False\<rparr>))"
      using Some by (simp add: verifyCurrentPassword_def Let_def split_beta)
    then show ?thesis
      by (simp add: admin_gated_append proceed_gated_after_verification)
  qed
qed

lemma ui_step_gated: "admin_gated seen (snd (ui_step env st ev))"
  by (cases ev) (simp_all add: handleSubmit_createUser_gated verifyCurrentPassword_gated)

lemma ui_run_gated: "admin_gated seen (snd (ui_run env st events))"
proof (induction events arbitrary: st seen)
  case Nil
  then show ?case by simp
next
  case (Cons ev events)
  have "snd (ui_run env st (ev # events)) =
          snd (ui_step env st ev) @ snd (ui_run env (fst (ui_step env st ev)) events)"
    by (simp add: split_beta)
  then show ?case
    by (simp add: admin_gated_append ui_step_gated Cons.IH del: ui_run.simps)
qed

lemma verify_request_needs_credential:
  assumes "CreateUserRequest b \<in> set (snd (verifyCurrentPassword env st))"
  shows "\<exists>userEmail rest. ae_currentUser env = Some userEmail
           \<and> ae_credential_ok env userEmail (cu_currentPassword st)
           \<and> snd (verifyCurrentPassword env st) =
               ReauthenticateWithCredential userEmail (cu_currentPassword st) True # rest"
proof (cases "ae_currentUser env")
  case None
  then show ?thesis using assms by (simp add: verifyCurrentPassword_def)
next
  case (Some userEmail)
  show ?thesis
  proof (cases "trim (cu_currentPassword st) = [] \<or> \<not> ae_auth_currentUser env
                \<or> \<not> ae_credential_ok env userEmail (cu_currentPassword st)")
    case True
    then show ?thesis
      using Some assms by (auto simp: verifyCurrentPassword_def Let_def split: if_splits)
  next
    case False
    then show ?thesis
      using Some by (simp add: verifyCurrentPassword_def Let_def split_beta)
  qed
qed

lemma proceed_sends_request:
  assumes "ae_auth_currentUser env" and "ae_idToken env = Some tok" and "tok \<noteq> []"
  shows "CreateUserRequest \<lparr>cb_email = cu_email st, cb_password = cu_password st,
            cb_full_name = cu_fullName st, cb_role = cu_role st, cb_idToken = tok\<rparr>
          \<in> set (snd (proceedWithUserCreation env st))"
  using assms
  by (simp add: proceedWithUserCreation_def Let_def error_toast_of_def split: fetch_result.splits option.splits)

section \<open>Theorems\<close>

text \<open>
  C1. For a match document with id \<open>mid\<close>, once the admin has confirmed, \<open>deleteMatch\<close>
  first reads the two subcollections; the deletion of the match document is issued only
  after the deletion of every lineup and event document has been issued and none of them
  has failed; and when no call fails, the run returns with the success toast and neither
  the match document nor any of its lineup or event documents remain.
\<close>

theorem deleteMatch_cascade:
  assumes "m_id match = Some mid" and "mid \<noteq> []"
    and "format_date (toDate (ce_runtime env) (m_match_date match)) = Inr ()"
    and "ce_confirm env"
  shows "\<exists>rest.
      w_calls (snd (deleteMatch env match w)) =
        w_calls w @ [GetDocs (Lineups mid), GetDocs (Events mid)] @ rest
      \<and> (DeleteDoc (MatchDoc mid) \<in> set rest \<longrightarrow>
            (\<forall>r \<in> set (sub_refs (w_store w) mid). ce_fails env (DeleteDoc r) = None)
            \<and> (\<exists>after. rest = map DeleteDoc (sub_refs (w_store w) mid) @ [DeleteDoc (MatchDoc mid)] @ after
                   \<and> DeleteDoc (MatchDoc mid) \<notin> set after))
      \<and> ((\<forall>c \<in> set ([GetDocs (Lineups mid), GetDocs (Events mid)]
                      @ map DeleteDoc (sub_refs (w_store w) mid) @ [DeleteDoc (MatchDoc mid)]).
              ce_fails env c = None) \<longrightarrow>
            fst (deleteMatch env match w) = Returned
            \<and> fs_lineups (w_store (snd (deleteMatch env match w))) mid = []
            \<and> fs_events (w_store (snd (deleteMatch env match w))) mid = []
            \<and> mid \<notin> set (map fst (fs_matches (w_store (snd (deleteMatch env match w)))))
            \<and> w_toasts (snd (deleteMatch env match w)) = w_toasts w @
                 [\<lparr>t_title = ''Match Deleted'',
                   t_description = ''Match against '' @ m_opponent match @
                     '' and all associated data have been deleted successfully.'',
                   t_destructive = False\<rparr>])"
proof -
  let ?reads = "[GetDocs (Lineups mid), GetDocs (Events mid)]"
  let ?subs = "sub_refs (w_store w) mid"
  let ?w1 = "issue ?reads w"
  let ?res = "deleteMatch env match w"
  let ?t = "\<lparr>t_title = ''Match Deleted'',
             t_description = ''Match against '' @ m_opponent match @
               '' and all associated data have been deleted successfully.'',
             t_destructive = False\<rparr>"
  let ?A = "\<lambda>rest. w_calls (snd ?res) = w_calls w @ ?reads @ rest"
  let ?B = "\<lambda>rest. DeleteDoc (MatchDoc mid) \<in> set rest \<longrightarrow>
            (\<forall>r \<in> set ?subs. ce_fails env (DeleteDoc r) = None)
            \<and> (\<exists>after. rest = map DeleteDoc ?subs @ [DeleteDoc (MatchDoc mid)] @ after
                   \<and> DeleteDoc (MatchDoc mid) \<notin> set after)"
  let ?ok = "\<forall>c \<in> set (?reads @ map DeleteDoc ?subs @ [DeleteDoc (MatchDoc mid)]).
              ce_fails env c = None"
  let ?C = "?ok \<longrightarrow>
            fst ?res = Returned
            \<and> fs_lineups (w_store (snd ?res)) mid = []
            \<and> fs_events (w_store (snd ?res)) mid = []
            \<and> mid \<notin> set (map fst (fs_matches (w_store (snd ?res))))
            \<and> w_toasts (snd ?res) = w_toasts w @ [?t]"
  note dm = deleteMatch_confirmed [OF assms, of w]
  have notin_subs: "DeleteDoc (MatchDoc mid) \<notin> set (map DeleteDoc ?subs)"
    by (auto simp: sub_refs_def)
  have "\<exists>rest. ?A rest \<and> ?B rest \<and> ?C"
  proof (cases "first_error env ?reads")
    case (Some e)
    have A: "?A []"
      by (simp add: dm deleteMatch_try_reads_fail [OF Some] del: first_error.simps)
    have B: "?B []" by simp
    have "\<not> ?ok"
      using Some by (auto split: option.splits)
    then have C: "?C" by blast
    from A B C show ?thesis by blast
  next
    case None
    note reads_ok = None
    show ?thesis
    proof (cases "first_error env (map DeleteDoc ?subs)")
      case (Some e)
      have A: "?A (map DeleteDoc ?subs)"
        by (simp add: dm deleteMatch_try_subs_fail [OF reads_ok Some] deleteAll_calls
            del: first_error.simps)
      have B: "?B (map DeleteDoc ?subs)"
        using notin_subs by blast
      have "\<not> (\<forall>c \<in> set (map DeleteDoc ?subs). ce_fails env c = None)"
        using Some first_error_None_iff [of env "map DeleteDoc ?subs"] by simp
      then have "\<not> ?ok" by auto
      then have C: "?C" by blast
      from A B C show ?thesis by blast
    next
      case None
      note subs_ok = None
      have all_ok: "\<forall>r \<in> set ?subs. ce_fails env (DeleteDoc r) = None"
        using subs_ok first_error_None_iff [of env "map DeleteDoc ?subs"] by simp
      let ?w2 = "snd (deleteAll env ?subs ?w1)"
      let ?w3 = "snd (deleteDoc env (MatchDoc mid) ?w2)"
      note try_eq = deleteMatch_try_subs_ok [OF reads_ok subs_ok, of match]
      have calls3: "w_calls ?w3 = w_calls w @ ?reads @ map DeleteDoc ?subs @ [DeleteDoc (MatchDoc mid)]"
        by (simp add: deleteAll_calls)
      show ?thesis
      proof (cases "ce_fails env (DeleteDoc (MatchDoc mid))")
        case (Some e)
        have "?res = (Returned, toast_error ''Error'' ''Failed to delete match.'' e ?w3)"
          by (simp add: dm try_eq Some Let_def)
        then have A: "?A (map DeleteDoc ?subs @ [DeleteDoc (MatchDoc mid)] @ [])"
          using calls3 by simp
        have B: "?B (map DeleteDoc ?subs @ [DeleteDoc (MatchDoc mid)] @ [])"
          using all_ok by (intro impI conjI exI[of _ "[]"]) simp_all
        have "\<not> ?ok"
          using Some by auto
        then have C: "?C" by blast
        from A B C show ?thesis by blast
      next
        case None
        have res: "?res = (Returned, fetchData env (show_toast ?t ?w3))"
          by (simp add: dm try_eq None Let_def)
        have A: "?A (map DeleteDoc ?subs @ [DeleteDoc (MatchDoc mid)]
              @ [GetDocs Matches, GetDocs Competitions])"
          using calls3 by (simp add: res)
        have B: "?B (map DeleteDoc ?subs @ [DeleteDoc (MatchDoc mid)]
              @ [GetDocs Matches, GetDocs Competitions])"
          using all_ok
          by (intro impI conjI exI[of _ "[GetDocs Matches, GetDocs Competitions]"]) simp_all
        have store: "w_store (snd ?res) = apply_deletes env (?subs @ [MatchDoc mid]) (w_store w)"
          by (simp add: res deleteAll_store apply_deletes_append)
        have succ: "succeeded env (?subs @ [MatchDoc mid]) = ?subs @ [MatchDoc mid]"
          using all_ok None by (intro succeeded_all) auto
        have in_l: "\<forall>d \<in> set (fs_lineups (w_store w) mid). LineupDoc mid (fst d) \<in> set ?subs"
          by (simp add: sub_refs_def)
        have in_e: "\<forall>d \<in> set (fs_events (w_store w) mid). EventDoc mid (fst d) \<in> set ?subs"
          by (simp add: sub_refs_def)
        have l: "fs_lineups (w_store (snd ?res)) mid = []"
          using in_l by (simp add: store apply_deletes_fields succ filter_empty_conv)
        have e: "fs_events (w_store (snd ?res)) mid = []"
          using in_e by (simp add: store apply_deletes_fields succ filter_empty_conv)
        have m: "mid \<notin> set (map fst (fs_matches (w_store (snd ?res))))"
          by (auto simp: store apply_deletes_fields succ)
        have t: "w_toasts (snd ?res) = w_toasts w @ [?t]"
          by (simp add: res deleteAll_toasts)
        have f: "fst ?res = Returned"
          by (simp add: res)
        have C: "?C" using l e m t f by blast
        from A B C show ?thesis by blast
      qed
    qed
  qed
  then show ?thesis by blast
qed

text \<open>Witness for C1: the first match of the example store is deleted with its documents.\<close>

theorem deleteMatch_cascade_witness:
  "fst (deleteMatch ex_env ex_match ex_world) = Returned
   \<and> fs_lineups (w_store (snd (deleteMatch ex_env ex_match ex_world))) ''m1'' = []
   \<and> fs_events (w_store (snd (deleteMatch ex_env ex_match ex_world))) ''m1'' = []
   \<and> ''m1'' \<notin> set (map fst (fs_matches (w_store (snd (deleteMatch ex_env ex_match ex_world)))))"
proof -
  have h1: "m_id ex_match = Some ''m1''"
    by (simp add: ex_match_def)
  have h2: "''m1'' \<noteq> []"
    by simp
  have h3: "format_date (toDate (ce_runtime ex_env) (m_match_date ex_match)) = Inr ()"
    by (simp add: ex_match_def ex_env_def ex_runtime_def toDate_def new_Date_string_def)
  have h4: "ce_confirm ex_env"
    by (simp add: ex_env_def)
  have ok: "\<forall>c \<in> set ([GetDocs (Lineups ''m1''), GetDocs (Events ''m1'')]
                      @ map DeleteDoc (sub_refs (w_store ex_world) ''m1'')
                      @ [DeleteDoc (MatchDoc ''m1'')]).
              ce_fails ex_env c = None"
    by (simp add: ex_env_def)
  from deleteMatch_cascade [OF h1 h2 h3 h4, of ex_world] ok show ?thesis
    by blast
qed

text \<open>
  C2. On the Create User page, in every session (any sequence of inputs, whatever the
  surroundings answer), a create-user request for the role admin is issued only directly
  after a successful \<open>reauthenticateWithCredential\<close>, its console line, its toast and the
  request for the id token. A submit with role admin issues no request and opens the
  password dialog; \<open>verifyCurrentPassword\<close> issues a request only when the
  re-authentication with the signed-in user's email and the entered current password has
  succeeded, and that re-authentication is its first effect. A submit with role user or
  player is \<open>proceedWithUserCreation\<close> itself: no re-authentication, and the request is
  sent as soon as an id token is available.
\<close>

theorem admin_creation_requires_reauthentication:
  "(\<forall>pre b post. snd (ui_run env st events) = pre @ CreateUserRequest b # post \<and> cb_role b = Admin \<longrightarrow>
       (\<exists>pre' e p c s. pre = pre' @ [ReauthenticateWithCredential e p True, Console c,
                                     ShowToast s, GetIdToken]))
   \<and> (cu_role st = Admin \<longrightarrow>
        (\<forall>x \<in> set (snd (handleSubmit_createUser env st)). \<not> is_create_request x)
        \<and> cu_isPasswordDialogOpen (fst (handleSubmit_createUser env st)))
   \<and> (\<forall>b. CreateUserRequest b \<in> set (snd (verifyCurrentPassword env st)) \<longrightarrow>
        (\<exists>userEmail rest. ae_currentUser env = Some userEmail
           \<and> ae_credential_ok env userEmail (cu_currentPassword st)
           \<and> snd (verifyCurrentPassword env st) =
               ReauthenticateWithCredential userEmail (cu_currentPassword st) True # rest))
   \<and> (cu_role st \<noteq> Admin \<longrightarrow>
        handleSubmit_createUser env st = proceedWithUserCreation env st
        \<and> (\<forall>x \<in> set (snd (handleSubmit_createUser env st)). \<not> is_reauthentication x)
        \<and> (ae_auth_currentUser env \<and> ae_idToken env = Some tok \<and> tok \<noteq> [] \<longrightarrow>
             CreateUserRequest \<lparr>cb_email = cu_email st, cb_password = cu_password st,
                 cb_full_name = cu_fullName st, cb_role = cu_role st, cb_idToken = tok\<rparr>
               \<in> set (snd (handleSubmit_createUser env st))))"
proof (intro conjI allI impI)
  fix pre b post
  assume a: "snd (ui_run env st events) = pre @ CreateUserRequest b # post \<and> cb_role b = Admin"
  have "admin_gated [] (snd (ui_run env st events))"
    by (rule ui_run_gated)
  moreover have "is_admin_request (CreateUserRequest b)"
    using a by simp
  ultimately have "just_verified (rev pre @ [])"
    using a admin_gated_split by blast
  then obtain s c e p seen where
    "rev pre = GetIdToken # ShowToast s # Console c # ReauthenticateWithCredential e p True # seen"
    using just_verified_shape by fastforce
  then have "pre = rev seen @ [ReauthenticateWithCredential e p True, Console c, ShowToast s, GetIdToken]"
    by (simp add: rev_swap)
  then show "\<exists>pre' e p c s. pre = pre' @ [ReauthenticateWithCredential e p True, Console c,
                                     ShowToast s, GetIdToken]"
    by blast
next
  assume "cu_role st = Admin"
  then show "\<forall>x \<in> set (snd (handleSubmit_createUser env st)). \<not> is_create_request x"
    by (simp add: handleSubmit_createUser_def)
next
  assume "cu_role st = Admin"
  then show "cu_isPasswordDialogOpen (fst (handleSubmit_createUser env st))"
    by (simp add: handleSubmit_createUser_def)
next
  fix b
  assume "CreateUserRequest b \<in> set (snd (verifyCurrentPassword env st))"
  then show "\<exists>userEmail rest. ae_currentUser env = Some userEmail
           \<and> ae_credential_ok env userEmail (cu_currentPassword st)
           \<and> snd (verifyCurrentPassword env st) =
               ReauthenticateWithCredential userEmail (cu_currentPassword st) True # rest"
    by (rule verify_request_needs_credential)
next
  assume r: "cu_role st \<noteq> Admin"
  show eq: "handleSubmit_createUser env st = proceedWithUserCreation env st"
    using r by (simp add: handleSubmit_createUser_def)
  show "\<forall>x \<in> set (snd (handleSubmit_createUser env st)). \<not> is_reauthentication x"
    using proceed_no_reauth [of env st] by (simp add: eq)
  show "CreateUserRequest \<lparr>cb_email = cu_email st, cb_password = cu_password st,
                 cb_full_name = cu_fullName st, cb_role = cu_role st, cb_idToken = tok\<rparr>
               \<in> set (snd (handleSubmit_createUser env st))"
    if "ae_auth_currentUser env \<and> ae_idToken env = Some tok \<and> tok \<noteq> []"
    using that proceed_sends_request [of env tok st] by (simp add: eq)
qed

text \<open>
  Witness for C2: in the example session the admin request follows the second, successful
  re-authentication; a submit with role admin opens the dialog, a submit with role user
  sends the request at once.
\<close>

theorem admin_creation_requires_reauthentication_witness:
  "snd (ui_run ex_auth_env ex_page ex_session) =
     [Console ''Creating admin user, requiring password verification'',
      ReauthenticateWithCredential ''admin@club.org'' ''wrong'' False,
      Console ''Password verification failed:'',
      ShowToast \<lparr>t_title = ''security.incorrectPassword'',
                  t_description = ''security.incorrectPasswordMessage'', t_destructive = True\<rparr>,
      ReauthenticateWithCredential ''admin@club.org'' ''s3cret'' True,
      Console ''Password verification successful for creating admin user'',
      ShowToast \<lparr>t_title = ''security.passwordVerified'',
                  t_description = ''security.canNowActionAdmin'', t_destructive = False\<rparr>,
      GetIdToken]
     @ CreateUserRequest \<lparr>cb_email = ''n@club.org'', cb_password = ''pw1234'', cb_full_name = ''New'',
          cb_role = Admin, cb_idToken = ''token''\<rparr>
     # [ShowToast \<lparr>t_title = ''users.userCreatedSuccessfully'',
                    t_description = ''users.userAddedAsRole'', t_destructive = False\<rparr>]
   \<and> (\<exists>pre' e p c s.
        [Console ''Creating admin user, requiring password verification'',
         ReauthenticateWithCredential ''admin@club.org'' ''wrong'' False,
         Console ''Password verification failed:'',
         ShowToast \<lparr>t_title = ''security.incorrectPassword'',
                     t_description = ''security.incorrectPasswordMessage'', t_destructive = True\<rparr>,
         ReauthenticateWithCredential ''admin@club.org'' ''s3cret'' True,
         Console ''Password verification successful for creating admin user'',
         ShowToast \<lparr>t_title = ''security.passwordVerified'',
                     t_description = ''security.canNowActionAdmin'', t_destructive = False\<rparr>,
         GetIdToken]
        = pre' @ [ReauthenticateWithCredential e p True, Console c, ShowToast s, GetIdToken])
   \<and> cu_isPasswordDialogOpen (fst (handleSubmit_createUser ex_auth_env (ex_page\<lparr>cu_role := Admin\<rparr>)))
   \<and> (\<exists>rest. snd (verifyCurrentPassword ex_auth_env
                 (ex_page\<lparr>cu_role := Admin, cu_currentPassword := ''s3cret'',
                           cu_isPasswordDialogOpen := True\<rparr>))
               = ReauthenticateWithCredential ''admin@club.org'' ''s3cret'' True # rest)
   \<and> CreateUserRequest \<lparr>cb_email = [], cb_password = [], cb_full_name = [], cb_role = User,
          cb_idToken = ''token''\<rparr>
        \<in> set (snd (handleSubmit_createUser ex_auth_env ex_page))"
proof -
  let ?pre = "[Console ''Creating admin user, requiring password verification'',
      ReauthenticateWithCredential ''admin@club.org'' ''wrong'' False,
      Console ''Password verification failed:'',
      ShowToast \<lparr>t_title = ''security.incorrectPassword'',
                  t_description = ''security.incorrectPasswordMessage'', t_destructive = True\<rparr>,
      ReauthenticateWithCredential ''admin@club.org'' ''s3cret'' True,
      Console ''Password verification successful for creating admin user'',
      ShowToast \<lparr>t_title = ''security.passwordVerified'',
                  t_description = ''security.canNowActionAdmin'', t_destructive = False\<rparr>,
      GetIdToken]"
  let ?b = "\<lparr>cb_email = ''n@club.org'', cb_password = ''pw1234'', cb_full_name = ''New'',
          cb_role = Admin, cb_idToken = ''token''\<rparr>"
  let ?post = "[ShowToast \<lparr>t_title = ''users.userCreatedSuccessfully'',
                    t_description = ''users.userAddedAsRole'', t_destructive = False\<rparr>]"
  let ?admin = "ex_page\<lparr>cu_role := Admin\<rparr>"
  let ?verifying = "ex_page\<lparr>cu_role := Admin, cu_currentPassword := ''s3cret'',
                           cu_isPasswordDialogOpen := True\<rparr>"
  have run: "snd (ui_run ex_auth_env ex_page ex_session) = ?pre @ CreateUserRequest ?b # ?post"
    by (simp add: ex_session_def ex_page_def ex_auth_env_def handleSubmit_createUser_def
        verifyCurrentPassword_def proceedWithUserCreation_def Let_def trim_def is_white_def)
  have role: "cb_role ?b = Admin"
    by simp
  have admin: "cu_role ?admin = Admin"
    by simp
  have other: "cu_role ex_page \<noteq> Admin"
    by (simp add: ex_page_def)
  have tok: "ae_auth_currentUser ex_auth_env \<and> ae_idToken ex_auth_env = Some ''token'' \<and> ''token'' \<noteq> []"
    by (simp add: ex_auth_env_def)
  have fields: "cu_email ex_page = []" "cu_password ex_page = []" "cu_fullName ex_page = []"
      "cu_role ex_page = User"
    by (simp_all add: ex_page_def)
  have requested: "CreateUserRequest \<lparr>cb_email = [], cb_password = [], cb_full_name = [],
          cb_role = Admin, cb_idToken = ''token''\<rparr>
        \<in> set (snd (verifyCurrentPassword ex_auth_env ?verifying))"
    by (simp add: ex_page_def ex_auth_env_def verifyCurrentPassword_def
        proceedWithUserCreation_def Let_def trim_def is_white_def)
  have entered: "cu_currentPassword ?verifying = ''s3cret''"
    by simp
  have user: "ae_currentUser ex_auth_env = Some ''admin@club.org''"
    by (simp add: ex_auth_env_def)
  from admin_creation_requires_reauthentication [of ex_auth_env ex_page ex_session "''token''"]
       run role
  have gate: "\<exists>pre' e p c s. ?pre = pre' @ [ReauthenticateWithCredential e p True, Console c,
                                     ShowToast s, GetIdToken]"
    by blast
  from admin_creation_requires_reauthentication [of ex_auth_env ?admin ex_session "''token''"]
       admin
  have dialog: "cu_isPasswordDialogOpen (fst (handleSubmit_createUser ex_auth_env ?admin))"
    by blast
  from admin_creation_requires_reauthentication [of ex_auth_env ?verifying ex_session "''token''"]
       requested
  have "\<exists>userEmail rest. ae_currentUser ex_auth_env = Some userEmail
           \<and> ae_credential_ok ex_auth_env userEmail (cu_currentPassword ?verifying)
           \<and> snd (verifyCurrentPassword ex_auth_env ?verifying) =
               ReauthenticateWithCredential userEmail (cu_currentPassword ?verifying) True # rest"
    by blast
  then have first: "\<exists>rest. snd (verifyCurrentPassword ex_auth_env ?verifying)
               = ReauthenticateWithCredential ''admin@club.org'' ''s3cret'' True # rest"
    using user entered by auto
  from admin_creation_requires_reauthentication [of ex_auth_env ex_page ex_session "''token''"]
       other tok
  have "CreateUserRequest \<lparr>cb_email = cu_email ex_page, cb_password = cu_password ex_page,
                 cb_full_name = cu_fullName ex_page, cb_role = cu_role ex_page, cb_idToken = ''token''\<rparr>
               \<in> set (snd (handleSubmit_createUser ex_auth_env ex_page))"
    by blast
  then have sent: "CreateUserRequest \<lparr>cb_email = [], cb_password = [], cb_full_name = [], cb_role = User,
          cb_idToken = ''token''\<rparr>
        \<in> set (snd (handleSubmit_createUser ex_auth_env ex_page))"
    by (simp add: fields)
  show ?thesis
    using run gate dialog first sent by blast
qed




text \<open>
  C4 as stated fails when a call of the run rejects. In the example store player \<open>p1\<close>
  has the lineup entries \<open>l1\<close> (match \<open>m1\<close>) and \<open>l3\<close> (match \<open>m2\<close>) and the event
  \<open>e1\<close> (match \<open>m1\<close>). When the read of the events of \<open>m1\<close> rejects, \<open>deletePlayer\<close>
  has deleted \<open>l1\<close> and stops: \<open>l3\<close> and \<open>e1\<close> remain, the delete of the player
  document is never issued, the player document stays, and the error toast is shown.
\<close>

theorem deletePlayer_cascade_counterexample:
  "ce_confirm ex_env_events_unavailable
   \<and> ce_fails ex_env_events_unavailable (GetDocs (Events ''m1'')) = Some ''unavailable''
   \<and> map fst (fs_matches (w_store ex_world)) = [''m1'', ''m2'']
   \<and> map fst (fs_lineups (w_store ex_world) ''m1'') = [''l1'', ''l2'']
   \<and> map (lu_player_id \<circ> snd) (fs_lineups (w_store ex_world) ''m1'') = [''p1'', ''p2'']
   \<and> map fst (fs_lineups (w_store ex_world) ''m2'') = [''l3'']
   \<and> map (lu_player_id \<circ> snd) (fs_lineups (w_store ex_world) ''m2'') = [''p1'']
   \<and> map fst (fs_events (w_store ex_world) ''m1'') = [''e1'', ''e2'']
   \<and> map (ev_player_id \<circ> snd) (fs_events (w_store ex_world) ''m1'') = [''p1'', ''p2'']
   \<and> map fst (fs_players (w_store ex_world)) = [''p1'', ''p2'']
   \<and> fst (deletePlayer ex_env_events_unavailable ((ex_player ''Abebe'')\<lparr>pl_id := Some ''p1''\<rparr>) ex_world)
       = Returned
   \<and> map fst (fs_lineups (w_store (snd (deletePlayer ex_env_events_unavailable
         ((ex_player ''Abebe'')\<lparr>pl_id := Some ''p1''\<rparr>) ex_world))) ''m1'') = [''l2'']
   \<and> map fst (fs_lineups (w_store (snd (deletePlayer ex_env_events_unavailable
         ((ex_player ''Abebe'')\<lparr>pl_id := Some ''p1''\<rparr>) ex_world))) ''m2'') = [''l3'']
   \<and> map fst (fs_events (w_store (snd (deletePlayer ex_env_events_unavailable
         ((ex_player ''Abebe'')\<lparr>pl_id := Some ''p1''\<rparr>) ex_world))) ''m1'') = [''e1'', ''e2'']
   \<and> map fst (fs_players (w_store (snd (deletePlayer ex_env_events_unavailable
         ((ex_player ''Abebe'')\<lparr>pl_id := Some ''p1''\<rparr>) ex_world)))) = [''p1'', ''p2'']
   \<and> w_calls (snd (deletePlayer ex_env_events_unavailable
         ((ex_player ''Abebe'')\<lparr>pl_id := Some ''p1''\<rparr>) ex_world))
       = [GetDocs Matches, GetDocs (Lineups ''m1''), DeleteDoc (LineupDoc ''m1'' ''l1''),
          GetDocs (Events ''m1'')]
   \<and> w_toasts (snd (deletePlayer ex_env_events_unavailable
         ((ex_player ''Abebe'')\<lparr>pl_id := Some ''p1''\<rparr>) ex_world))
       = [\<lparr>t_title = ''common.error'', t_description = ''unavailable'', t_destructive = True\<rparr>]"
  by (simp add: deletePlayer_def deletePlayer_try_def ex_env_events_unavailable_def ex_env_def
      ex_world_def ex_store_def ex_lineup_def ex_event_def Let_def split_beta without_def
      deleteDoc_def issue_def show_toast_def)

text \<open>
  C4, amended. For a player with id \<open>pid\<close>, once the admin has confirmed, and with
  document ids distinct within the lineups and the events subcollection of each match:
  on every run \<open>deletePlayer\<close> returns, the lineup and event documents that reference
  other players are left as they were, no document is added, and the subcollections under
  ids without a match document and the match documents are unchanged. The delete of the
  player document is issued only after every earlier call of the run, the reads and the
  deletes of the references, has succeeded; then the lineups and events subcollections of
  every match have lost exactly the documents whose \<open>player_id\<close> is \<open>pid\<close>, the delete
  is followed by nothing but the reload of the players, and the player document is gone
  unless that delete itself rejects. When the delete of the player document is not issued,
  a call of the run has rejected and the player documents are unchanged (the references
  may then be deleted in part).
\<close>

theorem deletePlayer_cascade:
  assumes "pl_id player = Some pid" and "pid \<noteq> []" and "ce_confirm env"
    and "distinct_ids (w_store w) (map fst (fs_matches (w_store w)))"
  shows "fst (deletePlayer env player w) = Returned
    \<and> (\<forall>m. filter (\<lambda>d. lu_player_id (snd d) \<noteq> pid) (fs_lineups (w_store (snd (deletePlayer env player w))) m)
            = filter (\<lambda>d. lu_player_id (snd d) \<noteq> pid) (fs_lineups (w_store w) m)
          \<and> set (fs_lineups (w_store (snd (deletePlayer env player w))) m) \<subseteq> set (fs_lineups (w_store w) m)
          \<and> filter (\<lambda>d. ev_player_id (snd d) \<noteq> pid) (fs_events (w_store (snd (deletePlayer env player w))) m)
            = filter (\<lambda>d. ev_player_id (snd d) \<noteq> pid) (fs_events (w_store w) m)
          \<and> set (fs_events (w_store (snd (deletePlayer env player w))) m) \<subseteq> set (fs_events (w_store w) m))
    \<and> (\<forall>m. m \<notin> set (map fst (fs_matches (w_store w))) \<longrightarrow>
            fs_lineups (w_store (snd (deletePlayer env player w))) m = fs_lineups (w_store w) m
          \<and> fs_events (w_store (snd (deletePlayer env player w))) m = fs_events (w_store w) m)
    \<and> fs_matches (w_store (snd (deletePlayer env player w))) = fs_matches (w_store w)
    \<and> (DeleteDoc (PlayerDoc pid) \<in> set (calls_since w (snd (deletePlayer env player w))) \<longrightarrow>
          (\<exists>pre. calls_since w (snd (deletePlayer env player w)) =
                   pre @ DeleteDoc (PlayerDoc pid) #
                     (if ce_fails env (DeleteDoc (PlayerDoc pid)) = None then [GetDocs Players] else [])
                \<and> DeleteDoc (PlayerDoc pid) \<notin> set pre
                \<and> (\<forall>c \<in> set pre. ce_fails env c = None))
          \<and> (\<forall>m \<in> set (map fst (fs_matches (w_store w))).
                fs_lineups (w_store (snd (deletePlayer env player w))) m
                  = filter (\<lambda>d. lu_player_id (snd d) \<noteq> pid) (fs_lineups (w_store w) m)
                \<and> fs_events (w_store (snd (deletePlayer env player w))) m
                  = filter (\<lambda>d. ev_player_id (snd d) \<noteq> pid) (fs_events (w_store w) m))
          \<and> fs_players (w_store (snd (deletePlayer env player w))) =
               (if ce_fails env (DeleteDoc (PlayerDoc pid)) = None
                then without pid (fs_players (w_store w)) else fs_players (w_store w)))
    \<and> (DeleteDoc (PlayerDoc pid) \<notin> set (calls_since w (snd (deletePlayer env player w))) \<longrightarrow>
          (\<exists>c \<in> set (calls_since w (snd (deletePlayer env player w))). ce_fails env c \<noteq> None)
          \<and> fs_players (w_store (snd (deletePlayer env player w))) = fs_players (w_store w))"
proof -
  let ?ms = "map fst (fs_matches (w_store w))"
  let ?w1 = "issue [GetDocs Matches] w"
  let ?r = "cleanupReferences env pid ?ms ?w1"
  let ?w2 = "snd (snd ?r)"
  let ?res = "snd (deletePlayer env player w)"
  let ?del = "DeleteDoc (PlayerDoc pid)"
  let ?otherL = "\<lambda>d. lu_player_id (snd d) \<noteq> pid"
  let ?otherE = "\<lambda>d. ev_player_id (snd d) \<noteq> pid"
  have d1: "distinct_ids (w_store ?w1) ?ms"
    using assms(4) by simp
  note sh = cleanupReferences_shrinks [where env = env and pid = pid and ms = ?ms and w = ?w1]
  note ot = cleanupReferences_others [OF d1, where env = env and pid = pid]
  obtain cs where cs: "w_calls ?w2 = w_calls ?w1 @ cs" "?del \<notin> set cs"
      "(fst ?r = None \<and> fst (snd ?r) = None) \<longleftrightarrow> (\<forall>c \<in> set cs. ce_fails env c = None)"
    using cleanupReferences_calls_any [where env = env and pid = pid and ms = ?ms and w = ?w1]
    by blast
  have w2: "w_calls ?w2 = w_calls w @ GetDocs Matches # cs"
    by (simp add: cs(1))
  have store: "w_store ?res = w_store w \<or> w_store ?res = w_store ?w2
      \<or> w_store ?res = apply_deletes env [PlayerDoc pid] (w_store ?w2)"
  proof (cases "ce_fails env (GetDocs Matches)")
    case (Some e)
    then show ?thesis
      using deletePlayer_matches_fail(1) [OF assms(1-3) Some] by simp
  next
    case None
    show ?thesis
    proof (cases "fst ?r = None \<and> fst (snd ?r) = None")
      case True
      then show ?thesis
        using deletePlayer_cleanup_ok(1) [OF assms(1-3) None] by simp
    next
      case False
      then show ?thesis
        using deletePlayer_cleanup_fail(1) [OF assms(1-3) None] by simp
    qed
  qed
  have L: "fs_lineups (w_store ?res) = fs_lineups (w_store w)
      \<or> fs_lineups (w_store ?res) = fs_lineups (w_store ?w2)"
    using store by (auto simp: player_delete_fields)
  have E: "fs_events (w_store ?res) = fs_events (w_store w)
      \<or> fs_events (w_store ?res) = fs_events (w_store ?w2)"
    using store by (auto simp: player_delete_fields)
  have M: "fs_matches (w_store ?res) = fs_matches (w_store w)
      \<or> fs_matches (w_store ?res) = fs_matches (w_store ?w2)"
    using store by (auto simp: player_delete_fields)
  have others: "filter ?otherL (fs_lineups (w_store ?res) m) = filter ?otherL (fs_lineups (w_store w) m)
          \<and> set (fs_lineups (w_store ?res) m) \<subseteq> set (fs_lineups (w_store w) m)
          \<and> filter ?otherE (fs_events (w_store ?res) m) = filter ?otherE (fs_events (w_store w) m)
          \<and> set (fs_events (w_store ?res) m) \<subseteq> set (fs_events (w_store w) m)" for m
    using L E sh [of m] ot [of m]
    by (elim disjE) simp_all
  have outside: "m \<notin> set ?ms \<longrightarrow>
            fs_lineups (w_store ?res) m = fs_lineups (w_store w) m
          \<and> fs_events (w_store ?res) m = fs_events (w_store w) m" for m
    using L E sh [of m]
    by (elim disjE) simp_all
  have matches: "fs_matches (w_store ?res) = fs_matches (w_store w)"
    using M sh [of undefined]
    by (elim disjE) simp_all
  have issued: "?del \<in> set (calls_since w ?res) \<longrightarrow>
          (\<exists>pre. calls_since w ?res =
                   pre @ ?del # (if ce_fails env ?del = None then [GetDocs Players] else [])
                \<and> ?del \<notin> set pre \<and> (\<forall>c \<in> set pre. ce_fails env c = None))
          \<and> (\<forall>m \<in> set ?ms.
                fs_lineups (w_store ?res) m = filter ?otherL (fs_lineups (w_store w) m)
                \<and> fs_events (w_store ?res) m = filter ?otherE (fs_events (w_store w) m))
          \<and> fs_players (w_store ?res) =
               (if ce_fails env ?del = None
                then without pid (fs_players (w_store w)) else fs_players (w_store w))"
  proof
    assume i: "?del \<in> set (calls_since w ?res)"
    have g: "ce_fails env (GetDocs Matches) = None"
    proof (cases "ce_fails env (GetDocs Matches)")
      case (Some e)
      have "calls_since w ?res = [GetDocs Matches]"
        using deletePlayer_matches_fail(2) [OF assms(1-3) Some, of w] by (rule calls_since_append)
      then show ?thesis using i by simp
    qed simp
    have ok: "fst ?r = None \<and> fst (snd ?r) = None"
    proof (rule ccontr)
      assume n: "\<not> (fst ?r = None \<and> fst (snd ?r) = None)"
      have "w_calls ?res = w_calls w @ GetDocs Matches # cs"
        using deletePlayer_cleanup_fail(2) [OF assms(1-3) g n] w2 by simp
      then have "calls_since w ?res = GetDocs Matches # cs"
        by (rule calls_since_append)
      then show False using i cs(2) by simp
    qed
    note r = deletePlayer_cleanup_ok [OF assms(1-3) g conjunct1 [OF ok] conjunct2 [OF ok]]
    have "w_calls ?res = w_calls w @ ((GetDocs Matches # cs) @ ?del #
             (if ce_fails env ?del = None then [GetDocs Players] else []))"
      using r(2) w2 by simp
    then have c: "calls_since w ?res = (GetDocs Matches # cs) @ ?del #
             (if ce_fails env ?del = None then [GetDocs Players] else [])"
      by (rule calls_since_append)
    have pre: "\<exists>pre. calls_since w ?res =
                   pre @ ?del # (if ce_fails env ?del = None then [GetDocs Players] else [])
                \<and> ?del \<notin> set pre \<and> (\<forall>c \<in> set pre. ce_fails env c = None)"
      using c cs(2) cs(3) ok g by (intro exI [of _ "GetDocs Matches # cs"]) simp
    have complete: "fs_lineups (w_store ?res) m = filter ?otherL (fs_lineups (w_store w) m)
                \<and> fs_events (w_store ?res) m = filter ?otherE (fs_events (w_store w) m)"
      if m: "m \<in> set ?ms" for m
    proof -
      note c = cleanupReferences_complete [OF d1 conjunct1 [OF ok] conjunct2 [OF ok] m]
      have l: "fs_lineups (w_store ?w2) m = filter ?otherL (fs_lineups (w_store ?w2) m)"
        using c by (simp add: filter_id_conv)
      have e: "fs_events (w_store ?w2) m = filter ?otherE (fs_events (w_store ?w2) m)"
        using c by (simp add: filter_id_conv)
      have "fs_lineups (w_store ?w2) m = filter ?otherL (fs_lineups (w_store w) m)"
        using l ot [of m] by simp
      moreover have "fs_events (w_store ?w2) m = filter ?otherE (fs_events (w_store w) m)"
        using e ot [of m] by simp
      ultimately show ?thesis
        by (simp add: r(1) player_delete_fields)
    qed
    have players: "fs_players (w_store ?res) =
               (if ce_fails env ?del = None
                then without pid (fs_players (w_store w)) else fs_players (w_store w))"
      using sh [of undefined]
      by (simp add: r(1) player_delete_fields)
    show "(\<exists>pre. calls_since w ?res =
                   pre @ ?del # (if ce_fails env ?del = None then [GetDocs Players] else [])
                \<and> ?del \<notin> set pre \<and> (\<forall>c \<in> set pre. ce_fails env c = None))
          \<and> (\<forall>m \<in> set ?ms.
                fs_lineups (w_store ?res) m = filter ?otherL (fs_lineups (w_store w) m)
                \<and> fs_events (w_store ?res) m = filter ?otherE (fs_events (w_store w) m))
          \<and> fs_players (w_store ?res) =
               (if ce_fails env ?del = None
                then without pid (fs_players (w_store w)) else fs_players (w_store w))"
      using pre complete players by blast
  qed
  have not_issued: "?del \<notin> set (calls_since w ?res) \<longrightarrow>
          (\<exists>c \<in> set (calls_since w ?res). ce_fails env c \<noteq> None)
          \<and> fs_players (w_store ?res) = fs_players (w_store w)"
  proof
    assume n: "?del \<notin> set (calls_since w ?res)"
    show "(\<exists>c \<in> set (calls_since w ?res). ce_fails env c \<noteq> None)
          \<and> fs_players (w_store ?res) = fs_players (w_store w)"
    proof (cases "ce_fails env (GetDocs Matches)")
      case (Some e)
      have "calls_since w ?res = [GetDocs Matches]"
        using deletePlayer_matches_fail(2) [OF assms(1-3) Some, of w] by (rule calls_since_append)
      then show ?thesis
        using Some deletePlayer_matches_fail(1) [OF assms(1-3) Some, of w] by simp
    next
      case None
      have bad: "\<not> (fst ?r = None \<and> fst (snd ?r) = None)"
      proof
        assume ok: "fst ?r = None \<and> fst (snd ?r) = None"
        note r = deletePlayer_cleanup_ok [OF assms(1-3) None conjunct1 [OF ok] conjunct2 [OF ok]]
        have "w_calls ?res = w_calls w @ ((GetDocs Matches # cs) @ ?del #
             (if ce_fails env ?del = None then [GetDocs Players] else []))"
          using r(2) w2 by simp
        then have "calls_since w ?res = (GetDocs Matches # cs) @ ?del #
             (if ce_fails env ?del = None then [GetDocs Players] else [])"
          by (rule calls_since_append)
        then show False using n by simp
      qed
      note f = deletePlayer_cleanup_fail [OF assms(1-3) None bad]
      have "w_calls ?res = w_calls w @ GetDocs Matches # cs"
        using f(2) w2 by simp
      then have c: "calls_since w ?res = GetDocs Matches # cs"
        by (rule calls_since_append)
      have "\<exists>c \<in> set cs. ce_fails env c \<noteq> None"
        using bad cs(3) by blast
      then show ?thesis
        using c sh [of undefined] by (simp add: f(1))
    qed
  qed
  show ?thesis
    using deletePlayer_returns [of env player w] others outside matches issued not_issued
    by blast
qed

text \<open>
  Witness for the amended C4, on the example store. When every call succeeds, deleting
  player \<open>p1\<close> leaves the lineup entry and the event of player \<open>p2\<close> only, and the
  player \<open>p2\<close>. When the events of \<open>m1\<close> cannot be read, the entries of player \<open>p2\<close>
  are as before and both players are kept.
\<close>

theorem deletePlayer_cascade_witness:
  "fs_lineups (w_store (snd (deletePlayer ex_env ((ex_player ''Abebe'')\<lparr>pl_id := Some ''p1''\<rparr>) ex_world))) ''m1''
     = [(''l2'', ex_lineup ''p2'')]
   \<and> fs_lineups (w_store (snd (deletePlayer ex_env ((ex_player ''Abebe'')\<lparr>pl_id := Some ''p1''\<rparr>) ex_world))) ''m2''
     = []
   \<and> fs_events (w_store (snd (deletePlayer ex_env ((ex_player ''Abebe'')\<lparr>pl_id := Some ''p1''\<rparr>) ex_world))) ''m1''
     = [(''e2'', ex_event ''p2'')]
   \<and> map fst (fs_players (w_store (snd (deletePlayer ex_env ((ex_player ''Abebe'')\<lparr>pl_id := Some ''p1''\<rparr>) ex_world))))
     = [''p2'']
   \<and> filter (\<lambda>d. lu_player_id (snd d) \<noteq> ''p1'')
        (fs_lineups (w_store (snd (deletePlayer ex_env_events_unavailable
           ((ex_player ''Abebe'')\<lparr>pl_id := Some ''p1''\<rparr>) ex_world))) ''m1'')
     = [(''l2'', ex_lineup ''p2'')]
   \<and> filter (\<lambda>d. ev_player_id (snd d) \<noteq> ''p1'')
        (fs_events (w_store (snd (deletePlayer ex_env_events_unavailable
           ((ex_player ''Abebe'')\<lparr>pl_id := Some ''p1''\<rparr>) ex_world))) ''m1'')
     = [(''e2'', ex_event ''p2'')]
   \<and> map fst (fs_players (w_store (snd (deletePlayer ex_env_events_unavailable
           ((ex_player ''Abebe'')\<lparr>pl_id := Some ''p1''\<rparr>) ex_world))))
     = [''p1'', ''p2'']
   \<and> fs_lineups (w_store (snd (deletePlayer ex_env_events_unavailable
           ((ex_player ''Abebe'')\<lparr>pl_id := Some ''p1''\<rparr>) ex_world))) ''m3''
     = fs_lineups (w_store ex_world) ''m3''"
proof -
  let ?p = "(ex_player ''Abebe'')\<lparr>pl_id := Some ''p1''\<rparr>"
  let ?ok = "snd (deletePlayer ex_env ?p ex_world)"
  let ?part = "snd (deletePlayer ex_env_events_unavailable ?p ex_world)"
  have h1: "pl_id ?p = Some ''p1''" by simp
  have h2: "''p1'' \<noteq> []" by simp
  have h3: "ce_confirm ex_env" "ce_confirm ex_env_events_unavailable"
    by (simp_all add: ex_env_events_unavailable_def ex_env_def)
  have h4: "distinct_ids (w_store ex_world) (map fst (fs_matches (w_store ex_world)))"
    by (simp add: distinct_ids_def ex_world_def ex_store_def)
  note a = deletePlayer_cascade [OF h1 h2 h3(1) h4]
  note b = deletePlayer_cascade [OF h1 h2 h3(2) h4]
  have "DeleteDoc (PlayerDoc ''p1'') \<notin> set (calls_since ex_world ?ok) \<longrightarrow>
          (\<exists>c \<in> set (calls_since ex_world ?ok). ce_fails ex_env c \<noteq> None)"
    using a [THEN conjunct2, THEN conjunct2, THEN conjunct2, THEN conjunct2, THEN conjunct2]
    by blast
  then have issued: "DeleteDoc (PlayerDoc ''p1'') \<in> set (calls_since ex_world ?ok)"
    by (simp add: ex_env_def)
  have ms: "set (map fst (fs_matches (w_store ex_world))) = {''m1'', ''m2''}"
    by (simp add: ex_world_def ex_store_def)
  have cleaned: "(\<forall>m \<in> {''m1'', ''m2''}.
        fs_lineups (w_store ?ok) m
          = filter (\<lambda>d. lu_player_id (snd d) \<noteq> ''p1'') (fs_lineups (w_store ex_world) m)
        \<and> fs_events (w_store ?ok) m
          = filter (\<lambda>d. ev_player_id (snd d) \<noteq> ''p1'') (fs_events (w_store ex_world) m))
      \<and> fs_players (w_store ?ok) =
           (if ce_fails ex_env (DeleteDoc (PlayerDoc ''p1'')) = None
            then without ''p1'' (fs_players (w_store ex_world)) else fs_players (w_store ex_world))"
    using a [THEN conjunct2, THEN conjunct2, THEN conjunct2, THEN conjunct2, THEN conjunct1] issued
    unfolding ms by blast
  have c1: "fs_lineups (w_store ?ok) ''m1'' = [(''l2'', ex_lineup ''p2'')]"
      "fs_lineups (w_store ?ok) ''m2'' = []"
      "fs_events (w_store ?ok) ''m1'' = [(''e2'', ex_event ''p2'')]"
      "map fst (fs_players (w_store ?ok)) = [''p2'']"
    using cleaned
    by (simp_all add: ex_world_def ex_store_def ex_lineup_def ex_event_def ex_env_def without_def)
  have others: "filter (\<lambda>d. lu_player_id (snd d) \<noteq> ''p1'') (fs_lineups (w_store ?part) ''m1'')
        = filter (\<lambda>d. lu_player_id (snd d) \<noteq> ''p1'') (fs_lineups (w_store ex_world) ''m1'')
      \<and> filter (\<lambda>d. ev_player_id (snd d) \<noteq> ''p1'') (fs_events (w_store ?part) ''m1'')
        = filter (\<lambda>d. ev_player_id (snd d) \<noteq> ''p1'') (fs_events (w_store ex_world) ''m1'')"
    using b [THEN conjunct2, THEN conjunct1] by blast
  have calls: "calls_since ex_world ?part =
      [GetDocs Matches, GetDocs (Lineups ''m1''), DeleteDoc (LineupDoc ''m1'' ''l1''),
       GetDocs (Events ''m1'')]"
    by (simp add: calls_since_def deletePlayer_def deletePlayer_try_def
        ex_env_events_unavailable_def ex_env_def ex_world_def ex_store_def ex_lineup_def
        ex_event_def Let_def split_beta without_def deleteDoc_def issue_def show_toast_def)
  have kept: "fs_players (w_store ?part) = fs_players (w_store ex_world)"
    using b [THEN conjunct2, THEN conjunct2, THEN conjunct2, THEN conjunct2, THEN conjunct2]
    by (simp add: calls)
  have c2: "filter (\<lambda>d. lu_player_id (snd d) \<noteq> ''p1'') (fs_lineups (w_store ?part) ''m1'')
        = [(''l2'', ex_lineup ''p2'')]"
      "filter (\<lambda>d. ev_player_id (snd d) \<noteq> ''p1'') (fs_events (w_store ?part) ''m1'')
        = [(''e2'', ex_event ''p2'')]"
      "map fst (fs_players (w_store ?part)) = [''p1'', ''p2'']"
    using others kept
    by (simp_all add: ex_world_def ex_store_def ex_lineup_def ex_event_def)
  have "''m3'' \<notin> set (map fst (fs_matches (w_store ex_world)))"
    by (simp add: ex_world_def ex_store_def)
  then have c3: "fs_lineups (w_store ?part) ''m3'' = fs_lineups (w_store ex_world) ''m3''"
    using b [THEN conjunct2, THEN conjunct2, THEN conjunct1] by blast
  show ?thesis
    using c1 c2 c3 by blast
qed

text \<open>
  C5. The player form's \<open>handleSubmit\<close> checks no range: whatever string was entered as
  jersey number, a save that goes through stores \<open>parseInt\<close> of that string as the
  \<open>jersey_number\<close> of the document it adds, or of the document it updates.
\<close>

theorem handleSubmit_player_stores_parseInt:
  "(\<forall>c. ce_fails env c = None) \<longrightarrow>
     (pf_editingPlayer form = None \<longrightarrow>
        (\<exists>p. fs_players (w_store (snd (handleSubmit_player env form w))) =
               fs_players (w_store w) @ [(ce_auto_id env, p)]
             \<and> pl_jersey_number p = parseInt (pf_jerseyNumber form)))
     \<and> (pf_editingPlayer form = Some ep \<and> pl_id ep = Some i \<and> i \<noteq> []
          \<and> i \<in> set (map fst (fs_players (w_store w))) \<longrightarrow>
        map fst (fs_players (w_store (snd (handleSubmit_player env form w)))) =
           map fst (fs_players (w_store w))
        \<and> (\<forall>d \<in> set (fs_players (w_store (snd (handleSubmit_player env form w)))).
             fst d = i \<longrightarrow> pl_jersey_number (snd d) = parseInt (pf_jerseyNumber form)))"
proof (intro impI conjI)
  assume ok: "\<forall>c. ce_fails env c = None"
  show "\<exists>p. fs_players (w_store (snd (handleSubmit_player env form w))) =
               fs_players (w_store w) @ [(ce_auto_id env, p)]
             \<and> pl_jersey_number p = parseInt (pf_jerseyNumber form)"
    if "pf_editingPlayer form = None"
    by (rule handleSubmit_player_create(2) [OF ok that])
  assume ed: "pf_editingPlayer form = Some ep \<and> pl_id ep = Some i \<and> i \<noteq> []
          \<and> i \<in> set (map fst (fs_players (w_store w)))"
  then have h: "pf_editingPlayer form = Some ep" "pl_id ep = Some i" "i \<noteq> []"
      "i \<in> set (map fst (fs_players (w_store w)))"
    by simp_all
  show "map fst (fs_players (w_store (snd (handleSubmit_player env form w)))) =
           map fst (fs_players (w_store w))"
    by (rule handleSubmit_player_update(2) [OF ok h])
  show "\<forall>d \<in> set (fs_players (w_store (snd (handleSubmit_player env form w)))).
             fst d = i \<longrightarrow> pl_jersey_number (snd d) = parseInt (pf_jerseyNumber form)"
    by (rule handleSubmit_player_update(3) [OF ok h])
qed

text \<open>
  Witness for C5: the jersey number 150, outside 1 to 99, is stored for a new player and
  for the existing player \<open>p1\<close>.
\<close>

theorem handleSubmit_player_stores_parseInt_witness:
  "parseInt ''150'' = Num 150
   \<and> (\<exists>p. fs_players (w_store (snd (handleSubmit_player ex_env (ex_player_form ''150'') ex_world))) =
            fs_players (w_store ex_world) @ [(''new1'', p)]
          \<and> pl_jersey_number p = Num 150)
   \<and> fst (hd (fs_players (w_store (snd (handleSubmit_player ex_env
            ((ex_player_form ''150'')\<lparr>pf_editingPlayer :=
                Some ((ex_player ''Abebe'')\<lparr>pl_id := Some ''p1''\<rparr>)\<rparr>) ex_world))))) = ''p1''
   \<and> pl_jersey_number (snd (hd (fs_players (w_store (snd (handleSubmit_player ex_env
            ((ex_player_form ''150'')\<lparr>pf_editingPlayer :=
                Some ((ex_player ''Abebe'')\<lparr>pl_id := Some ''p1''\<rparr>)\<rparr>) ex_world)))))) = Num 150"
proof -
  let ?edit = "(ex_player_form ''150'')\<lparr>pf_editingPlayer :=
                Some ((ex_player ''Abebe'')\<lparr>pl_id := Some ''p1''\<rparr>)\<rparr>"
  let ?after = "fs_players (w_store (snd (handleSubmit_player ex_env ?edit ex_world)))"
  have ok: "\<forall>c. ce_fails ex_env c = None"
    by (simp add: ex_env_def)
  have p: "parseInt ''150'' = Num 150"
    by (simp add: parseInt_def is_white_def radix_digit_def digit_value_def)
  have n: "pf_editingPlayer (ex_player_form ''150'') = None"
      "pf_jerseyNumber (ex_player_form ''150'') = ''150''"
    by (simp_all add: ex_player_form_def)
  have e: "pf_editingPlayer ?edit = Some ((ex_player ''Abebe'')\<lparr>pl_id := Some ''p1''\<rparr>)
           \<and> pl_id ((ex_player ''Abebe'')\<lparr>pl_id := Some ''p1''\<rparr>) = Some ''p1'' \<and> ''p1'' \<noteq> []
           \<and> ''p1'' \<in> set (map fst (fs_players (w_store ex_world)))"
    by (simp add: ex_player_form_def ex_world_def ex_store_def)
  have j: "pf_jerseyNumber ?edit = ''150''"
    by (simp add: ex_player_form_def)
  have a: "ce_auto_id ex_env = ''new1''"
    by (simp add: ex_env_def)
  have ids: "map fst (fs_players (w_store ex_world)) = [''p1'', ''p2'']"
    by (simp add: ex_world_def ex_store_def)
  from handleSubmit_player_stores_parseInt
         [of ex_env "ex_player_form ''150''" ex_world "ex_player ''Abebe''" "''none''"]
       ok n a p
  have created: "\<exists>p. fs_players (w_store (snd (handleSubmit_player ex_env (ex_player_form ''150'') ex_world))) =
            fs_players (w_store ex_world) @ [(''new1'', p)]
          \<and> pl_jersey_number p = Num 150"
    by simp
  from handleSubmit_player_stores_parseInt
         [of ex_env ?edit ex_world "(ex_player ''Abebe'')\<lparr>pl_id := Some ''p1''\<rparr>" "''p1''"]
       ok e
  have upd: "map fst ?after = map fst (fs_players (w_store ex_world))"
    and all: "\<forall>d \<in> set ?after. fst d = ''p1'' \<longrightarrow> pl_jersey_number (snd d) = parseInt (pf_jerseyNumber ?edit)"
    by blast+
  have keys: "map fst ?after = [''p1'', ''p2'']"
    using upd ids by simp
  then have ne: "?after \<noteq> []"
    by auto
  have first: "fst (hd ?after) = ''p1''"
    using keys ne by (cases ?after) simp_all
  have "hd ?after \<in> set ?after"
    using ne by simp
  then have stored: "pl_jersey_number (snd (hd ?after)) = Num 150"
    using all first j p by simp
  show ?thesis
    using p created first stored by blast
qed

text \<open>
  C6. On the match-details page, for every fetched list of lineup entries, the First Half,
  Second Half and Full Time sections contain exactly the entries whose lineup type is
  first_half, second_half and full_time respectively (with their multiplicities), and each
  section is sorted by the position played in the fixed order goalkeeper, defender,
  midfielder, forward.
\<close>

theorem lineup_sections_filtered_and_sorted:
  "mset (firstHalfLineup lineups) = mset (filter (\<lambda>l. lu_lineup_type l = First_half) lineups)
   \<and> mset (secondHalfLineup lineups) = mset (filter (\<lambda>l. lu_lineup_type l = Second_half) lineups)
   \<and> mset (fullTimeLineup lineups) = mset (filter (\<lambda>l. lu_lineup_type l = Full_time) lineups)
   \<and> spec_in_position_order (firstHalfLineup lineups)
   \<and> spec_in_position_order (secondHalfLineup lineups)
   \<and> spec_in_position_order (fullTimeLineup lineups)"
  by (simp add: firstHalfLineup_def secondHalfLineup_def fullTimeLineup_def
      mset_array_sort section_in_position_order)

text \<open>
  Witness for C6: three entries, two of the first half given forward before goalkeeper.
\<close>

theorem lineup_sections_filtered_and_sorted_witness:
  "firstHalfLineup
     [\<lparr>lu_id = Some ''a'', lu_match_id = ''m'', lu_player_id = ''p1'', lu_lineup_type = First_half,
       lu_position_played = Forward, lu_created_at = ''t'', lu_players = None\<rparr>,
      \<lparr>lu_id = Some ''b'', lu_match_id = ''m'', lu_player_id = ''p2'', lu_lineup_type = Second_half,
       lu_position_played = Defender, lu_created_at = ''t'', lu_players = None\<rparr>,
      \<lparr>lu_id = Some ''c'', lu_match_id = ''m'', lu_player_id = ''p3'', lu_lineup_type = First_half,
       lu_position_played = Goalkeeper, lu_created_at = ''t'', lu_players = None\<rparr>]
   = [\<lparr>lu_id = Some ''c'', lu_match_id = ''m'', lu_player_id = ''p3'', lu_lineup_type = First_half,
       lu_position_played = Goalkeeper, lu_created_at = ''t'', lu_players = None\<rparr>,
      \<lparr>lu_id = Some ''a'', lu_match_id = ''m'', lu_player_id = ''p1'', lu_lineup_type = First_half,
       lu_position_played = Forward, lu_created_at = ''t'', lu_players = None\<rparr>]
   \<and> spec_in_position_order (firstHalfLineup
     [\<lparr>lu_id = Some ''a'', lu_match_id = ''m'', lu_player_id = ''p1'', lu_lineup_type = First_half,
       lu_position_played = Forward, lu_created_at = ''t'', lu_players = None\<rparr>,
      \<lparr>lu_id = Some ''b'', lu_match_id = ''m'', lu_player_id = ''p2'', lu_lineup_type = Second_half,
       lu_position_played = Defender, lu_created_at = ''t'', lu_players = None\<rparr>,
      \<lparr>lu_id = Some ''c'', lu_match_id = ''m'', lu_player_id = ''p3'', lu_lineup_type = First_half,
       lu_position_played = Goalkeeper, lu_created_at = ''t'', lu_players = None\<rparr>])"
  using lineup_sections_filtered_and_sorted [of
     "[\<lparr>lu_id = Some ''a'', lu_match_id = ''m'', lu_player_id = ''p1'', lu_lineup_type = First_half,
       lu_position_played = Forward, lu_created_at = ''t'', lu_players = None\<rparr>,
      \<lparr>lu_id = Some ''b'', lu_match_id = ''m'', lu_player_id = ''p2'', lu_lineup_type = Second_half,
       lu_position_played = Defender, lu_created_at = ''t'', lu_players = None\<rparr>,
      \<lparr>lu_id = Some ''c'', lu_match_id = ''m'', lu_player_id = ''p3'', lu_lineup_type = First_half,
       lu_position_played = Goalkeeper, lu_created_at = ''t'', lu_players = None\<rparr>]"]
  by (simp add: firstHalfLineup_def array_sort_def byPosition_def positionOrder_def)

text \<open>
  C7. On the Squad page the grouping of the fetched players by position is a partition:
  all four groups exist, a group holds exactly the players of the list whose position is
  the group's position (so every player is in the group of its position and in no other),
  and the four groups together hold exactly the players of the list.
\<close>

theorem groupedPlayers_partition:
  "dom (groupedPlayers players) = {Goalkeeper, Defender, Midfielder, Forward}
   \<and> (\<forall>pos g p. groupedPlayers players pos = Some g \<longrightarrow>
         count (mset g) p = (if pl_position p = pos then count (mset players) p else 0))
   \<and> (\<forall>p \<in> set players. \<forall>pos g. groupedPlayers players pos = Some g \<longrightarrow>
         (p \<in> set g \<longleftrightarrow> pos = pl_position p))
   \<and> mset (concat (map (\<lambda>pos. the (groupedPlayers players pos)) positionOrder)) = mset players"
proof (intro conjI)
  show "dom (groupedPlayers players) = {Goalkeeper, Defender, Midfielder, Forward}"
  proof -
    have "dom (groupedPlayers players) = UNIV"
      by (auto simp: groupedPlayers_apply)
    moreover have "(UNIV :: PlayerPosition set) = {Goalkeeper, Defender, Midfielder, Forward}"
      by (auto intro: PlayerPosition.exhaust)
    ultimately show ?thesis by simp
  qed
  show "\<forall>pos g p. groupedPlayers players pos = Some g \<longrightarrow>
         count (mset g) p = (if pl_position p = pos then count (mset players) p else 0)"
    by (auto simp: groupedPlayers_apply count_mset_0_iff)
  show "\<forall>p \<in> set players. \<forall>pos g. groupedPlayers players pos = Some g \<longrightarrow>
         (p \<in> set g \<longleftrightarrow> pos = pl_position p)"
    by (auto simp: groupedPlayers_apply)
  show "mset (concat (map (\<lambda>pos. the (groupedPlayers players pos)) positionOrder)) = mset players"
    using mset_by_position[of players]
    by (simp add: groupedPlayers_apply positionOrder_def ac_simps)
qed

text \<open>Witness for C7: a forward and a goalkeeper.\<close>

theorem groupedPlayers_partition_witness:
  "groupedPlayers
     [\<lparr>pl_id = Some ''p1'', pl_full_name = ''A'', pl_position = Forward, pl_jersey_number = Num 9,
       pl_email = None, pl_avatar_url = None, pl_image_public_id = None,
       pl_user_id = None, pl_is_active = True,
       pl_created_at = ''t'', pl_updated_at = ''t''\<rparr>,
      \<lparr>pl_id = Some ''p2'', pl_full_name = ''B'', pl_position = Goalkeeper, pl_jersey_number = Num 1,
       pl_email = None, pl_avatar_url = None, pl_image_public_id = None,
       pl_user_id = None, pl_is_active = True,
       pl_created_at = ''t'', pl_updated_at = ''t''\<rparr>] Forward
   = Some [\<lparr>pl_id = Some ''p1'', pl_full_name = ''A'', pl_position = Forward, pl_jersey_number = Num 9,
       pl_email = None, pl_avatar_url = None, pl_image_public_id = None,
       pl_user_id = None, pl_is_active = True,
       pl_created_at = ''t'', pl_updated_at = ''t''\<rparr>]
   \<and> dom (groupedPlayers
     [\<lparr>pl_id = Some ''p1'', pl_full_name = ''A'', pl_position = Forward, pl_jersey_number = Num 9,
       pl_email = None, pl_avatar_url = None, pl_image_public_id = None,
       pl_user_id = None, pl_is_active = True,
       pl_created_at = ''t'', pl_updated_at = ''t''\<rparr>,
      \<lparr>pl_id = Some ''p2'', pl_full_name = ''B'', pl_position = Goalkeeper, pl_jersey_number = Num 1,
       pl_email = None, pl_avatar_url = None, pl_image_public_id = None,
       pl_user_id = None, pl_is_active = True,
       pl_created_at = ''t'', pl_updated_at = ''t''\<rparr>]) = {Goalkeeper, Defender, Midfielder, Forward}"
  using groupedPlayers_partition [of
     "[\<lparr>pl_id = Some ''p1'', pl_full_name = ''A'', pl_position = Forward, pl_jersey_number = Num 9,
       pl_email = None, pl_avatar_url = None, pl_image_public_id = None,
       pl_user_id = None, pl_is_active = True,
       pl_created_at = ''t'', pl_updated_at = ''t''\<rparr>,
      \<lparr>pl_id = Some ''p2'', pl_full_name = ''B'', pl_position = Goalkeeper, pl_jersey_number = Num 1,
       pl_email = None, pl_avatar_url = None, pl_image_public_id = None,
       pl_user_id = None, pl_is_active = True,
       pl_created_at = ''t'', pl_updated_at = ''t''\<rparr>]"]
  by (simp add: groupedPlayers_def positionOrder_def)

text \<open>
  C8. Scheduling a match, toggling visibility and deleting a match each return normally
  and issue every backend call at most once (no retry). When a backend call awaited in the
  operation's \<open>try\<close> block fails, the failure is caught there and shown as exactly one
  toast, a destructive one carrying the message of a failed call (or the operation's
  fallback text).
\<close>

theorem admin_match_operations_fail_once:
  "(fst (handleSubmit_match env form w) = Returned
    \<and> distinct (calls_since w (snd (handleSubmit_match env form w)))
    \<and> (toISOString env (new_Date_string (ce_runtime env)
            (mf_matchDate form @ ''T'' @ mf_matchTime form)) = Inr s
        \<and> ce_fails env (AddDoc Matches) = Some e \<longrightarrow>
          calls_since w (snd (handleSubmit_match env form w)) = [AddDoc Matches]
          \<and> w_toasts (snd (handleSubmit_match env form w)) =
              w_toasts w @ [destructive_toast ''Failed to schedule match.'' e]))
   \<and> (m_id match = Some mid \<and> mid \<noteq> [] \<longrightarrow>
        fst (toggleVisibility env match w) = Returned
        \<and> distinct (calls_since w (snd (toggleVisibility env match w)))
        \<and> (ce_fails env (UpdateDoc (MatchDoc mid)) = Some e \<longrightarrow>
             calls_since w (snd (toggleVisibility env match w)) = [UpdateDoc (MatchDoc mid)]
             \<and> w_toasts (snd (toggleVisibility env match w)) =
                 w_toasts w @ [destructive_toast ''Failed to update visibility.'' e]))
   \<and> (m_id match = Some mid \<and> mid \<noteq> []
        \<and> format_date (toDate (ce_runtime env) (m_match_date match)) = Inr ()
        \<and> ce_confirm env \<longrightarrow>
        fst (deleteMatch env match w) = Returned
        \<and> (distinct (map fst (fs_lineups (w_store w) mid))
            \<and> distinct (map fst (fs_events (w_store w) mid)) \<longrightarrow>
              distinct (calls_since w (snd (deleteMatch env match w))))
        \<and> (\<not> (\<forall>c \<in> set ([GetDocs (Lineups mid), GetDocs (Events mid)]
                @ map DeleteDoc (sub_refs (w_store w) mid) @ [DeleteDoc (MatchDoc mid)]).
                 ce_fails env c = None) \<longrightarrow>
             (\<exists>c msg. c \<in> set ([GetDocs (Lineups mid), GetDocs (Events mid)]
                   @ map DeleteDoc (sub_refs (w_store w) mid) @ [DeleteDoc (MatchDoc mid)])
                \<and> ce_fails env c = Some msg
                \<and> w_toasts (snd (deleteMatch env match w)) =
                     w_toasts w @ [destructive_toast ''Failed to delete match.'' msg])))"
proof (intro conjI impI)
  let ?iso = "toISOString env (new_Date_string (ce_runtime env)
            (mf_matchDate form @ ''T'' @ mf_matchTime form))"
  show "fst (handleSubmit_match env form w) = Returned"
    by (rule handleSubmit_match_effects(1))
  show "distinct (calls_since w (snd (handleSubmit_match env form w)))"
  proof (cases ?iso)
    case (Inl err)
    then have "w_calls (snd (handleSubmit_match env form w)) = w_calls w @ []"
      using handleSubmit_match_effects(2) [of env form err w] by simp
    then show ?thesis by (simp add: calls_since_def)
  next
    case (Inr s')
    show ?thesis
    proof (cases "ce_fails env (AddDoc Matches)")
      case None
      then show ?thesis
        using handleSubmit_match_effects(4) [OF Inr, of w] by simp
    next
      case (Some e')
      then show ?thesis
        using handleSubmit_match_effects(3) [OF Inr, of e' w] by simp
    qed
  qed
next
  assume a: "toISOString env (new_Date_string (ce_runtime env)
            (mf_matchDate form @ ''T'' @ mf_matchTime form)) = Inr s
        \<and> ce_fails env (AddDoc Matches) = Some e"
  then have iso: "toISOString env (new_Date_string (ce_runtime env)
            (mf_matchDate form @ ''T'' @ mf_matchTime form)) = Inr s"
    and f: "ce_fails env (AddDoc Matches) = Some e"
    by simp_all
  note eff = handleSubmit_match_effects(3) [OF iso f, of w]
  show "calls_since w (snd (handleSubmit_match env form w)) = [AddDoc Matches]"
    using eff by simp
  show "w_toasts (snd (handleSubmit_match env form w)) =
              w_toasts w @ [destructive_toast ''Failed to schedule match.'' e]"
    using eff by (simp add: destructive_toast_def)
next
  assume a: "m_id match = Some mid \<and> mid \<noteq> []"
  then have h: "m_id match = Some mid" "mid \<noteq> []" by simp_all
  show "fst (toggleVisibility env match w) = Returned"
    by (rule toggleVisibility_effects(1) [OF h])
  show "distinct (calls_since w (snd (toggleVisibility env match w)))"
    by (rule toggleVisibility_effects(3) [OF h])
  assume f: "ce_fails env (UpdateDoc (MatchDoc mid)) = Some e"
  note eff = toggleVisibility_effects(2) [OF h f, of w]
  show "calls_since w (snd (toggleVisibility env match w)) = [UpdateDoc (MatchDoc mid)]"
    using eff by simp
  show "w_toasts (snd (toggleVisibility env match w)) =
                 w_toasts w @ [destructive_toast ''Failed to update visibility.'' e]"
    using eff by (simp add: destructive_toast_def)
next
  assume a: "m_id match = Some mid \<and> mid \<noteq> []
        \<and> format_date (toDate (ce_runtime env) (m_match_date match)) = Inr ()
        \<and> ce_confirm env"
  then have h: "m_id match = Some mid" "mid \<noteq> []"
      "format_date (toDate (ce_runtime env) (m_match_date match)) = Inr ()" "ce_confirm env"
    by simp_all
  show "fst (deleteMatch env match w) = Returned"
    by (rule deleteMatch_effects(1) [OF h])
  show "distinct (calls_since w (snd (deleteMatch env match w)))"
    if d: "distinct (map fst (fs_lineups (w_store w) mid))
            \<and> distinct (map fst (fs_events (w_store w) mid))"
  proof -
    have "distinct (sub_refs (w_store w) mid)"
      using d by (simp add: distinct_sub_refs)
    moreover obtain cs where "w_calls (snd (deleteMatch env match w)) = w_calls w @ cs"
      and "distinct (sub_refs (w_store w) mid) \<longrightarrow> distinct cs"
      using deleteMatch_effects(3) [OF h, of w] by blast
    ultimately show ?thesis by simp
  qed
  show "\<exists>c msg. c \<in> set ([GetDocs (Lineups mid), GetDocs (Events mid)]
                   @ map DeleteDoc (sub_refs (w_store w) mid) @ [DeleteDoc (MatchDoc mid)])
                \<and> ce_fails env c = Some msg
                \<and> w_toasts (snd (deleteMatch env match w)) =
                     w_toasts w @ [destructive_toast ''Failed to delete match.'' msg]"
    if bad: "\<not> (\<forall>c \<in> set ([GetDocs (Lineups mid), GetDocs (Events mid)]
                @ map DeleteDoc (sub_refs (w_store w) mid) @ [DeleteDoc (MatchDoc mid)]).
                 ce_fails env c = None)"
  proof -
    let ?planned = "[GetDocs (Lineups mid), GetDocs (Events mid)]
                @ map DeleteDoc (sub_refs (w_store w) mid) @ [DeleteDoc (MatchDoc mid)]"
    have "first_error env ?planned \<noteq> None"
      using bad first_error_None_iff [of env ?planned] by blast
    then obtain msg where fe: "first_error env ?planned = Some msg"
      by blast
    obtain c where "c \<in> set ?planned" and "ce_fails env c = Some msg"
      using first_error_Some [OF fe] by blast
    moreover have "w_toasts (snd (deleteMatch env match w)) =
                     w_toasts w @ [destructive_toast ''Failed to delete match.'' msg]"
      using deleteMatch_effects(2) [OF h fe] by (simp add: destructive_toast_def)
    ultimately show ?thesis by blast
  qed
qed

text \<open>
  Witness for C8: with the three writes refused, each operation on the example data ends
  with the one destructive toast.
\<close>

theorem admin_match_operations_fail_once_witness:
  "w_toasts (snd (handleSubmit_match ex_env_denied ex_form ex_world)) =
     [destructive_toast ''Failed to schedule match.'' ''permission-denied'']
   \<and> w_toasts (snd (toggleVisibility ex_env_denied ex_match ex_world)) =
     [destructive_toast ''Failed to update visibility.'' ''permission-denied'']
   \<and> w_toasts (snd (deleteMatch ex_env_denied ex_match ex_world)) =
     [destructive_toast ''Failed to delete match.'' ''permission-denied'']
   \<and> distinct (calls_since ex_world (snd (deleteMatch ex_env_denied ex_match ex_world)))"
proof -
  have h1: "toISOString ex_env_denied (new_Date_string (ce_runtime ex_env_denied)
            (mf_matchDate ex_form @ ''T'' @ mf_matchTime ex_form)) = Inr ''2024-05-01T18:00:00.000Z''
        \<and> ce_fails ex_env_denied (AddDoc Matches) = Some ''permission-denied''"
    by (simp add: ex_env_denied_def ex_env_def ex_runtime_def ex_form_def new_Date_string_def)
  have h2: "m_id ex_match = Some ''m1'' \<and> ''m1'' \<noteq> []"
    by (simp add: ex_match_def)
  have h3: "ce_fails ex_env_denied (UpdateDoc (MatchDoc ''m1'')) = Some ''permission-denied''"
    by (simp add: ex_env_denied_def)
  have h4: "m_id ex_match = Some ''m1'' \<and> ''m1'' \<noteq> []
        \<and> format_date (toDate (ce_runtime ex_env_denied) (m_match_date ex_match)) = Inr ()
        \<and> ce_confirm ex_env_denied"
    by (simp add: ex_match_def ex_env_denied_def ex_env_def ex_runtime_def toDate_def
        new_Date_string_def)
  have h5: "distinct (map fst (fs_lineups (w_store ex_world) ''m1''))
            \<and> distinct (map fst (fs_events (w_store ex_world) ''m1''))"
    by (simp add: ex_world_def ex_store_def)
  have h6: "\<not> (\<forall>c \<in> set ([GetDocs (Lineups ''m1''), GetDocs (Events ''m1'')]
                @ map DeleteDoc (sub_refs (w_store ex_world) ''m1'') @ [DeleteDoc (MatchDoc ''m1'')]).
                 ce_fails ex_env_denied c = None)"
    by (simp add: ex_env_denied_def ex_world_def ex_store_def sub_refs_def)
  have only: "ce_fails ex_env_denied c = Some msg \<Longrightarrow> msg = ''permission-denied''" for c msg
    by (simp add: ex_env_denied_def ex_env_def split: if_splits)
  have w: "w_toasts ex_world = []"
    by (simp add: ex_world_def)
  note inst = admin_match_operations_fail_once [of ex_env_denied ex_form ex_world
      "''2024-05-01T18:00:00.000Z''" "''permission-denied''" ex_match "''m1''"]
  have a: "w_toasts (snd (handleSubmit_match ex_env_denied ex_form ex_world)) =
     [destructive_toast ''Failed to schedule match.'' ''permission-denied'']"
    using inst h1 w by simp
  have b: "w_toasts (snd (toggleVisibility ex_env_denied ex_match ex_world)) =
     [destructive_toast ''Failed to update visibility.'' ''permission-denied'']"
    using inst h2 h3 w by simp
  have "\<exists>c msg. ce_fails ex_env_denied c = Some msg
            \<and> w_toasts (snd (deleteMatch ex_env_denied ex_match ex_world)) =
                 w_toasts ex_world @ [destructive_toast ''Failed to delete match.'' msg]"
    using inst h4 h6 by blast
  then have c: "w_toasts (snd (deleteMatch ex_env_denied ex_match ex_world)) =
     [destructive_toast ''Failed to delete match.'' ''permission-denied'']"
    using only w by auto
  have d: "distinct (calls_since ex_world (snd (deleteMatch ex_env_denied ex_match ex_world)))"
    using inst h4 h5 by blast
  show ?thesis
    using a b c d by blast
qed

text \<open>
  C9. In the bootstrap-admin function, when \<open>createUser\<close> succeeds and the insert of
  the profile or of the admin role fails, the failure is only logged: the response is
  still 200 with \<open>success: true\<close>, while the profile table, respectively the role
  table, is unchanged, so that no admin row exists after the successful response.
\<close>

theorem bootstrap_admin_not_atomic:
  assumes "req_method req \<noteq> ''OPTIONS''"
    and "\<not> falsy (supabaseUrl pf)" and "\<not> falsy (supabaseServiceKey pf)"
    and "checkError pf = None"
    and "\<not> (\<exists>r \<in> set (db_user_roles db). ur_role r = Admin)"
    and "req_json req = Some b"
    and "br_email b = Some email" and "email \<noteq> []"
    and "br_password b = Some password" and "password \<noteq> []"
    and "br_full_name b = Some full_name" and "full_name \<noteq> []"
    and "createUser_result pf = Inr (uid, uemail)"
    and "profileError pf \<noteq> None \<or> roleError pf \<noteq> None"
  shows "h_response (serve pf db req) =
           \<lparr>status = 200,
             body = SuccessJson True ''Admin account created successfully!'' uid uemail full_name\<rparr>
         \<and> (profileError pf \<noteq> None \<longrightarrow>
              db_profiles (h_database (serve pf db req)) = db_profiles db
              \<and> ''Error creating profile:'' \<in> set (h_console (serve pf db req)))
         \<and> (roleError pf \<noteq> None \<longrightarrow>
              db_user_roles (h_database (serve pf db req)) = db_user_roles db
              \<and> \<not> (\<exists>r \<in> set (db_user_roles (h_database (serve pf db req))). ur_role r = Admin)
              \<and> ''Error assigning role:'' \<in> set (h_console (serve pf db req)))"
proof (intro conjI impI)
  note facts = serve_created [OF assms(1-13)]
  show "h_response (serve pf db req) =
           \<lparr>status = 200,
             body = SuccessJson True ''Admin account created successfully!'' uid uemail full_name\<rparr>"
    by (rule facts(1))
  show "db_profiles (h_database (serve pf db req)) = db_profiles db"
    if "profileError pf \<noteq> None"
    using that facts(3) by (cases "profileError pf") simp_all
  show "''Error creating profile:'' \<in> set (h_console (serve pf db req))"
    if "profileError pf \<noteq> None"
    using that facts(5) by (cases "profileError pf") simp_all
  show roles: "db_user_roles (h_database (serve pf db req)) = db_user_roles db"
    if "roleError pf \<noteq> None"
    using that facts(4) by (cases "roleError pf") simp_all
  show "\<not> (\<exists>r \<in> set (db_user_roles (h_database (serve pf db req))). ur_role r = Admin)"
    if "roleError pf \<noteq> None"
    using roles [OF that] assms(5) by simp
  show "''Error assigning role:'' \<in> set (h_console (serve pf db req))"
    if "roleError pf \<noteq> None"
    using that facts(5) by (cases "roleError pf") simp_all
qed

text \<open>Witness for C9: the role insert fails; the response is the success response.\<close>

theorem bootstrap_admin_not_atomic_witness:
  "h_response (serve
        \<lparr>supabaseUrl = Some ''https://club.supabase.co'', supabaseServiceKey = Some ''key'',
          checkError = None, createUser_result = Inr (''u2'', ''new@club.org''),
          profileError = None, roleError = Some ''permission denied''\<rparr>
        \<lparr>db_user_roles = [], db_profiles = [], db_auth_users = []\<rparr>
        \<lparr>req_method = ''POST'', req_json = Some \<lparr>br_email = Some ''new@club.org'',
           br_password = Some ''secret1'', br_full_name = Some ''First Admin''\<rparr>\<rparr>)
     = \<lparr>status = 200,
         body = SuccessJson True ''Admin account created successfully!'' ''u2'' ''new@club.org''
           ''First Admin''\<rparr>
   \<and> db_user_roles (h_database (serve
        \<lparr>supabaseUrl = Some ''https://club.supabase.co'', supabaseServiceKey = Some ''key'',
          checkError = None, createUser_result = Inr (''u2'', ''new@club.org''),
          profileError = None, roleError = Some ''permission denied''\<rparr>
        \<lparr>db_user_roles = [], db_profiles = [], db_auth_users = []\<rparr>
        \<lparr>req_method = ''POST'', req_json = Some \<lparr>br_email = Some ''new@club.org'',
           br_password = Some ''secret1'', br_full_name = Some ''First Admin''\<rparr>\<rparr>)) = []"
  using bootstrap_admin_not_atomic [where
     pf = "\<lparr>supabaseUrl = Some ''https://club.supabase.co'', supabaseServiceKey = Some ''key'',
          checkError = None, createUser_result = Inr (''u2'', ''new@club.org''),
          profileError = None, roleError = Some ''permission denied''\<rparr>"
     and db = "\<lparr>db_user_roles = [], db_profiles = [], db_auth_users = []\<rparr>"
     and req = "\<lparr>req_method = ''POST'', req_json = Some \<lparr>br_email = Some ''new@club.org'',
           br_password = Some ''secret1'', br_full_name = Some ''First Admin''\<rparr>\<rparr>"
     and b = "\<lparr>br_email = Some ''new@club.org'',
           br_password = Some ''secret1'', br_full_name = Some ''First Admin''\<rparr>"
     and email = "''new@club.org''" and password = "''secret1''" and full_name = "''First Admin''"
     and uid = "''u2''" and uemail = "''new@club.org''"]
  by (simp add: falsy_def)



end
